(* ===== verification/Hoomd_Prelude.thy ===== *)
theory Hoomd_Prelude
  imports Complex_Main "HOL-Library.Word"
begin

section \<open>Shared vocabulary\<close>

text \<open>
  The types, the error values and the generic facts that the component theories share.
  \<^item> \<open>u32\<close> and \<open>u64\<close> are the fixed-width unsigned integers of the source
    (\<open>unsigned int\<close>, \<open>uint64_t\<close>); their arithmetic wraps around.
  \<^item> Counts, array positions and tags that only index containers are natural numbers, with
    \<open>not_local\<close> for the sentinel \<open>0xffffffff\<close> and \<open>add32\<close> where the code adds to a
    32-bit counter.
  \<^item> \<open>Scalar\<close> is the source's floating point type, taken as the real numbers: the arithmetic of
    the model is exact, rounding is not modelled.
  \<^item> A \<open>throw\<close> of the source is an \<open>Inl\<close> of the sum type \<open>'a result\<close>.
\<close>

type_synonym u32 = "32 word"
type_synonym u64 = "64 word"
type_synonym Scalar = real
type_synonym vec3 = "Scalar \<times> Scalar \<times> Scalar"
type_synonym vec4 = "Scalar \<times> Scalar \<times> Scalar \<times> Scalar"
type_synonym int3 = "int \<times> int \<times> int"

abbreviation xc :: "'a \<times> 'b \<times> 'c \<Rightarrow> 'a" where "xc v \<equiv> fst v"
abbreviation yc :: "'a \<times> 'b \<times> 'c \<Rightarrow> 'b" where "yc v \<equiv> fst (snd v)"
abbreviation zc :: "'a \<times> 'b \<times> 'c \<Rightarrow> 'c" where "zc v \<equiv> snd (snd v)"

named_theorems word_nat "conversions of word arithmetic that does not wrap to natural numbers"

subsection \<open>Errors\<close>

datatype hoomd_error = RuntimeError string | InvalidArgument string | OutOfRange string

type_synonym 'a result = "hoomd_error + 'a"

definition bind_result :: "'a result \<Rightarrow> ('a \<Rightarrow> 'b result) \<Rightarrow> 'b result" where
  "bind_result r f = (case r of Inl e \<Rightarrow> Inl e | Inr a \<Rightarrow> f a)"

lemma bind_result_simps [simp]:
  "bind_result (Inl e) f = Inl e"
  "bind_result (Inr a) f = f a"
  by (simp_all add: bind_result_def)

lemma bind_result_Inr:
  "bind_result r f = Inr b \<longleftrightarrow> (\<exists>a. r = Inr a \<and> f a = Inr b)"
  by (cases r) auto

subsection \<open>32-bit counters kept as natural numbers\<close>

definition not_local :: nat where
  "not_local = 4294967295"

definition add32 :: "nat \<Rightarrow> nat \<Rightarrow> nat" where
  "add32 a b = (a + b) mod 4294967296"

lemma add32_small: "a + b \<le> not_local \<Longrightarrow> add32 a b = a + b"
  by (simp add: add32_def not_local_def)

subsection \<open>Words without wrap-around\<close>

lemma unat_mult_small [word_nat]:
  fixes a b :: "'a::len word"
  assumes "unat a * unat b < 2 ^ LENGTH('a)"
  shows "unat (a * b) = unat a * unat b"
  using assms by (simp add: unat_word_ariths)

lemma unat_add_small [word_nat]:
  fixes a b :: "'a::len word"
  assumes "unat a + unat b < 2 ^ LENGTH('a)"
  shows "unat (a + b) = unat a + unat b"
  using assms by (simp add: unat_word_ariths)

lemma unat_sub_small [word_nat]:
  fixes a b :: "'a::len word"
  assumes "unat b \<le> unat a"
  shows "unat (a - b) = unat a - unat b"
  using assms by (simp add: unat_sub word_le_nat_alt)

lemma unat_mult_add_small:
  fixes a b c :: "'a::len word"
  assumes "unat a * unat b + unat c < 2 ^ LENGTH('a)"
  shows "unat (a * b + c) = unat a * unat b + unat c"
proof -
  have "unat (a * b) = unat a * unat b"
    using assms by (intro unat_mult_small) simp
  then show ?thesis
    using assms by (simp add: unat_add_small)
qed

lemma unat_u32_less: "unat (a :: u32) < 4294967296"
  using unsigned_less [of a, where ?'a = nat] by simp

subsection \<open>Row-major positions\<close>

lemma row_major_less:
  fixes i j w h :: nat
  assumes "i < w" "j < h"
  shows "j * w + i < w * h"
proof -
  have "j * w + i < Suc j * w" using assms(1) by simp
  also have "\<dots> \<le> h * w" using assms(2) by (intro mult_le_mono1) simp
  finally show ?thesis by (simp add: mult.commute)
qed

lemma row_major_div: "i < w \<Longrightarrow> (j * w + i) div w = (j::nat)"
  by simp

lemma row_major_mod: "i < w \<Longrightarrow> (j * w + i) mod w = (i::nat)"
  by simp

subsection \<open>Counting in lists\<close>

lemma nth_update_iff: "xs[i := v] ! j = (if i = j \<and> j < length xs then v else xs ! j)"
  by (cases "i < length xs") (auto simp: nth_list_update list_update_beyond)

lemma sum_list_indicator: "sum_list (map (\<lambda>x. if P x then 1 else 0 :: nat) xs) = length (filter P xs)"
  by (induction xs) simp_all

lemma filter_single:
  assumes "r < length xs" "P (xs ! r)" "\<And>s. s < length xs \<Longrightarrow> P (xs ! s) \<Longrightarrow> s = r"
  shows "filter P xs = [xs ! r]"
  using assms
proof (induction xs arbitrary: r)
  case (Cons x xs)
  show ?case
  proof (cases r)
    case 0
    have "\<not> P y" if y: "y \<in> set xs" for y
    proof
      assume "P y"
      obtain k where "k < length xs" "y = xs ! k" using y by (auto simp: in_set_conv_nth)
      then show False using Cons.prems(3) [of "Suc k"] \<open>P y\<close> 0 by simp
    qed
    then show ?thesis using 0 Cons.prems(2) by (simp add: filter_empty_conv)
  next
    case (Suc k)
    have "\<not> P x" using Cons.prems(3) [of 0] Suc by auto
    moreover have "filter P xs = [xs ! k]"
    proof (rule Cons.IH)
      show "k < length xs" "P (xs ! k)" using Cons.prems(1,2) Suc by simp_all
      show "s = k" if "s < length xs" "P (xs ! s)" for s using Cons.prems(3) [of "Suc s"] that Suc by simp
    qed
    ultimately show ?thesis using Suc by simp
  qed
qed simp

end
