(* ===== verification/Index1D.thy ===== *)
theory Index1D
  imports Hoomd_Prelude
begin

section \<open>Indexers: multi-dimensional arrays stored in one dimension\<close>

text \<open>
  The structs of \<^verbatim>\<open>hoomd/Index1D.h\<close>: \<open>Index2D\<close>, \<open>Index3D\<close> and
  \<open>Index2DUpperTriangular\<close>, with 32-bit members and 32-bit arithmetic. The contract that the
  clients (cell lists, bonded group tables, exclusion tables) rely on is the locale
  \<open>array_indexer\<close>: distinct coordinates have distinct positions, all of them inside the
  allocated array. It holds exactly as long as the number of elements fits in 32 bits, which is
  the well-formedness predicate of each indexer.
\<close>

subsection \<open>The contract\<close>

locale array_indexer =
  fixes wf_ix :: "'ix \<Rightarrow> bool"
    and num :: "'ix \<Rightarrow> u32"
    and dom_ix :: "'ix \<Rightarrow> 'c \<Rightarrow> bool"
    and at_ix :: "'ix \<Rightarrow> 'c \<Rightarrow> u32"
  assumes at_less: "wf_ix x \<Longrightarrow> dom_ix x c \<Longrightarrow> at_ix x c < num x"
    and at_inj: "wf_ix x \<Longrightarrow> dom_ix x c \<Longrightarrow> dom_ix x d \<Longrightarrow> at_ix x c = at_ix x d \<Longrightarrow> c = d"
begin

lemma store_in_bounds:
  assumes "wf_ix x" "dom_ix x c" "length xs = unat (num x)"
  shows "unat (at_ix x c) < length xs"
  using at_less [OF assms(1,2)] assms(3) by (simp add: word_less_nat_alt)

lemma read_after_write:
  assumes "wf_ix x" "dom_ix x c" "dom_ix x d" "length xs = unat (num x)"
  shows "xs[unat (at_ix x c) := v] ! unat (at_ix x d)
    = (if c = d then v else xs ! unat (at_ix x d))"
proof (cases "c = d")
  case True
  then show ?thesis using store_in_bounds [OF assms(1,2,4)] by simp
next
  case False
  then have "at_ix x c \<noteq> at_ix x d" using at_inj assms(1-3) by blast
  then have "unat (at_ix x c) \<noteq> unat (at_ix x d)" by (simp add: word_unat_eq_iff)
  then show ?thesis using False by simp
qed

end

text \<open>An indexer with an inverse mapping meets the contract.\<close>

locale invertible_indexer =
  fixes wf_ix :: "'ix \<Rightarrow> bool"
    and num :: "'ix \<Rightarrow> u32"
    and dom_ix :: "'ix \<Rightarrow> 'c \<Rightarrow> bool"
    and at_ix :: "'ix \<Rightarrow> 'c \<Rightarrow> u32"
    and coord :: "'ix \<Rightarrow> u32 \<Rightarrow> 'c"
  assumes in_range: "wf_ix x \<Longrightarrow> dom_ix x c \<Longrightarrow> at_ix x c < num x"
    and coord_at: "wf_ix x \<Longrightarrow> dom_ix x c \<Longrightarrow> coord x (at_ix x c) = c"
    and dom_coord: "wf_ix x \<Longrightarrow> k < num x \<Longrightarrow> dom_ix x (coord x k)"
    and at_coord: "wf_ix x \<Longrightarrow> k < num x \<Longrightarrow> at_ix x (coord x k) = k"
begin

lemma bij_positions:
  assumes "wf_ix x"
  shows "bij_betw (at_ix x) {c. dom_ix x c} {k. k < num x}"
proof (rule bij_betw_byWitness [where f' = "coord x"])
  show "\<forall>c\<in>{c. dom_ix x c}. coord x (at_ix x c) = c" using assms coord_at by blast
  show "\<forall>k\<in>{k. k < num x}. at_ix x (coord x k) = k" using assms at_coord by blast
  show "at_ix x ` {c. dom_ix x c} \<subseteq> {k. k < num x}" using assms in_range by blast
  show "coord x ` {k. k < num x} \<subseteq> {c. dom_ix x c}" using assms dom_coord by blast
qed

end

sublocale invertible_indexer \<subseteq> array_indexer wf_ix num dom_ix at_ix
proof unfold_locales
  show "wf_ix x \<Longrightarrow> dom_ix x c \<Longrightarrow> at_ix x c < num x" for x c by (rule in_range)
  show "wf_ix x \<Longrightarrow> dom_ix x c \<Longrightarrow> dom_ix x d \<Longrightarrow> at_ix x c = at_ix x d \<Longrightarrow> c = d" for x c d
    by (metis coord_at)
qed

subsection \<open>Index2D\<close>

record Index2D =
  i2_w :: u32
  i2_h :: u32

definition Index2D_at :: "Index2D \<Rightarrow> u32 \<Rightarrow> u32 \<Rightarrow> u32" where
  "Index2D_at ix i j = j * i2_w ix + i"

definition Index2D_getNumElements :: "Index2D \<Rightarrow> u32" where
  "Index2D_getNumElements ix = i2_w ix * i2_h ix"

definition Index2D_getPair :: "Index2D \<Rightarrow> u32 \<Rightarrow> u32 \<times> u32" where
  "Index2D_getPair ix idx = (idx mod i2_w ix, idx div i2_w ix)"

definition Index2D_wf :: "Index2D \<Rightarrow> bool" where
  "Index2D_wf ix \<longleftrightarrow> unat (i2_w ix) * unat (i2_h ix) < 4294967296"

definition Index2D_dom :: "Index2D \<Rightarrow> u32 \<times> u32 \<Rightarrow> bool" where
  "Index2D_dom ix c \<longleftrightarrow> fst c < i2_w ix \<and> snd c < i2_h ix"

lemma Index2D_at_nat:
  assumes "Index2D_wf ix" "Index2D_dom ix (i, j)"
  shows "unat (Index2D_at ix i j) = unat j * unat (i2_w ix) + unat i"
    and "unat j * unat (i2_w ix) + unat i < unat (i2_w ix) * unat (i2_h ix)"
proof -
  have lt: "unat i < unat (i2_w ix)" "unat j < unat (i2_h ix)"
    using assms(2) by (auto simp: Index2D_dom_def word_less_nat_alt)
  show *: "unat j * unat (i2_w ix) + unat i < unat (i2_w ix) * unat (i2_h ix)"
    by (rule row_major_less [OF lt])
  then have "unat j * unat (i2_w ix) + unat i < 2 ^ LENGTH(32)"
    using assms(1) by (simp add: Index2D_wf_def)
  then show "unat (Index2D_at ix i j) = unat j * unat (i2_w ix) + unat i"
    unfolding Index2D_at_def by (rule unat_mult_add_small)
qed

lemma Index2D_num_nat:
  "Index2D_wf ix \<Longrightarrow> unat (Index2D_getNumElements ix) = unat (i2_w ix) * unat (i2_h ix)"
  by (simp add: Index2D_wf_def Index2D_getNumElements_def unat_mult_small)

lemma Index2D_getPair_at:
  assumes "Index2D_wf ix" "Index2D_dom ix (i, j)"
  shows "Index2D_getPair ix (Index2D_at ix i j) = (i, j)"
proof -
  have "unat i < unat (i2_w ix)" using assms(2) by (simp add: Index2D_dom_def word_less_nat_alt)
  then show ?thesis
    by (simp add: Index2D_getPair_def word_unat_eq_iff unat_div unat_mod Index2D_at_nat [OF assms]
        row_major_div row_major_mod)
qed

lemma Index2D_coord:
  assumes "Index2D_wf ix" "k < Index2D_getNumElements ix"
  shows "Index2D_dom ix (Index2D_getPair ix k)"
    and "case_prod (Index2D_at ix) (Index2D_getPair ix k) = k"
proof -
  let ?w = "unat (i2_w ix)" and ?h = "unat (i2_h ix)"
  have k: "unat k < ?w * ?h"
    using assms by (simp add: word_less_nat_alt Index2D_num_nat)
  then have w: "0 < ?w" by (cases "?w") auto
  have "unat k div ?w < ?h" using k by (simp add: less_mult_imp_div_less mult.commute)
  moreover have "unat k mod ?w < ?w" using w by simp
  ultimately show dom: "Index2D_dom ix (Index2D_getPair ix k)"
    by (simp add: Index2D_dom_def Index2D_getPair_def word_less_nat_alt unat_div unat_mod)
  have "Index2D_dom ix (k mod i2_w ix, k div i2_w ix)"
    using dom by (simp add: Index2D_getPair_def)
  from Index2D_at_nat(1) [OF assms(1) this]
  show "case_prod (Index2D_at ix) (Index2D_getPair ix k) = k"
    by (simp add: Index2D_getPair_def word_unat_eq_iff unat_div unat_mod)
qed

interpretation i2d: invertible_indexer Index2D_wf Index2D_getNumElements Index2D_dom
  "\<lambda>ix. case_prod (Index2D_at ix)" Index2D_getPair
proof unfold_locales
  show "case_prod (Index2D_at x) c < Index2D_getNumElements x"
    if "Index2D_wf x" "Index2D_dom x c" for x c
    using that Index2D_at_nat [of x "fst c" "snd c"]
    by (simp add: word_less_nat_alt Index2D_num_nat split_beta)
  show "Index2D_getPair x (case_prod (Index2D_at x) c) = c"
    if "Index2D_wf x" "Index2D_dom x c" for x c
    using that Index2D_getPair_at [of x "fst c" "snd c"] by (simp add: split_beta)
qed (use Index2D_coord in auto)

subsection \<open>Index3D\<close>

record Index3D =
  i3_w :: u32
  i3_h :: u32
  i3_d :: u32

definition Index3D_at :: "Index3D \<Rightarrow> u32 \<Rightarrow> u32 \<Rightarrow> u32 \<Rightarrow> u32" where
  "Index3D_at ix i j k = (k * i3_h ix + j) * i3_w ix + i"

definition Index3D_getNumElements :: "Index3D \<Rightarrow> u32" where
  "Index3D_getNumElements ix = i3_w ix * i3_h ix * i3_d ix"

definition Index3D_getTriple :: "Index3D \<Rightarrow> u32 \<Rightarrow> u32 \<times> u32 \<times> u32" where
  "Index3D_getTriple ix idx =
    (let z = idx div (i3_h ix * i3_w ix);
         y = (idx mod (i3_h ix * i3_w ix)) div i3_w ix;
         x = idx - z * i3_h ix * i3_w ix - y * i3_w ix
     in (x, y, z))"

definition Index3D_wf :: "Index3D \<Rightarrow> bool" where
  "Index3D_wf ix \<longleftrightarrow> 0 < i3_d ix \<and> unat (i3_w ix) * unat (i3_h ix) * unat (i3_d ix) < 4294967296"

definition Index3D_dom :: "Index3D \<Rightarrow> u32 \<times> u32 \<times> u32 \<Rightarrow> bool" where
  "Index3D_dom ix c \<longleftrightarrow>
    fst c < i3_w ix \<and> fst (snd c) < i3_h ix \<and> snd (snd c) < i3_d ix"

text \<open>The plane size \<open>m_h * m_w\<close> does not wrap, and a position is two nested row-major positions.\<close>

lemma Index3D_plane_nat:
  assumes "Index3D_wf ix"
  shows "unat (i3_h ix * i3_w ix) = unat (i3_h ix) * unat (i3_w ix)"
proof -
  have "unat (i3_h ix) * unat (i3_w ix) \<le> unat (i3_w ix) * unat (i3_h ix) * unat (i3_d ix)"
    using assms by (simp add: Index3D_wf_def word_less_nat_alt)
  also have "\<dots> < 4294967296" using assms by (simp add: Index3D_wf_def)
  finally show ?thesis by (intro unat_mult_small) simp
qed

lemma Index3D_num_nat:
  assumes "Index3D_wf ix"
  shows "unat (Index3D_getNumElements ix) = unat (i3_w ix) * unat (i3_h ix) * unat (i3_d ix)"
  using assms Index3D_plane_nat [OF assms]
  by (simp add: Index3D_getNumElements_def Index3D_wf_def unat_mult_small mult.commute)

lemma Index3D_at_nat:
  assumes "Index3D_wf ix" "Index3D_dom ix (i, j, k)"
  shows "unat (Index3D_at ix i j k)
      = (unat k * unat (i3_h ix) + unat j) * unat (i3_w ix) + unat i" (is ?eq)
    and "(unat k * unat (i3_h ix) + unat j) * unat (i3_w ix) + unat i
      < unat (i3_w ix) * unat (i3_h ix) * unat (i3_d ix)" (is ?lt)
proof -
  let ?w = "unat (i3_w ix)" and ?h = "unat (i3_h ix)" and ?d = "unat (i3_d ix)"
  have lt: "unat i < ?w" "unat j < ?h" "unat k < ?d"
    using assms(2) by (auto simp: Index3D_dom_def word_less_nat_alt)
  have row: "unat k * ?h + unat j < ?h * ?d" by (rule row_major_less [OF lt(2,3)])
  then show lt': ?lt using row_major_less [OF lt(1) row] by (simp add: mult.assoc)
  have fits: "?w * ?h * ?d < 4294967296" using assms(1) by (simp add: Index3D_wf_def)
  have "unat k * ?h + unat j \<le> (unat k * ?h + unat j) * ?w + unat i"
    using lt(1) by (cases ?w) auto
  then have "unat (k * i3_h ix + j) = unat k * ?h + unat j"
    using lt' fits by (intro unat_mult_add_small) simp
  then show ?eq
    using lt' fits unat_mult_add_small [of "k * i3_h ix + j" "i3_w ix" i]
    by (simp add: Index3D_at_def)
qed

lemma plane_split:
  fixes i j k w h :: nat
  assumes "i < w" "j < h"
  shows "((k * h + j) * w + i) div (h * w) = k"
    and "((k * h + j) * w + i) mod (h * w) = j * w + i"
proof -
  have lt: "j * w + i < h * w" using row_major_less [OF assms] by (simp add: mult.commute)
  have eq: "(k * h + j) * w + i = k * (h * w) + (j * w + i)" by (simp add: algebra_simps)
  show "((k * h + j) * w + i) div (h * w) = k" unfolding eq using row_major_div [OF lt] .
  show "((k * h + j) * w + i) mod (h * w) = j * w + i" unfolding eq using row_major_mod [OF lt] .
qed

lemma Index3D_getTriple_at:
  assumes "Index3D_wf ix" "Index3D_dom ix (i, j, k)"
  shows "Index3D_getTriple ix (Index3D_at ix i j k) = (i, j, k)"
proof -
  let ?w = "unat (i3_w ix)" and ?h = "unat (i3_h ix)" and ?p = "Index3D_at ix i j k"
  have lt: "unat i < ?w" "unat j < ?h"
    using assms(2) by (auto simp: Index3D_dom_def word_less_nat_alt)
  note at = Index3D_at_nat(1) [OF assms] and pl = Index3D_plane_nat [OF assms(1)]
  have z: "?p div (i3_h ix * i3_w ix) = k"
    using plane_split(1) [OF lt] by (simp add: word_unat_eq_iff unat_div at pl)
  have y: "?p mod (i3_h ix * i3_w ix) div i3_w ix = j"
    using plane_split(2) [OF lt] lt(1) by (simp add: word_unat_eq_iff unat_div unat_mod at pl)
  have "?p - k * i3_h ix * i3_w ix - j * i3_w ix = i"
    by (simp add: Index3D_at_def algebra_simps)
  with y z show ?thesis by (simp add: Index3D_getTriple_def Let_def)
qed

lemma Index3D_coord:
  assumes "Index3D_wf ix" "p < Index3D_getNumElements ix"
  shows "Index3D_dom ix (Index3D_getTriple ix p)
    \<and> (case Index3D_getTriple ix p of (i, j, k) \<Rightarrow> Index3D_at ix i j k) = p"
proof -
  let ?w = "unat (i3_w ix)" and ?h = "unat (i3_h ix)" and ?d = "unat (i3_d ix)"
  define z where "z = p div (i3_h ix * i3_w ix)"
  define y where "y = p mod (i3_h ix * i3_w ix) div i3_w ix"
  define x where "x = p mod (i3_h ix * i3_w ix) mod i3_w ix"
  note pl = Index3D_plane_nat [OF assms(1)]
  have p: "unat p < ?d * (?h * ?w)"
    using assms by (simp add: word_less_nat_alt Index3D_num_nat mult_ac)
  then have pos: "0 < ?w" "0 < ?h" by (auto intro: Nat.gr0I)
  have "unat z < ?d"
    using p by (simp add: z_def unat_div pl less_mult_imp_div_less)
  moreover have "unat y < ?h"
    using pos by (simp add: y_def unat_div unat_mod pl less_mult_imp_div_less)
  moreover have "unat x < ?w" using pos by (simp add: x_def unat_mod)
  ultimately have dom: "Index3D_dom ix (x, y, z)"
    by (simp add: Index3D_dom_def word_less_nat_alt)
  have "(unat z * ?h + unat y) * ?w + unat x = unat p div (?h * ?w) * (?h * ?w) + unat p mod (?h * ?w)"
    by (simp add: x_def y_def z_def unat_div unat_mod pl algebra_simps)
  also have "\<dots> = unat p" by (rule div_mult_mod_eq)
  finally have "unat (Index3D_at ix x y z) = unat p"
    by (simp add: Index3D_at_nat(1) [OF assms(1) dom])
  then have at: "Index3D_at ix x y z = p" by (simp add: word_unat_eq_iff)
  with Index3D_getTriple_at [OF assms(1) dom] dom show ?thesis by simp
qed

interpretation i3d: invertible_indexer Index3D_wf Index3D_getNumElements Index3D_dom
  "\<lambda>ix (i, j, k). Index3D_at ix i j k" Index3D_getTriple
proof unfold_locales
  fix x :: Index3D and c :: "u32 \<times> u32 \<times> u32"
  assume wf: "Index3D_wf x" and d: "Index3D_dom x c"
  obtain i j k where c: "c = (i, j, k)" by (cases c)
  show "(case c of (i, j, k) \<Rightarrow> Index3D_at x i j k) < Index3D_getNumElements x"
    using Index3D_at_nat [OF wf d [unfolded c]] by (simp add: c word_less_nat_alt Index3D_num_nat [OF wf])
  show "Index3D_getTriple x (case c of (i, j, k) \<Rightarrow> Index3D_at x i j k) = c"
    using Index3D_getTriple_at [OF wf d [unfolded c]] by (simp add: c)
qed (use Index3D_coord in auto)

subsection \<open>Index2DUpperTriangular\<close>

record Index2DUpperTriangular =
  ut_w :: u32
  ut_term :: u32

definition make_Index2DUpperTriangular :: "u32 \<Rightarrow> Index2DUpperTriangular" where
  "make_Index2DUpperTriangular w = \<lparr>ut_w = w, ut_term = 2 * w - 1\<rparr>"

definition Index2DUpperTriangular_at :: "Index2DUpperTriangular \<Rightarrow> u32 \<Rightarrow> u32 \<Rightarrow> u32" where
  "Index2DUpperTriangular_at ix i j =
    (let (i, j) = (if j > i then (j, i) else (i, j))
     in j * (ut_term ix - j) div 2 + i)"

definition Index2DUpperTriangular_getNumElements :: "Index2DUpperTriangular \<Rightarrow> u32" where
  "Index2DUpperTriangular_getNumElements ix = ut_w ix * (ut_w ix + 1) div 2"

definition Index2DUpperTriangular_wf :: "Index2DUpperTriangular \<Rightarrow> bool" where
  "Index2DUpperTriangular_wf ix \<longleftrightarrow>
    ix = make_Index2DUpperTriangular (ut_w ix) \<and> unat (ut_w ix) * (unat (ut_w ix) + 1) < 4294967296"

definition Index2DUpperTriangular_dom :: "Index2DUpperTriangular \<Rightarrow> u32 \<times> u32 \<Rightarrow> bool" where
  "Index2DUpperTriangular_dom ix c \<longleftrightarrow> snd c \<le> fst c \<and> fst c < ut_w ix"

text \<open>The offset of row \<open>j\<close>, over natural numbers: consecutive rows follow each other without a gap.\<close>

definition tri_off :: "nat \<Rightarrow> nat \<Rightarrow> nat" where
  "tri_off w j = j * (2 * w - 1 - j) div 2"

lemma tri_even:
  fixes j w :: nat
  assumes "j < w"
  shows "even (j * (2 * w - 1 - j))"
proof -
  obtain e where "w = Suc (j + e)" using assms less_iff_Suc_add by auto
  then have "2 * w - 1 - j = Suc (j + 2 * e)" by simp
  then show ?thesis by simp
qed

lemma tri_off_Suc:
  assumes "Suc j < w"
  shows "tri_off w (Suc j) + Suc j = tri_off w j + w"
proof -
  obtain e where w: "w = Suc (Suc (j + e))"
    using assms by (metis add_Suc less_iff_Suc_add)
  have "even (j * (2 * w - 1 - j))" using assms by (intro tri_even) simp
  then obtain q where q: "j * (2 * w - 1 - j) = 2 * q" by blast
  have "Suc j * (2 * w - 1 - Suc j) = 2 * (q + w - 1 - j)"
    using q by (simp add: w algebra_simps)
  then show ?thesis using q by (simp add: tri_off_def w)
qed

lemma tri_off_mono:
  assumes "j < j'" "j' < w"
  shows "tri_off w j + w \<le> tri_off w j' + j'"
  using assms
proof (induction j')
  case (Suc n)
  then show ?case
    using tri_off_Suc [of n w] by (cases "j = n") auto
qed simp

lemma tri_off_last: "0 < w \<Longrightarrow> tri_off w (w - 1) + w = w * (w + 1) div 2"
proof -
  assume "0 < w"
  then obtain n where w: "w = Suc n" by (cases w) auto
  have "even (n * Suc n)" by simp
  then obtain q where "n * Suc n = 2 * q" by blast
  then show ?thesis by (simp add: tri_off_def w)
qed

lemma tri_pos_less:
  assumes "j \<le> i" "i < w"
  shows "tri_off w j + i < w * (w + 1) div 2"
proof -
  have "tri_off w j + w \<le> tri_off w (w - 1) + w"
  proof (cases "j = w - 1")
    case False
    then have "j < w - 1" "w - 1 < w" using assms by auto
    from tri_off_mono [OF this] show ?thesis by linarith
  qed simp
  then show ?thesis using assms tri_off_last [of w] by simp
qed

lemma tri_pos_inj:
  assumes "tri_off w j + i = tri_off w j' + i'" "j \<le> i" "i < w" "j' \<le> i'" "i' < w"
  shows "i = i' \<and> j = j'"
proof (cases j j' rule: linorder_cases)
  case less
  then show ?thesis using tri_off_mono [of j j' w] assms by linarith
next
  case equal
  then show ?thesis using assms(1) by simp
next
  case greater
  then show ?thesis using tri_off_mono [of j' j w] assms by linarith
qed

lemma Index2DUpperTriangular_at_nat:
  assumes "Index2DUpperTriangular_wf ix" "Index2DUpperTriangular_dom ix (i, j)"
  shows "unat (Index2DUpperTriangular_at ix i j) = tri_off (unat (ut_w ix)) (unat j) + unat i"
proof -
  define w where "w = ut_w ix"
  have fits: "unat w * (unat w + 1) < 4294967296"
    using assms(1) by (simp add: Index2DUpperTriangular_wf_def w_def)
  have ji: "unat j \<le> unat i" "unat i < unat w"
    using assms(2) by (auto simp: Index2DUpperTriangular_dom_def w_def word_less_nat_alt word_le_nat_alt)
  have "2 * unat w \<le> unat w * (unat w + 1)" using ji by (cases "unat w") auto
  from this fits have "2 * unat w < 4294967296" by (rule le_less_trans)
  then have w2: "unat (2 * w) = 2 * unat w"
    using unat_mult_small [of "2 :: u32" w] by simp
  have "unat (2 * w - 1) = 2 * unat w - 1"
    using w2 ji by (subst unat_sub_small) auto
  then have tm: "unat (2 * w - 1 - j) = 2 * unat w - 1 - unat j"
    using ji by (subst unat_sub_small) auto
  have off: "tri_off (unat w) (unat j) + unat i < unat w * (unat w + 1) div 2"
    using ji by (rule tri_pos_less)
  have "unat j * (2 * unat w - 1 - unat j) = 2 * tri_off (unat w) (unat j)"
    using tri_even [of "unat j" "unat w"] ji by (simp add: tri_off_def)
  then have "unat (j * (2 * w - 1 - j)) = unat j * (2 * unat w - 1 - unat j)"
    using off fits tm by (subst unat_mult_small) auto
  then have "unat (j * (2 * w - 1 - j) div 2) = tri_off (unat w) (unat j)"
    by (simp add: unat_div tri_off_def)
  then have "unat (j * (2 * w - 1 - j) div 2 + i) = tri_off (unat w) (unat j) + unat i"
    using off fits by (subst unat_add_small) auto
  moreover have "Index2DUpperTriangular_at ix i j = j * (2 * w - 1 - j) div 2 + i"
  proof -
    have "ut_term ix = 2 * w - 1"
      using assms(1) unfolding Index2DUpperTriangular_wf_def w_def make_Index2DUpperTriangular_def
      by (metis Index2DUpperTriangular.select_convs(2))
    moreover have "\<not> j > i" using assms(2) by (auto simp: Index2DUpperTriangular_dom_def)
    ultimately show ?thesis by (simp add: Index2DUpperTriangular_at_def)
  qed
  ultimately show ?thesis by (simp add: w_def)
qed

lemma Index2DUpperTriangular_num_nat:
  assumes "Index2DUpperTriangular_wf ix"
  shows "unat (Index2DUpperTriangular_getNumElements ix) = unat (ut_w ix) * (unat (ut_w ix) + 1) div 2"
proof -
  have fits: "unat (ut_w ix) * (unat (ut_w ix) + 1) < 4294967296"
    using assms by (simp add: Index2DUpperTriangular_wf_def)
  have "unat (ut_w ix + 1) = unat (ut_w ix) + 1"
  proof (cases "unat (ut_w ix) = 0")
    case False
    then have "unat (ut_w ix) + 1 \<le> unat (ut_w ix) * (unat (ut_w ix) + 1)" by (cases "unat (ut_w ix)") auto
    from this fits have "unat (ut_w ix) + 1 < 4294967296" by (rule le_less_trans)
    then show ?thesis by (subst unat_add_small) auto
  qed (simp add: unat_add_small)
  then show ?thesis
    using fits by (simp add: Index2DUpperTriangular_getNumElements_def unat_div unat_mult_small)
qed

interpretation iut: array_indexer Index2DUpperTriangular_wf Index2DUpperTriangular_getNumElements
  Index2DUpperTriangular_dom "\<lambda>ix. case_prod (Index2DUpperTriangular_at ix)"
proof unfold_locales
  fix x :: Index2DUpperTriangular and c d :: "u32 \<times> u32"
  assume wf: "Index2DUpperTriangular_wf x" and c: "Index2DUpperTriangular_dom x c"
  obtain i j where cc: "c = (i, j)" by (cases c)
  note at = Index2DUpperTriangular_at_nat [OF wf c [unfolded cc]]
  have ji: "unat j \<le> unat i" "unat i < unat (ut_w x)"
    using c by (auto simp: cc Index2DUpperTriangular_dom_def word_less_nat_alt word_le_nat_alt)
  show "case_prod (Index2DUpperTriangular_at x) c < Index2DUpperTriangular_getNumElements x"
    using tri_pos_less [OF ji] at by (simp add: cc word_less_nat_alt Index2DUpperTriangular_num_nat [OF wf])
  assume d: "Index2DUpperTriangular_dom x d"
    and eq: "case_prod (Index2DUpperTriangular_at x) c = case_prod (Index2DUpperTriangular_at x) d"
  obtain i' j' where dd: "d = (i', j')" by (cases d)
  have ji': "unat j' \<le> unat i'" "unat i' < unat (ut_w x)"
    using d by (auto simp: dd Index2DUpperTriangular_dom_def word_less_nat_alt word_le_nat_alt)
  have "tri_off (unat (ut_w x)) (unat j) + unat i = tri_off (unat (ut_w x)) (unat j') + unat i'"
    using at Index2DUpperTriangular_at_nat [OF wf d [unfolded dd]] eq by (simp add: cc dd)
  from tri_pos_inj [OF this ji ji'] show "c = d" by (simp add: cc dd word_unat_eq_iff)
qed

lemma Index2DUpperTriangular_symmetric:
  "Index2DUpperTriangular_at ix i j = Index2DUpperTriangular_at ix j i"
  by (auto simp: Index2DUpperTriangular_at_def)


subsection \<open>Properties\<close>

text \<open>
  C33: \<open>Index3D\<close> addresses a box of \<open>w * h * d\<close> cells without gap or overlap in 32-bit arithmetic:
  on a box whose cell count fits 32 bits the flat index is a bijection from the cells to the
  positions below \<open>getNumElements\<close>, and \<open>getTriple\<close> inverts it.
\<close>

theorem Index3D_bijective:
  assumes "Index3D_wf ix"
  shows "bij_betw (\<lambda>(i, j, k). Index3D_at ix i j k) {c. Index3D_dom ix c}
      {p. p < Index3D_getNumElements ix}
    \<and> (\<forall>i j k. Index3D_dom ix (i, j, k) \<longrightarrow> Index3D_getTriple ix (Index3D_at ix i j k) = (i, j, k))"
  using i3d.bij_positions [OF assms] Index3D_getTriple_at [OF assms] by blast

theorem Index3D_bijective_witness:
  "Index3D_wf \<lparr>i3_w = 4, i3_h = 3, i3_d = 5\<rparr>
   \<and> Index3D_getTriple \<lparr>i3_w = 4, i3_h = 3, i3_d = 5\<rparr>
       (Index3D_at \<lparr>i3_w = 4, i3_h = 3, i3_d = 5\<rparr> 1 2 3) = (1, 2, 3)"
proof -
  have wf: "Index3D_wf \<lparr>i3_w = 4, i3_h = 3, i3_d = 5\<rparr>" by (simp add: Index3D_wf_def)
  have "Index3D_dom \<lparr>i3_w = 4, i3_h = 3, i3_d = 5\<rparr> (1, 2, 3)" by (simp add: Index3D_dom_def)
  with Index3D_bijective [OF wf] wf show ?thesis by blast
qed

text \<open>
  C36: \<open>Index2DUpperTriangular\<close> stores a symmetric table once: the index does not depend on the order
  of the two types, and a value written for one pair is read back for that pair in either order and
  for no other pair.
\<close>

theorem Index2DUpperTriangular_table:
  assumes wf: "Index2DUpperTriangular_wf ix"
    and c: "Index2DUpperTriangular_dom ix (i, j)" and d: "Index2DUpperTriangular_dom ix (k, l)"
    and len: "length xs = unat (Index2DUpperTriangular_getNumElements ix)"
  shows "xs[unat (Index2DUpperTriangular_at ix i j) := v] ! unat (Index2DUpperTriangular_at ix l k)
    = (if (i, j) = (k, l) then v else xs ! unat (Index2DUpperTriangular_at ix k l))"
  using iut.read_after_write [OF wf c d len, of v] Index2DUpperTriangular_symmetric [of ix l k] by simp

theorem Index2DUpperTriangular_table_witness:
  "Index2DUpperTriangular_wf (make_Index2DUpperTriangular 3)
   \<and> (replicate 6 (0::nat)) [unat (Index2DUpperTriangular_at (make_Index2DUpperTriangular 3) 2 1) := 7]
       ! unat (Index2DUpperTriangular_at (make_Index2DUpperTriangular 3) 1 2) = 7"
proof -
  let ?ix = "make_Index2DUpperTriangular 3"
  have h: "Index2DUpperTriangular_wf ?ix" "Index2DUpperTriangular_dom ?ix (2, 1)"
    "length (replicate 6 (0::nat)) = unat (Index2DUpperTriangular_getNumElements ?ix)"
    by (simp_all add: Index2DUpperTriangular_wf_def make_Index2DUpperTriangular_def
        Index2DUpperTriangular_dom_def Index2DUpperTriangular_getNumElements_def)
  show ?thesis using Index2DUpperTriangular_table [OF h(1,2,2,3), of 7] h(1) by simp
qed

end
