(* ===== verification/GPU_Array.thy ===== *)
theory GPU_Array
  imports Hoomd_Prelude
begin

section \<open>Mirrored host/device arrays\<close>

text \<open>
  \<open>GPUArray\<close> of \<^verbatim>\<open>hoomd/GPUArray.h\<close>: one logical array with a host copy
  and, when a GPU is in use, a device copy. \<open>acquire\<close> is the state machine over
  \<open>m_data_location\<close> that decides which copies have to be made. The model keeps both memories,
  so that a missing or a superfluous copy is visible. Memory obtained from the allocators is
  \<open>ga_fresh_h\<close> and \<open>ga_fresh_d\<close>, about which nothing is assumed. Asynchronous copies are
  taken as complete when the handle is used (they are issued on the same stream as the work that
  uses them).
  The contract of the class is the locale \<open>coherent_array\<close>: through any sequence of host and
  device handles, the array behaves as a single list.
\<close>

subsection \<open>State\<close>

datatype access_location = loc_host | loc_device

datatype data_location = data_host | data_device | data_hostdevice

datatype access_mode = mode_read | mode_readwrite | mode_overwrite

datatype ptr = NullPtr | HostPtr | DevicePtr

record 'a GPUArray =
  ga_num_elements :: nat
  ga_pitch :: nat
  ga_height :: nat
  ga_acquired :: bool
  ga_data_location :: data_location
  ga_mapped :: bool
  ga_exec_conf :: "bool option" \<comment> \<open>\<open>None\<close>: no execution configuration; \<open>Some\<close> of \<open>isCUDAEnabled()\<close>\<close>
  ga_h_data :: "'a list option" \<comment> \<open>\<open>None\<close>: the null pointer\<close>
  ga_d_data :: "'a list"
  ga_fresh_h :: "nat \<Rightarrow> 'a"
  ga_fresh_d :: "nat \<Rightarrow> 'a"

definition ga_cuda :: "'a GPUArray \<Rightarrow> bool" where
  "ga_cuda a \<longleftrightarrow> ga_exec_conf a = Some True"

definition isNull :: "'a GPUArray \<Rightarrow> bool" where
  "isNull a \<longleftrightarrow> ga_h_data a = None"

subsection \<open>Allocation\<close>

definition ga_allocate :: "'a GPUArray \<Rightarrow> 'a GPUArray" where
  "ga_allocate a =
    (if ga_num_elements a = 0 then a
     else a\<lparr>ga_h_data := Some (map (ga_fresh_h a) [0..<ga_num_elements a]),
            ga_d_data := (if ga_cuda a \<and> \<not> ga_mapped a
                          then map (ga_fresh_d a) [0..<ga_num_elements a] else ga_d_data a)\<rparr>)"

definition ga_memclear :: "'a \<Rightarrow> 'a GPUArray \<Rightarrow> 'a GPUArray" where
  "ga_memclear z a =
    (case ga_h_data a of None \<Rightarrow> a
     | Some h \<Rightarrow> a\<lparr>ga_h_data := Some (replicate (ga_num_elements a) z),
          ga_d_data := (if ga_cuda a \<and> \<not> ga_mapped a
                        then replicate (ga_num_elements a) z else ga_d_data a)\<rparr>)"

definition GPUArray_null ::
    "bool option \<Rightarrow> (nat \<Rightarrow> 'a) \<Rightarrow> (nat \<Rightarrow> 'a) \<Rightarrow> 'a GPUArray" where
  "GPUArray_null conf fh fd =
    \<lparr>ga_num_elements = 0, ga_pitch = 0, ga_height = 0, ga_acquired = False,
     ga_data_location = data_host, ga_mapped = False, ga_exec_conf = conf, ga_h_data = None,
     ga_d_data = [], ga_fresh_h = fh, ga_fresh_d = fd\<rparr>"

definition GPUArray_1d ::
    "'a \<Rightarrow> nat \<Rightarrow> bool option \<Rightarrow> bool \<Rightarrow> (nat \<Rightarrow> 'a) \<Rightarrow> (nat \<Rightarrow> 'a) \<Rightarrow> 'a GPUArray" where
  "GPUArray_1d z n conf mapped fh fd =
    ga_memclear z (ga_allocate
      ((GPUArray_null conf fh fd)\<lparr>ga_num_elements := n, ga_pitch := n, ga_height := 1, ga_mapped := mapped\<rparr>))"

definition pitch_of_width :: "nat \<Rightarrow> nat" where
  "pitch_of_width width = width + (16 - width mod 16)"

definition GPUArray_2d ::
    "'a \<Rightarrow> nat \<Rightarrow> nat \<Rightarrow> bool option \<Rightarrow> bool \<Rightarrow> (nat \<Rightarrow> 'a) \<Rightarrow> (nat \<Rightarrow> 'a) \<Rightarrow> 'a GPUArray" where
  "GPUArray_2d z width height conf mapped fh fd =
    ga_memclear z (ga_allocate
      ((GPUArray_null conf fh fd)\<lparr>ga_pitch := pitch_of_width width, ga_height := height,
         ga_num_elements := pitch_of_width width * height, ga_mapped := mapped\<rparr>))"

subsection \<open>Copies between host and device\<close>

definition memcpyDeviceToHost :: "'a GPUArray \<Rightarrow> 'a GPUArray" where
  "memcpyDeviceToHost a =
    (if isNull a then a else if ga_mapped a then a else a\<lparr>ga_h_data := Some (ga_d_data a)\<rparr>)"

definition memcpyHostToDevice :: "'a GPUArray \<Rightarrow> 'a GPUArray" where
  "memcpyHostToDevice a =
    (case ga_h_data a of None \<Rightarrow> a
     | Some h \<Rightarrow> if ga_mapped a then a else a\<lparr>ga_d_data := h\<rparr>)"

subsection \<open>Acquire and release\<close>

text \<open>
  \<open>acquire\<close> returns the new state with the outcome: an exception leaves the state as it was
  when it was thrown.
\<close>

definition acquire_host :: "access_mode \<Rightarrow> 'a GPUArray \<Rightarrow> 'a GPUArray" where
  "acquire_host mode a =
    (case ga_data_location a of
       data_host \<Rightarrow> a
     | data_hostdevice \<Rightarrow>
         (case mode of mode_read \<Rightarrow> a\<lparr>ga_data_location := data_hostdevice\<rparr>
          | mode_readwrite \<Rightarrow> a\<lparr>ga_data_location := data_host\<rparr>
          | mode_overwrite \<Rightarrow> a\<lparr>ga_data_location := data_host\<rparr>)
     | data_device \<Rightarrow>
         (case mode of mode_read \<Rightarrow> (memcpyDeviceToHost a)\<lparr>ga_data_location := data_hostdevice\<rparr>
          | mode_readwrite \<Rightarrow> (memcpyDeviceToHost a)\<lparr>ga_data_location := data_host\<rparr>
          | mode_overwrite \<Rightarrow> a\<lparr>ga_data_location := data_host\<rparr>))"

definition acquire_device :: "access_mode \<Rightarrow> 'a GPUArray \<Rightarrow> 'a GPUArray" where
  "acquire_device mode a =
    (case ga_data_location a of
       data_host \<Rightarrow>
         (case mode of mode_read \<Rightarrow> (memcpyHostToDevice a)\<lparr>ga_data_location := data_hostdevice\<rparr>
          | mode_readwrite \<Rightarrow> (memcpyHostToDevice a)\<lparr>ga_data_location := data_device\<rparr>
          | mode_overwrite \<Rightarrow> a\<lparr>ga_data_location := data_device\<rparr>)
     | data_hostdevice \<Rightarrow>
         (case mode of mode_read \<Rightarrow> a\<lparr>ga_data_location := data_hostdevice\<rparr>
          | mode_readwrite \<Rightarrow> a\<lparr>ga_data_location := data_device\<rparr>
          | mode_overwrite \<Rightarrow> a\<lparr>ga_data_location := data_device\<rparr>)
     | data_device \<Rightarrow> a)"

definition acquire :: "access_location \<Rightarrow> access_mode \<Rightarrow> 'a GPUArray \<Rightarrow> 'a GPUArray \<times> ptr result" where
  "acquire location mode a =
    (if ga_acquired a then (a, Inl (RuntimeError ''Cannot acquire access to array in use.''))
     else
       let a = a\<lparr>ga_acquired := True\<rparr> in
       if isNull a then (a, Inr NullPtr)
       else
         (case location of
            loc_host \<Rightarrow> (acquire_host mode a, Inr HostPtr)
          | loc_device \<Rightarrow>
              (case ga_exec_conf a of
                 None \<Rightarrow> (a, Inl (RuntimeError
                   ''Requesting device acquire, but we have no execution configuration''))
               | Some False \<Rightarrow> (a, Inl (RuntimeError ''Error acquiring data''))
               | Some True \<Rightarrow> (acquire_device mode a, Inr DevicePtr))))"

definition release :: "'a GPUArray \<Rightarrow> 'a GPUArray" where
  "release a = a\<lparr>ga_acquired := False\<rparr>"

text \<open>What a client sees and writes through the pointer of a handle; mapped memory is one memory.\<close>

definition load :: "ptr \<Rightarrow> 'a GPUArray \<Rightarrow> 'a list" where
  "load p a = (case p of NullPtr \<Rightarrow> []
     | HostPtr \<Rightarrow> (case ga_h_data a of None \<Rightarrow> [] | Some h \<Rightarrow> h)
     | DevicePtr \<Rightarrow> if ga_mapped a then (case ga_h_data a of None \<Rightarrow> [] | Some h \<Rightarrow> h) else ga_d_data a)"

definition store :: "ptr \<Rightarrow> 'a list \<Rightarrow> 'a GPUArray \<Rightarrow> 'a GPUArray" where
  "store p xs a = (case p of NullPtr \<Rightarrow> a
     | HostPtr \<Rightarrow> a\<lparr>ga_h_data := Some xs\<rparr>
     | DevicePtr \<Rightarrow> if ga_mapped a then a\<lparr>ga_h_data := Some xs\<rparr> else a\<lparr>ga_d_data := xs\<rparr>)"

subsection \<open>Resizing\<close>

definition resized :: "'a \<Rightarrow> nat \<Rightarrow> 'a list \<Rightarrow> 'a list" where
  "resized z n xs = take n xs @ replicate (n - length xs) z"

definition ga_resize :: "'a \<Rightarrow> nat \<Rightarrow> 'a GPUArray \<Rightarrow> 'a GPUArray" where
  "ga_resize z n a =
    (case ga_h_data a of
       None \<Rightarrow> ga_allocate (a\<lparr>ga_num_elements := n\<rparr>)
     | Some h \<Rightarrow> a\<lparr>ga_h_data := Some (resized z n h),
          ga_d_data := (if ga_cuda a \<and> \<not> ga_mapped a then resized z n (ga_d_data a) else ga_d_data a),
          ga_num_elements := n, ga_pitch := n\<rparr>)"

text \<open>The element at row \<open>r\<close> and column \<open>c\<close> of the resized array is that of the old one, where it had one.\<close>

definition resized_2d :: "'a \<Rightarrow> nat \<Rightarrow> nat \<Rightarrow> nat \<Rightarrow> nat \<Rightarrow> 'a list \<Rightarrow> 'a list" where
  "resized_2d z pitch new_pitch height new_height xs =
    map (\<lambda>k. let r = k div new_pitch; c = k mod new_pitch in
             if r < min height new_height \<and> c < min pitch new_pitch then xs ! (r * pitch + c) else z)
        [0..<new_pitch * new_height]"

definition ga_resize_2d :: "'a \<Rightarrow> nat \<Rightarrow> nat \<Rightarrow> 'a GPUArray \<Rightarrow> 'a GPUArray" where
  "ga_resize_2d z width height a =
    (let new_pitch = pitch_of_width width; n = new_pitch * height in
     case ga_h_data a of
       None \<Rightarrow> (ga_allocate (a\<lparr>ga_num_elements := n\<rparr>))\<lparr>ga_pitch := new_pitch, ga_height := height\<rparr>
     | Some h \<Rightarrow>
         a\<lparr>ga_h_data := Some (resized_2d z (ga_pitch a) new_pitch (ga_height a) height h),
           ga_d_data := (if ga_cuda a \<and> \<not> ga_mapped a
              then resized_2d z (ga_pitch a) new_pitch (ga_height a) height (ga_d_data a) else ga_d_data a),
           ga_num_elements := n, ga_height := height, ga_pitch := new_pitch\<rparr>)"

subsection \<open>Handles: a scoped access\<close>

text \<open>
  An \<open>ArrayHandle\<close> acquires in its constructor and releases in its destructor; in between,
  the client sees the data and, unless it asked for read access, leaves \<open>f\<close> of it.
\<close>

definition handle_session ::
    "access_location \<Rightarrow> access_mode \<Rightarrow> ('a list \<Rightarrow> 'a list) \<Rightarrow> 'a GPUArray \<Rightarrow> 'a GPUArray \<times> 'a list result" where
  "handle_session l mode f a =
    (case acquire l mode a of
       (a', Inl e) \<Rightarrow> (a', Inl e)
     | (a', Inr p) \<Rightarrow>
         (release (if mode = mode_read then a' else store p (f (load p a')) a'), Inr (load p a')))"

datatype 'a access =
    Read access_location
  | Update access_location "'a list \<Rightarrow> 'a list"
  | Overwrite access_location "'a list"

text \<open>A run of accesses over any implementation of the session; it collects what the reads return.\<close>

fun run_accesses ::
    "(access_location \<Rightarrow> access_mode \<Rightarrow> ('a list \<Rightarrow> 'a list) \<Rightarrow> 's \<Rightarrow> 's \<times> 'a list result) \<Rightarrow>
     'a access list \<Rightarrow> 's \<Rightarrow> 's \<times> 'a list result list" where
  "run_accesses ses [] s = (s, [])"
| "run_accesses ses (Read l # as) s =
    (let (s', r) = ses l mode_read id s; (s'', rs) = run_accesses ses as s' in (s'', r # rs))"
| "run_accesses ses (Update l f # as) s = run_accesses ses as (fst (ses l mode_readwrite f s))"
| "run_accesses ses (Overwrite l xs # as) s =
    run_accesses ses as (fst (ses l mode_overwrite (\<lambda>_. xs) s))"

text \<open>The specification: a list that the accesses read and update in order.\<close>

fun run_spec :: "'a access list \<Rightarrow> 'a list \<Rightarrow> 'a list \<times> 'a list result list" where
  "run_spec [] xs = (xs, [])"
| "run_spec (Read l # as) xs = (let (ys, rs) = run_spec as xs in (ys, Inr xs # rs))"
| "run_spec (Update l f # as) xs = run_spec as (f xs)"
| "run_spec (Overwrite l ys # as) xs = run_spec as ys"

fun access_ok :: "(access_location \<Rightarrow> bool) \<Rightarrow> nat \<Rightarrow> 'a access \<Rightarrow> bool" where
  "access_ok ok n (Read l) = ok l"
| "access_ok ok n (Update l f) = (ok l \<and> (\<forall>xs. length xs = n \<longrightarrow> length (f xs) = n))"
| "access_ok ok n (Overwrite l ys) = (ok l \<and> length ys = n)"

locale coherent_array =
  fixes inv :: "'s \<Rightarrow> bool"
    and contents :: "'s \<Rightarrow> 'a list"
    and usable :: "'s \<Rightarrow> access_location \<Rightarrow> bool"
    and session :: "access_location \<Rightarrow> access_mode \<Rightarrow> ('a list \<Rightarrow> 'a list) \<Rightarrow> 's \<Rightarrow> 's \<times> 'a list result"
  assumes session_inv:
      "inv s \<Longrightarrow> usable s l \<Longrightarrow> length (f (contents s)) = length (contents s) \<Longrightarrow>
       m \<noteq> mode_overwrite \<Longrightarrow> inv (fst (session l m f s))"
    and session_usable: "inv s \<Longrightarrow> usable (fst (session l m f s)) = usable s"
    and session_read: "inv s \<Longrightarrow> usable s l \<Longrightarrow>
       snd (session l mode_read f s) = Inr (contents s)
       \<and> contents (fst (session l mode_read f s)) = contents s"
    and session_readwrite: "inv s \<Longrightarrow> usable s l \<Longrightarrow>
       length (f (contents s)) = length (contents s) \<Longrightarrow>
       snd (session l mode_readwrite f s) = Inr (contents s)
       \<and> contents (fst (session l mode_readwrite f s)) = f (contents s)"
    and session_overwrite: "inv s \<Longrightarrow> usable s l \<Longrightarrow> length ys = length (contents s) \<Longrightarrow>
       inv (fst (session l mode_overwrite (\<lambda>_. ys) s))
       \<and> contents (fst (session l mode_overwrite (\<lambda>_. ys) s)) = ys"
begin

lemma run_refines:
  assumes "inv s" "\<forall>a\<in>set as. access_ok (usable s) (length (contents s)) a"
  shows "snd (run_accesses session as s) = snd (run_spec as (contents s))
    \<and> contents (fst (run_accesses session as s)) = fst (run_spec as (contents s))
    \<and> inv (fst (run_accesses session as s))"
  using assms
proof (induction as arbitrary: s)
  case (Cons a as)
  define s' where "s' = (case a of Read l \<Rightarrow> fst (session l mode_read id s)
      | Update l f \<Rightarrow> fst (session l mode_readwrite f s)
      | Overwrite l ys \<Rightarrow> fst (session l mode_overwrite (\<lambda>_. ys) s))"
  have inv': "inv s'" and us': "usable s' = usable s"
    and len: "length (contents s') = length (contents s)"
    using Cons.prems session_inv session_usable session_read session_readwrite session_overwrite
    by (cases a; force simp: s'_def)+
  have IH: "snd (run_accesses session as s') = snd (run_spec as (contents s'))
    \<and> contents (fst (run_accesses session as s')) = fst (run_spec as (contents s'))
    \<and> inv (fst (run_accesses session as s'))"
    using Cons.prems(2) inv' us' len by (intro Cons.IH) auto
  show ?case
  proof (cases a)
    case (Read l)
    then show ?thesis
      using IH session_read [of s l id] Cons.prems by (auto simp: s'_def split_beta)
  next
    case (Update l f)
    then show ?thesis
      using IH session_readwrite [of s l f] Cons.prems by (auto simp: s'_def)
  next
    case (Overwrite l ys)
    then show ?thesis
      using IH session_overwrite [of s l ys] Cons.prems by (auto simp: s'_def)
  qed
qed simp

end

subsection \<open>The array meets the contract\<close>

definition ga_inv :: "'a GPUArray \<Rightarrow> bool" where
  "ga_inv a \<longleftrightarrow>
    \<not> ga_acquired a \<and>
    (case ga_h_data a of None \<Rightarrow> ga_num_elements a = 0
     | Some h \<Rightarrow> length h = ga_num_elements a
         \<and> (ga_cuda a \<and> \<not> ga_mapped a \<longrightarrow> length (ga_d_data a) = ga_num_elements a)
         \<and> (ga_data_location a \<noteq> data_host \<longrightarrow> ga_cuda a)
         \<and> (ga_data_location a = data_hostdevice \<and> \<not> ga_mapped a \<longrightarrow> ga_d_data a = h))"

definition ga_contents :: "'a GPUArray \<Rightarrow> 'a list" where
  "ga_contents a =
    (case ga_h_data a of None \<Rightarrow> []
     | Some h \<Rightarrow> if ga_data_location a = data_device \<and> \<not> ga_mapped a then ga_d_data a else h)"

definition ga_usable :: "'a GPUArray \<Rightarrow> access_location \<Rightarrow> bool" where
  "ga_usable a l \<longleftrightarrow> \<not> isNull a \<and> (l = loc_device \<longrightarrow> ga_cuda a)"

lemmas ga_acquire_defs =
  acquire_def acquire_host_def acquire_device_def memcpyDeviceToHost_def memcpyHostToDevice_def
  load_def store_def release_def isNull_def

lemmas ga_splits =
  option.splits access_location.splits data_location.splits access_mode.splits bool.splits if_splits

lemma ga_contents_length: "ga_inv a \<Longrightarrow> length (ga_contents a) = ga_num_elements a"
  by (auto simp: ga_inv_def ga_contents_def split: option.splits)

text \<open>
  The acquire step: the pointer shows the logical contents (unless they are about to be
  overwritten), and for a mode that writes, the acquired copy is the only valid one afterwards.
\<close>

lemma acquire_ok:
  assumes "ga_inv a" "ga_usable a l"
  shows "\<exists>a' p. acquire l m a = (a', Inr p) \<and> ga_acquired a' \<and> ga_inv (release a')
    \<and> p = (case l of loc_host \<Rightarrow> HostPtr | loc_device \<Rightarrow> DevicePtr)
    \<and> (m \<noteq> mode_overwrite \<longrightarrow> load p a' = ga_contents a \<and> ga_contents a' = ga_contents a)
    \<and> (m \<noteq> mode_read \<longrightarrow> ga_data_location a' = (case l of loc_host \<Rightarrow> data_host | loc_device \<Rightarrow> data_device))
    \<and> ga_num_elements a' = ga_num_elements a \<and> ga_exec_conf a' = ga_exec_conf a
    \<and> ga_mapped a' = ga_mapped a \<and> \<not> isNull a'"
proof -
  obtain h where h: "ga_h_data a = Some h" using assms(2) by (auto simp: ga_usable_def isNull_def)
  have conf: "l = loc_device \<Longrightarrow> ga_exec_conf a = Some True"
    using assms(2) by (simp add: ga_usable_def ga_cuda_def)
  show ?thesis
    using assms h conf
    by (cases l; cases m; cases "ga_data_location a"; cases "ga_mapped a";
        simp add: ga_acquire_defs ga_inv_def ga_contents_def ga_usable_def ga_cuda_def Let_def)
qed

lemma handle_session_ok:
  assumes "ga_inv a" "ga_usable a l"
  shows "snd (handle_session l mode_read f a) = Inr (ga_contents a)"
    and "ga_contents (fst (handle_session l mode_read f a)) = ga_contents a"
    and "ga_inv (fst (handle_session l mode_read f a))"
    and "snd (handle_session l mode_readwrite f a) = Inr (ga_contents a)"
    and "length (f (ga_contents a)) = ga_num_elements a \<Longrightarrow>
         ga_contents (fst (handle_session l mode_readwrite f a)) = f (ga_contents a)
         \<and> ga_inv (fst (handle_session l mode_readwrite f a))"
    and "length ys = ga_num_elements a \<Longrightarrow>
         ga_contents (fst (handle_session l mode_overwrite (\<lambda>_. ys) a)) = ys
         \<and> ga_inv (fst (handle_session l mode_overwrite (\<lambda>_. ys) a))"
proof -
  obtain a' p where r: "acquire l mode_read a = (a', Inr p)" "ga_inv (release a')"
      "load p a' = ga_contents a" "ga_contents a' = ga_contents a"
    using acquire_ok [OF assms, of mode_read] by auto
  have rel: "ga_contents (release b) = ga_contents b" for b :: "'a GPUArray"
    by (auto simp: release_def ga_contents_def split: option.split)
  show "snd (handle_session l mode_read f a) = Inr (ga_contents a)"
    "ga_contents (fst (handle_session l mode_read f a)) = ga_contents a"
    "ga_inv (fst (handle_session l mode_read f a))"
    using r by (simp_all add: handle_session_def rel)
  let ?p = "case l of loc_host \<Rightarrow> HostPtr | loc_device \<Rightarrow> DevicePtr"
  let ?d = "case l of loc_host \<Rightarrow> data_host | loc_device \<Rightarrow> data_device"
  have st: "ga_contents (release (store ?p ys b)) = ys \<and> ga_inv (release (store ?p ys b))"
    if "ga_inv (release b)" "ga_data_location b = ?d" "\<not> isNull b" "length ys = ga_num_elements b"
    for b and ys :: "'a list"
    using that
    by (cases l; cases "ga_mapped b")
       (auto simp: ga_inv_def ga_contents_def store_def release_def isNull_def ga_cuda_def)
  obtain b where w: "acquire l mode_readwrite a = (b, Inr ?p)" "ga_inv (release b)"
      "load ?p b = ga_contents a" "ga_data_location b = ?d"
      "ga_num_elements b = ga_num_elements a" "\<not> isNull b"
    using acquire_ok [OF assms, of mode_readwrite] by auto
  show "snd (handle_session l mode_readwrite f a) = Inr (ga_contents a)"
    using w by (simp add: handle_session_def)
  show "ga_contents (fst (handle_session l mode_readwrite f a)) = f (ga_contents a)
      \<and> ga_inv (fst (handle_session l mode_readwrite f a))"
    if "length (f (ga_contents a)) = ga_num_elements a"
    using w that st [of b "f (ga_contents a)"] by (simp add: handle_session_def)
  obtain c where o: "acquire l mode_overwrite a = (c, Inr ?p)" "ga_inv (release c)"
      "ga_data_location c = ?d" "ga_num_elements c = ga_num_elements a" "\<not> isNull c"
    using acquire_ok [OF assms, of mode_overwrite] by auto
  show "ga_contents (fst (handle_session l mode_overwrite (\<lambda>_. ys) a)) = ys
      \<and> ga_inv (fst (handle_session l mode_overwrite (\<lambda>_. ys) a))"
    if "length ys = ga_num_elements a"
    using o that st [of c ys] by (simp add: handle_session_def)
qed

lemma handle_session_usable: "ga_usable (fst (handle_session l m f a)) = ga_usable a"
  by (rule ext)
     (auto simp: handle_session_def ga_acquire_defs ga_usable_def ga_cuda_def Let_def split: ga_splits)

interpretation ga: coherent_array ga_inv ga_contents ga_usable handle_session
proof unfold_locales
  fix s :: "'a GPUArray" and l m and f :: "'a list \<Rightarrow> 'a list" and ys :: "'a list"
  assume inv: "ga_inv s"
  show "ga_usable (fst (handle_session l m f s)) = ga_usable s" by (rule handle_session_usable)
  assume us: "ga_usable s l"
  note ok = handle_session_ok [OF inv us] and len = ga_contents_length [OF inv]
  show "ga_inv (fst (handle_session l m f s))"
    if "length (f (ga_contents s)) = length (ga_contents s)" "m \<noteq> mode_overwrite"
    using that ok(3,5) len by (cases m) auto
  show "snd (handle_session l mode_read f s) = Inr (ga_contents s)
      \<and> ga_contents (fst (handle_session l mode_read f s)) = ga_contents s"
    using ok(1,2) by simp
  show "snd (handle_session l mode_readwrite f s) = Inr (ga_contents s)
      \<and> ga_contents (fst (handle_session l mode_readwrite f s)) = f (ga_contents s)"
    if "length (f (ga_contents s)) = length (ga_contents s)"
    using that ok(4,5) len by simp
  show "ga_inv (fst (handle_session l mode_overwrite (\<lambda>_. ys) s))
      \<and> ga_contents (fst (handle_session l mode_overwrite (\<lambda>_. ys) s)) = ys"
    if "length ys = length (ga_contents s)"
    using that ok(6) len by simp
qed

subsection \<open>Construction and resizing\<close>

lemma GPUArray_1d_inv:
  assumes "0 < n"
  shows "ga_inv (GPUArray_1d z n conf mapped fh fd)
    \<and> ga_contents (GPUArray_1d z n conf mapped fh fd) = replicate n z"
  using assms
  by (simp add: GPUArray_1d_def ga_memclear_def ga_allocate_def GPUArray_null_def ga_inv_def
      ga_contents_def ga_cuda_def)

lemma resized_length [simp]: "length (resized z n xs) = n"
  by (simp add: resized_def)

lemma resized_nth: "i < n \<Longrightarrow> resized z n xs ! i = (if i < length xs then xs ! i else z)"
  by (simp add: resized_def nth_append)

lemma ga_resize_contents:
  assumes "ga_inv a" "\<not> isNull a"
  shows "ga_contents (ga_resize z n a) = resized z n (ga_contents a) \<and> ga_inv (ga_resize z n a)
    \<and> ga_usable (ga_resize z n a) = ga_usable a"
  using assms
  by (auto simp: ga_inv_def ga_contents_def ga_resize_def isNull_def ga_usable_def ga_cuda_def fun_eq_iff)

lemma resized_2d_nth:
  assumes "r < new_height" "c < new_pitch"
  shows "resized_2d z pitch new_pitch height new_height xs ! (r * new_pitch + c)
    = (if r < height \<and> c < pitch then xs ! (r * pitch + c) else z)"
proof -
  have "r * new_pitch + c < new_pitch * new_height" by (rule row_major_less [OF assms(2,1)])
  then show ?thesis using assms by (simp add: resized_2d_def Let_def)
qed

lemma ga_resize_2d_contents:
  assumes "ga_inv a" "\<not> isNull a"
  shows "ga_contents (ga_resize_2d z w h a)
      = resized_2d z (ga_pitch a) (pitch_of_width w) (ga_height a) h (ga_contents a)
    \<and> ga_inv (ga_resize_2d z w h a)"
  using assms
  by (auto simp: ga_inv_def ga_contents_def ga_resize_2d_def isNull_def ga_cuda_def Let_def
      resized_2d_def mult.commute)

subsection \<open>Properties\<close>

text \<open>C1: Coherence of the host and device copies. Through any sequence of read, read-write and
  overwrite handles on the host and on the device, every read returns what the preceding writes
  left, and the final contents are those of a single list updated in order; no handle ever sees a
  stale copy.\<close>

theorem GPUArray_coherent:
  assumes "ga_inv a" "\<forall>x\<in>set as. access_ok (ga_usable a) (length (ga_contents a)) x"
  shows "snd (run_accesses handle_session as a) = snd (run_spec as (ga_contents a))
    \<and> ga_contents (fst (run_accesses handle_session as a)) = fst (run_spec as (ga_contents a))
    \<and> ga_inv (fst (run_accesses handle_session as a))"
  by (rule ga.run_refines [OF assms])

theorem GPUArray_coherent_witness:
  "snd (run_accesses handle_session
      [Overwrite loc_host [1, 2, 3::nat], Update loc_device (map Suc), Read loc_host,
       Update loc_host rev, Read loc_device]
      (GPUArray_1d 0 3 (Some True) False (\<lambda>_. 7) (\<lambda>_. 9)))
    = [Inr [2, 3, 4], Inr [4, 3, 2]]"
proof -
  let ?a = "GPUArray_1d (0::nat) 3 (Some True) False (\<lambda>_. 7) (\<lambda>_. 9)"
  have inv: "ga_inv ?a" and c: "ga_contents ?a = [0, 0, 0]"
    using GPUArray_1d_inv [of 3 "0::nat" "Some True" False "\<lambda>_. 7" "\<lambda>_. 9"]
    by (simp_all add: numeral_3_eq_3)
  have us: "ga_usable ?a l" for l
    by (simp add: ga_usable_def isNull_def ga_cuda_def GPUArray_1d_def ga_memclear_def
        ga_allocate_def GPUArray_null_def)
  show ?thesis
    by (subst GPUArray_coherent [OF inv, THEN conjunct1]) (simp_all add: c us)
qed

text \<open>C34: Resizing an allocated array keeps the elements that fit, at their positions, whichever
  copy is the current one, and fills the rest with zeros.\<close>

theorem GPUArray_resize_keeps:
  assumes "ga_inv a" "\<not> isNull a" "i < n"
  shows "ga_contents (ga_resize z n a) ! i = (if i < ga_num_elements a then ga_contents a ! i else z)
    \<and> ga_inv (ga_resize z n a) \<and> length (ga_contents (ga_resize z n a)) = n"
  using ga_resize_contents [OF assms(1,2), of z n] assms(3) ga_contents_length [OF assms(1)]
  by (simp_all add: resized_nth)

theorem GPUArray_resize_keeps_witness:
  "ga_contents (ga_resize 0 4 ((GPUArray_1d (0::nat) 2 (Some True) False id id)
      \<lparr>ga_data_location := data_device, ga_d_data := [5, 6]\<rparr>)) ! 1 = 6"
  by (subst GPUArray_resize_keeps [THEN conjunct1])
     (simp_all add: ga_inv_def isNull_def ga_cuda_def GPUArray_1d_def ga_memclear_def ga_allocate_def
        GPUArray_null_def ga_contents_def)

text \<open>C38: A failed device access poisons the array: without a GPU the request throws, but the array
  stays marked as acquired, so that every later access, also on the host, throws.\<close>

theorem failed_device_acquire_locks:
  assumes "\<not> ga_acquired a" "\<not> isNull a" "\<not> ga_cuda a"
  shows "(\<exists>e. snd (acquire loc_device m a) = Inl e)
    \<and> snd (acquire l m' (fst (acquire loc_device m a)))
      = Inl (RuntimeError ''Cannot acquire access to array in use.'')"
  using assms by (auto simp: acquire_def Let_def isNull_def ga_cuda_def split: option.split bool.split)

theorem failed_device_acquire_locks_witness:
  "snd (acquire loc_host mode_read
      (fst (acquire loc_device mode_read (GPUArray_1d (0::nat) 2 (Some False) False id id))))
    = Inl (RuntimeError ''Cannot acquire access to array in use.'')"
  by (rule failed_device_acquire_locks [THEN conjunct2])
     (simp_all add: isNull_def ga_cuda_def GPUArray_1d_def ga_memclear_def ga_allocate_def GPUArray_null_def)

text \<open>The padding of two-dimensional arrays: the pitch is a multiple of 16 and always strictly wider
  than the row, so that a width that is a multiple of 16 already is padded by 16 more elements.\<close>

lemma pitch_of_width_bounds:
  "16 dvd pitch_of_width w" "w < pitch_of_width w" "pitch_of_width w \<le> w + 16"
proof -
  show "16 dvd pitch_of_width w" unfolding pitch_of_width_def by presburger
  show "w < pitch_of_width w" "pitch_of_width w \<le> w + 16" by (simp_all add: pitch_of_width_def)
qed

end
