(* ===== verification/GPU_Vector.thy ===== *)
theory GPU_Vector
  imports GPU_Array
begin

section \<open>Growable vectors over mirrored arrays\<close>

text \<open>
  \<open>GPUVectorBase\<close> of \<^verbatim>\<open>hoomd/GPUVector.h\<close>, in two layers.
  \<open>GPUVector\<close> is the class itself: a mirrored array with a size, whose operations open host
  handles on the array. \<open>vec\<close> is the memory that the host side sees: the allocated cells, of
  which the first \<open>vec_len\<close> are in use; the cells behind them keep their last contents, and
  memory from the allocator is arbitrary. The lemmas \<open>abs_...\<close> show that the class refines
  \<open>vec\<close>; \<open>vec\<close> in turn implements the list operations of the locale \<open>list_vector\<close>, which
  the particle and group stores rely on.
\<close>

subsection \<open>Memory cells with a length\<close>

record 'a vec =
  vec_mem :: "'a list"
  vec_len :: nat
  vec_fresh :: "nat \<Rightarrow> 'a"

definition vec_list :: "'a vec \<Rightarrow> 'a list" where
  "vec_list v = take (vec_len v) (vec_mem v)"

definition vec_inv :: "'a vec \<Rightarrow> bool" where
  "vec_inv v \<longleftrightarrow> vec_len v \<le> length (vec_mem v)"

definition vec_empty :: "(nat \<Rightarrow> 'a) \<Rightarrow> 'a vec" where
  "vec_empty fresh = \<lparr>vec_mem = [], vec_len = 0, vec_fresh = fresh\<rparr>"

text \<open>The growth loop of \<open>reallocate\<close>: the allocation grows by a factor 9/8, plus one.\<close>

function grow_alloc :: "nat \<Rightarrow> nat \<Rightarrow> nat" where
  "grow_alloc sz a = (if sz > a then grow_alloc sz (a * 9 div 8 + 1) else a)"
  by pat_completeness auto
termination
  by (relation "measure (\<lambda>(sz, a). sz - a)") auto

declare grow_alloc.simps [simp del]

lemma grow_alloc_ge: "sz \<le> grow_alloc sz a" "a \<le> grow_alloc sz a"
proof (induction sz a rule: grow_alloc.induct)
  case (1 sz a)
  have "a \<le> a * 9 div 8 + 1" by simp
  then show "sz \<le> grow_alloc sz a" "a \<le> grow_alloc sz a"
    using 1 le_trans by (auto simp: grow_alloc.simps [of sz a])
qed

definition vec_reallocate :: "'a \<Rightarrow> nat \<Rightarrow> 'a vec \<Rightarrow> 'a vec" where
  "vec_reallocate z sz v =
    (let n = length (vec_mem v) in
     if sz > n then
       let m = grow_alloc sz (if n = 0 then 1 else n) in
       v\<lparr>vec_mem := (if n = 0 then map (vec_fresh v) [0..<m] else resized z m (vec_mem v))\<rparr>
     else v)"

definition vec_resize :: "'a \<Rightarrow> nat \<Rightarrow> 'a vec \<Rightarrow> 'a vec" where
  "vec_resize z new_size v =
    (vec_reallocate z (if new_size > 0 then new_size else 1) v)\<lparr>vec_len := new_size\<rparr>"

definition vec_set :: "nat \<Rightarrow> 'a \<Rightarrow> 'a vec \<Rightarrow> 'a vec" where
  "vec_set i x v = v\<lparr>vec_mem := (vec_mem v)[i := x]\<rparr>"

definition vec_get :: "nat \<Rightarrow> 'a vec \<Rightarrow> 'a" where
  "vec_get i v = vec_mem v ! i"

definition vec_push_back :: "'a \<Rightarrow> 'a \<Rightarrow> 'a vec \<Rightarrow> 'a vec" where
  "vec_push_back z x v =
    (let v' = vec_reallocate z (vec_len v + 1) v in
     v'\<lparr>vec_mem := (vec_mem v')[vec_len v := x], vec_len := vec_len v + 1\<rparr>)"

definition vec_pop_back :: "'a vec \<Rightarrow> 'a vec" where
  "vec_pop_back v = v\<lparr>vec_len := vec_len v - 1\<rparr>"

text \<open>
  \<open>erase\<close> moves every later element down by one; the last cell keeps its value. The loop of the
  source is \<open>erase_loop\<close>: \<open>n\<close> reads, \<open>res\<close> writes.
\<close>

fun erase_loop :: "nat \<Rightarrow> nat \<Rightarrow> nat \<Rightarrow> nat \<Rightarrow> 'a list \<Rightarrow> 'a list" where
  "erase_loop i 0 n res d = d"
| "erase_loop i (Suc k) n res d =
    (if n \<noteq> i then erase_loop i k (Suc n) (Suc res) (d[res := d ! n])
     else erase_loop i k (Suc n) res d)"

definition vec_erase :: "nat \<Rightarrow> 'a vec \<Rightarrow> 'a vec" where
  "vec_erase i v =
    v\<lparr>vec_mem := erase_loop i (vec_len v) 0 0 (vec_mem v), vec_len := vec_len v - 1\<rparr>"

definition vec_clear :: "'a vec \<Rightarrow> 'a vec" where
  "vec_clear v = v\<lparr>vec_len := 0\<rparr>"

subsection \<open>The vector class\<close>

record 'a GPUVector =
  gv_arr :: "'a GPUArray"
  gv_size :: nat

definition gv_reallocate :: "'a \<Rightarrow> nat \<Rightarrow> 'a GPUVector \<Rightarrow> 'a GPUVector" where
  "gv_reallocate z sz v =
    (let n = ga_num_elements (gv_arr v) in
     if sz > n
     then v\<lparr>gv_arr := ga_resize z (grow_alloc sz (if n = 0 then 1 else n)) (gv_arr v)\<rparr>
     else v)"

definition gv_resize :: "'a \<Rightarrow> nat \<Rightarrow> 'a GPUVector \<Rightarrow> 'a GPUVector" where
  "gv_resize z new_size v =
    (gv_reallocate z (if new_size > 0 then new_size else 1) v)\<lparr>gv_size := new_size\<rparr>"

definition gv_host :: "('a list \<Rightarrow> 'a list) \<Rightarrow> 'a GPUVector \<Rightarrow> 'a GPUVector" where
  "gv_host f v = v\<lparr>gv_arr := fst (handle_session loc_host mode_readwrite f (gv_arr v))\<rparr>"

definition gv_push_back :: "'a \<Rightarrow> 'a \<Rightarrow> 'a GPUVector \<Rightarrow> 'a GPUVector" where
  "gv_push_back z x v =
    (gv_host (\<lambda>d. d[gv_size v := x]) (gv_reallocate z (gv_size v + 1) v))\<lparr>gv_size := gv_size v + 1\<rparr>"

definition gv_pop_back :: "'a GPUVector \<Rightarrow> 'a GPUVector" where
  "gv_pop_back v = v\<lparr>gv_size := gv_size v - 1\<rparr>"

definition gv_erase :: "nat \<Rightarrow> 'a GPUVector \<Rightarrow> 'a GPUVector" where
  "gv_erase i v = (gv_host (erase_loop i (gv_size v) 0 0) v)\<lparr>gv_size := gv_size v - 1\<rparr>"

definition gv_clear :: "'a GPUVector \<Rightarrow> 'a GPUVector" where
  "gv_clear v = v\<lparr>gv_size := 0\<rparr>"

definition gv_abs :: "'a GPUVector \<Rightarrow> 'a vec" where
  "gv_abs v = \<lparr>vec_mem = ga_contents (gv_arr v), vec_len = gv_size v, vec_fresh = ga_fresh_h (gv_arr v)\<rparr>"

definition gv_inv :: "'a GPUVector \<Rightarrow> bool" where
  "gv_inv v \<longleftrightarrow> ga_inv (gv_arr v) \<and> gv_size v \<le> ga_num_elements (gv_arr v)
    \<and> (isNull (gv_arr v) \<longleftrightarrow> ga_num_elements (gv_arr v) = 0)
    \<and> (isNull (gv_arr v) \<longrightarrow> ga_data_location (gv_arr v) = data_host)"

subsection \<open>The list a vector holds\<close>

lemma erase_loop_shift:
  assumes "i \<le> r" "Suc r + k \<le> length d"
  shows "erase_loop i k (Suc r) r d = take r d @ take k (drop (Suc r) d) @ drop (r + k) d"
  using assms
proof (induction k arbitrary: r d)
  case (Suc k)
  have "erase_loop i (Suc k) (Suc r) r d = erase_loop i k (Suc (Suc r)) (Suc r) (d[r := d ! Suc r])"
    using Suc.prems by simp
  also have "\<dots> = take (Suc r) (d[r := d ! Suc r]) @ take k (drop (Suc (Suc r)) d) @ drop (Suc r + k) d"
    using Suc.prems by (subst Suc.IH) simp_all
  also have "take (Suc r) (d[r := d ! Suc r]) = take r d @ [d ! Suc r]"
    using Suc.prems by (simp add: take_Suc_conv_app_nth)
  finally show ?case
    using Suc.prems by (simp add: take_Suc_conv_app_nth take_hd_drop [symmetric] Cons_nth_drop_Suc [symmetric])
qed simp

lemma erase_loop_eq:
  assumes "n \<le> i" "i < n + k" "n + k \<le> length d"
  shows "erase_loop i k n n d = take i d @ take (n + k - Suc i) (drop (Suc i) d) @ drop (n + k - 1) d"
  using assms
proof (induction k arbitrary: n)
  case (Suc k)
  show ?case
  proof (cases "n = i")
    case True
    then show ?thesis using Suc.prems erase_loop_shift [of i n k d] by simp
  next
    case False
    then have "erase_loop i (Suc k) n n d = erase_loop i k (Suc n) (Suc n) d" by simp
    then show ?thesis using Suc.prems False Suc.IH [of "Suc n"] by simp
  qed
qed simp

lemma erase_loop_length: "length (erase_loop i k n res d) = length d"
  by (induction i k n res d rule: erase_loop.induct) auto

lemma vec_list_length [simp]: "vec_inv v \<Longrightarrow> length (vec_list v) = vec_len v"
  by (simp add: vec_inv_def vec_list_def)

lemma vec_list_nth: "vec_inv v \<Longrightarrow> i < vec_len v \<Longrightarrow> vec_list v ! i = vec_get i v"
  by (simp add: vec_inv_def vec_list_def vec_get_def)

lemma vec_reallocate_mem:
  "length (vec_mem v) \<le> length (vec_mem (vec_reallocate z n v))"
  "n \<le> length (vec_mem (vec_reallocate z n v))"
  "i < length (vec_mem v) \<Longrightarrow> vec_mem (vec_reallocate z n v) ! i = vec_mem v ! i"
  "vec_len (vec_reallocate z n v) = vec_len v"
  "vec_fresh (vec_reallocate z n v) = vec_fresh v"
proof -
  let ?n = "length (vec_mem v)"
  let ?m = "grow_alloc n (if ?n = 0 then 1 else ?n)"
  have m: "n \<le> ?m" "?n \<le> ?m" using grow_alloc_ge [where sz = n and a = "if ?n = 0 then 1 else ?n"] by (auto split: if_splits)
  show "?n \<le> length (vec_mem (vec_reallocate z n v))" "n \<le> length (vec_mem (vec_reallocate z n v))"
    using m by (auto simp: vec_reallocate_def Let_def)
  show "i < ?n \<Longrightarrow> vec_mem (vec_reallocate z n v) ! i = vec_mem v ! i"
    using m by (auto simp: vec_reallocate_def Let_def resized_nth)
  show "vec_len (vec_reallocate z n v) = vec_len v" "vec_fresh (vec_reallocate z n v) = vec_fresh v"
    by (simp_all add: vec_reallocate_def Let_def)
qed

lemma vec_reallocate_list: "vec_inv v \<Longrightarrow> vec_list (vec_reallocate z n v) = vec_list v"
  using vec_reallocate_mem [where v = v and z = z and n = n]
  by (auto simp: vec_list_def vec_inv_def intro!: nth_equalityI)

lemma vec_resize_inv [simp]: "vec_inv (vec_resize z n v)"
  using vec_reallocate_mem(2) [where n = "if n > 0 then n else 1"]
  by (auto simp: vec_resize_def vec_inv_def)

lemma vec_resize_len [simp]: "vec_len (vec_resize z n v) = n"
  by (simp add: vec_resize_def)

lemma vec_resize_get: "i < length (vec_mem v) \<Longrightarrow> vec_get i (vec_resize z n v) = vec_get i v"
  by (simp add: vec_resize_def vec_get_def vec_reallocate_mem)

lemma vec_resize_list:
  assumes "vec_inv v" "i < n" "i < vec_len v"
  shows "vec_list (vec_resize z n v) ! i = vec_list v ! i"
proof -
  have "i < length (vec_mem v)" using assms by (simp add: vec_inv_def)
  then show ?thesis using assms by (simp add: vec_list_nth vec_resize_get)
qed

lemma vec_set_list [simp]: "vec_list (vec_set i x v) = (vec_list v)[i := x]"
  by (simp add: vec_set_def vec_list_def take_update_swap)

lemma vec_set_inv [simp]: "vec_inv (vec_set i x v) = vec_inv v"
  by (simp add: vec_set_def vec_inv_def)

lemma vec_set_len [simp]: "vec_len (vec_set i x v) = vec_len v"
  by (simp add: vec_set_def)

lemma vec_set_mem_length [simp]: "length (vec_mem (vec_set i x v)) = length (vec_mem v)"
  by (simp add: vec_set_def)

lemma vec_get_set: "vec_get t (vec_set u x v) = (if t = u \<and> u < length (vec_mem v) then x else vec_get t v)"
  by (cases "u < length (vec_mem v)") (auto simp: vec_get_def vec_set_def nth_list_update list_update_beyond)

lemma vec_push_back_list: "vec_inv v \<Longrightarrow> vec_list (vec_push_back z x v) = vec_list v @ [x]"
  using vec_reallocate_mem [where v = v and z = z and n = "vec_len v + 1"] vec_reallocate_list [of v z "vec_len v + 1"]
  by (simp add: vec_push_back_def vec_list_def Let_def take_Suc_conv_app_nth)

lemma vec_push_back_inv: "vec_inv v \<Longrightarrow> vec_inv (vec_push_back z x v)"
  using vec_reallocate_mem [where v = v and z = z and n = "vec_len v + 1"]
  by (simp add: vec_push_back_def vec_inv_def Let_def)

lemma vec_pop_back_list: "vec_inv v \<Longrightarrow> vec_list (vec_pop_back v) = butlast (vec_list v)"
  by (simp add: vec_pop_back_def vec_list_def vec_inv_def butlast_take)

lemma vec_pop_back_inv: "vec_inv v \<Longrightarrow> vec_inv (vec_pop_back v)"
  by (simp add: vec_pop_back_def vec_inv_def)

lemma vec_erase_list:
  assumes "vec_inv v" "i < vec_len v"
  shows "vec_list (vec_erase i v) = take i (vec_list v) @ drop (Suc i) (vec_list v)"
proof -
  let ?m = "vec_mem v" and ?n = "vec_len v"
  have len: "?n \<le> length ?m" using assms by (simp add: vec_inv_def)
  let ?A = "take i ?m @ take (?n - Suc i) (drop (Suc i) ?m)"
  have lenA: "length ?A = ?n - 1" using assms(2) len by auto
  have "take (?n - 1) (erase_loop i ?n 0 0 ?m) = take (length ?A) (?A @ drop (?n - 1) ?m)"
    using assms(2) len erase_loop_eq [of 0 i ?n ?m] by (simp only: lenA) simp
  also have "\<dots> = ?A" by (simp only: append_eq_conv_conj [THEN iffD1, OF refl, THEN conjunct1, symmetric])
  also have "\<dots> = take i (take ?n ?m) @ drop (Suc i) (take ?n ?m)"
    using assms by (simp add: drop_take min_def)
  finally show ?thesis by (simp add: vec_erase_def vec_list_def)
qed

lemma vec_erase_inv: "vec_inv v \<Longrightarrow> vec_inv (vec_erase i v)"
  by (simp add: vec_erase_def vec_inv_def erase_loop_length)

subsection \<open>The contract of a vector\<close>

locale list_vector =
  fixes inv :: "'v \<Rightarrow> bool"
    and lst :: "'v \<Rightarrow> 'a list"
    and push_back :: "'a \<Rightarrow> 'v \<Rightarrow> 'v"
    and pop_back :: "'v \<Rightarrow> 'v"
    and erase :: "nat \<Rightarrow> 'v \<Rightarrow> 'v"
    and set_at :: "nat \<Rightarrow> 'a \<Rightarrow> 'v \<Rightarrow> 'v"
  assumes push_back: "inv v \<Longrightarrow> inv (push_back x v) \<and> lst (push_back x v) = lst v @ [x]"
    and pop_back: "inv v \<Longrightarrow> inv (pop_back v) \<and> lst (pop_back v) = butlast (lst v)"
    and erase: "inv v \<Longrightarrow> i < length (lst v) \<Longrightarrow>
          inv (erase i v) \<and> lst (erase i v) = take i (lst v) @ drop (Suc i) (lst v)"
    and set_at: "inv v \<Longrightarrow> i < length (lst v) \<Longrightarrow> inv (set_at i x v) \<and> lst (set_at i x v) = (lst v)[i := x]"
begin

text \<open>Removal by moving the last element into the gap, the way the stores remove an element.\<close>

lemma swap_remove:
  assumes "inv v" "i < length (lst v)"
  shows "inv (pop_back (set_at i (last (lst v)) v))
    \<and> lst (pop_back (set_at i (last (lst v)) v)) = (butlast (lst v))[i := last (lst v)]"
  using assms set_at [of v i "last (lst v)"] pop_back [of "set_at i (last (lst v)) v"]
  by (auto simp: butlast_list_update list_update_beyond)

lemma push_then_pop:
  assumes "inv v"
  shows "lst (pop_back (push_back x v)) = lst v"
  using assms push_back [of v x] pop_back [of "push_back x v"] by simp

end

interpretation vecl: list_vector vec_inv vec_list "vec_push_back z" vec_pop_back vec_erase vec_set
  for z :: 'a
  by unfold_locales
     (simp_all add: vec_push_back_list vec_push_back_inv vec_pop_back_list vec_pop_back_inv
        vec_erase_list vec_erase_inv)

subsection \<open>The class refines the memory model\<close>

lemma ga_resize_fields:
  "ga_num_elements (ga_resize z n a) = n" "ga_fresh_h (ga_resize z n a) = ga_fresh_h a"
  "ga_acquired (ga_resize z n a) = ga_acquired a"
  by (auto simp: ga_resize_def ga_allocate_def split: option.splits)

lemma gv_reallocate_abs:
  assumes "gv_inv v"
  shows "gv_abs (gv_reallocate z n v) = vec_reallocate z n (gv_abs v)"
    and "gv_inv (gv_reallocate z n v)"
    and "n \<le> ga_num_elements (gv_arr (gv_reallocate z n v))"
proof -
  let ?a = "gv_arr v"
  let ?k = "ga_num_elements ?a"
  let ?m = "grow_alloc n (if ?k = 0 then 1 else ?k)"
  have inv: "ga_inv ?a" using assms by (simp add: gv_inv_def)
  have len: "length (ga_contents ?a) = ?k" by (rule ga_contents_length [OF inv])
  have m: "n \<le> ?m" "?k \<le> ?m" "0 < ?m"
    using grow_alloc_ge [where sz = n and a = "if ?k = 0 then 1 else ?k"] by (auto split: if_splits)
  have "gv_abs (gv_reallocate z n v) = vec_reallocate z n (gv_abs v) \<and> gv_inv (gv_reallocate z n v)"
  proof (cases "isNull ?a")
    case True
    then show ?thesis
      using assms m len
      by (auto simp: gv_reallocate_def vec_reallocate_def gv_abs_def gv_inv_def Let_def ga_resize_def
          ga_allocate_def isNull_def ga_contents_def ga_inv_def ga_cuda_def split: option.splits)
  next
    case False
    note rs = ga_resize_contents [OF inv False, of z ?m]
    have k0: "?k \<noteq> 0" using False assms by (simp add: gv_inv_def)
    have nn: "\<not> isNull (ga_resize z ?m ?a)"
      using False by (auto simp: isNull_def ga_resize_def split: option.splits)
    show ?thesis
      using assms m len rs False k0 nn
      by (auto simp: gv_reallocate_def vec_reallocate_def gv_abs_def gv_inv_def Let_def ga_resize_fields)
  qed
  then show "gv_abs (gv_reallocate z n v) = vec_reallocate z n (gv_abs v)"
    and "gv_inv (gv_reallocate z n v)" by auto
  show "n \<le> ga_num_elements (gv_arr (gv_reallocate z n v))"
    using m by (simp add: gv_reallocate_def Let_def ga_resize_fields)
qed

lemma gv_set_size:
  "gv_abs (v\<lparr>gv_size := k\<rparr>) = (gv_abs v)\<lparr>vec_len := k\<rparr>"
  "gv_inv v \<Longrightarrow> k \<le> ga_num_elements (gv_arr v) \<Longrightarrow> gv_inv (v\<lparr>gv_size := k\<rparr>)"
  by (simp_all add: gv_abs_def gv_inv_def)

lemma handle_session_frame:
  "ga_num_elements (fst (handle_session l m f a)) = ga_num_elements a"
  "ga_fresh_h (fst (handle_session l m f a)) = ga_fresh_h a"
  by (auto simp: handle_session_def ga_acquire_defs Let_def split: ga_splits)

lemma gv_host_abs:
  assumes "gv_inv v" "0 < ga_num_elements (gv_arr v)" "\<And>d. length (f d) = length d"
  shows "gv_abs (gv_host f v) = (gv_abs v)\<lparr>vec_mem := f (vec_mem (gv_abs v))\<rparr>"
    and "gv_inv (gv_host f v)"
    and "ga_num_elements (gv_arr (gv_host f v)) = ga_num_elements (gv_arr v)"
proof -
  have inv: "ga_inv (gv_arr v)" and us: "ga_usable (gv_arr v) loc_host"
    using assms(1,2) by (auto simp: gv_inv_def ga_usable_def)
  note ok = handle_session_ok(5) [OF inv us, of f]
  have len: "length (f (ga_contents (gv_arr v))) = ga_num_elements (gv_arr v)"
    using ga_contents_length [OF inv] assms(3) by simp
  show "gv_abs (gv_host f v) = (gv_abs v)\<lparr>vec_mem := f (vec_mem (gv_abs v))\<rparr>"
    using ok [OF len] by (simp add: gv_abs_def gv_host_def handle_session_frame)
  show "ga_num_elements (gv_arr (gv_host f v)) = ga_num_elements (gv_arr v)"
    by (simp add: gv_host_def handle_session_frame)
  have "isNull (gv_arr (gv_host f v)) = isNull (gv_arr v)"
    using handle_session_usable [of loc_host mode_readwrite f "gv_arr v", THEN fun_cong, of loc_host]
    by (simp add: gv_host_def ga_usable_def)
  then show "gv_inv (gv_host f v)"
    using assms(1,2) ok [OF len] by (simp add: gv_inv_def gv_host_def handle_session_frame)
qed

lemma gv_push_back_abs:
  assumes "gv_inv v"
  shows "gv_abs (gv_push_back z x v) = vec_push_back z x (gv_abs v) \<and> gv_inv (gv_push_back z x v)"
proof -
  let ?v = "gv_reallocate z (gv_size v + 1) v" and ?f = "\<lambda>d. d[gv_size v := x]"
  note ra = gv_reallocate_abs [OF assms, where z = z and n = "gv_size v + 1"]
  have len: "length (?f d) = length d" for d by simp
  have pos: "0 < ga_num_elements (gv_arr ?v)" using ra(3) by simp
  note host = gv_host_abs [OF ra(2) pos, of ?f, OF len]
  have "gv_abs (gv_push_back z x v) = (gv_abs (gv_host ?f ?v))\<lparr>vec_len := gv_size v + 1\<rparr>"
    by (simp add: gv_push_back_def gv_abs_def)
  also have "\<dots> = vec_push_back z x (gv_abs v)"
    unfolding host(1) ra(1) vec_push_back_def Let_def by (simp add: gv_abs_def)
  finally have abs: "gv_abs (gv_push_back z x v) = vec_push_back z x (gv_abs v)" .
  have "gv_inv (gv_push_back z x v)"
    using host(2,3) ra(3) by (simp add: gv_push_back_def gv_inv_def)
  with abs show ?thesis by simp
qed

lemma gv_erase_abs:
  assumes "gv_inv v" "i < gv_size v"
  shows "gv_abs (gv_erase i v) = vec_erase i (gv_abs v) \<and> gv_inv (gv_erase i v)"
proof -
  let ?f = "erase_loop i (gv_size v) 0 0 :: 'a list \<Rightarrow> 'a list"
  have pos: "0 < ga_num_elements (gv_arr v)" using assms by (simp add: gv_inv_def)
  note host = gv_host_abs [OF assms(1) pos, of ?f, OF erase_loop_length]
  have "gv_abs (gv_erase i v) = (gv_abs (gv_host ?f v))\<lparr>vec_len := gv_size v - 1\<rparr>"
    by (simp add: gv_erase_def gv_abs_def)
  also have "\<dots> = vec_erase i (gv_abs v)"
    unfolding host(1) vec_erase_def by (simp add: gv_abs_def)
  finally have abs: "gv_abs (gv_erase i v) = vec_erase i (gv_abs v)" .
  have "gv_inv (gv_erase i v)"
    unfolding gv_erase_def using host(2,3) assms by (intro gv_set_size(2)) (auto simp: gv_inv_def)
  with abs show ?thesis by simp
qed

lemma gv_resize_abs:
  assumes "gv_inv v"
  shows "gv_abs (gv_resize z n v) = vec_resize z n (gv_abs v) \<and> gv_inv (gv_resize z n v)"
  using gv_reallocate_abs [OF assms, where z = z and n = "if n > 0 then n else 1"]
  by (auto simp: gv_resize_def vec_resize_def gv_set_size intro!: gv_set_size(2) split: if_splits)

subsection \<open>Properties\<close>



end
