(* ===== verification/Box_Dim.thy ===== *)
theory Box_Dim
  imports Hoomd_Prelude
begin

section \<open>Periodic triclinic boxes\<close>

text \<open>
  \<open>BoxDim\<close> of \<^verbatim>\<open>hoomd/BoxDim.h\<close> (the host code path): the box with its lower and
  upper corner, edge lengths, inverse lengths, tilt factors and periodic flags, the conversion to
  and from fractional coordinates, the minimum image, the wrapping of a position with its image
  flags, and the shift by lattice vectors. All arithmetic is over the real numbers.
\<close>

record BoxDim =
  box_lo :: vec3
  box_hi :: vec3
  box_L :: vec3
  box_Linv :: vec3
  box_xy :: Scalar
  box_xz :: Scalar
  box_yz :: Scalar
  box_periodic :: "bool \<times> bool \<times> bool"

subsection \<open>Construction\<close>

definition BoxDim_empty :: BoxDim where
  "BoxDim_empty =
    \<lparr>box_lo = (0, 0, 0), box_hi = (0, 0, 0), box_L = (0, 0, 0), box_Linv = (0, 0, 0),
     box_xy = 0, box_xz = 0, box_yz = 0, box_periodic = (True, True, True)\<rparr>"

definition setL :: "vec3 \<Rightarrow> BoxDim \<Rightarrow> BoxDim" where
  "setL L b =
    b\<lparr>box_hi := (xc L / 2, yc L / 2, zc L / 2),
      box_lo := (- (xc L / 2), - (yc L / 2), - (zc L / 2)),
      box_Linv := (1 / xc L, 1 / yc L, if zc L = 0 then 0 else 1 / zc L),
      box_L := L\<rparr>"

definition setLoHi :: "vec3 \<Rightarrow> vec3 \<Rightarrow> BoxDim \<Rightarrow> BoxDim" where
  "setLoHi lo hi b =
    b\<lparr>box_hi := hi, box_lo := lo,
      box_Linv := (1 / (xc hi - xc lo), 1 / (yc hi - yc lo),
                   if zc hi = 0 \<and> zc lo = 0 then 0 else 1 / (zc hi - zc lo)),
      box_L := (xc hi - xc lo, yc hi - yc lo, zc hi - zc lo)\<rparr>"

definition setTiltFactors :: "Scalar \<Rightarrow> Scalar \<Rightarrow> Scalar \<Rightarrow> BoxDim \<Rightarrow> BoxDim" where
  "setTiltFactors xy xz yz b = b\<lparr>box_xy := xy, box_xz := xz, box_yz := yz\<rparr>"

definition BoxDim_of_L :: "vec3 \<Rightarrow> BoxDim" where
  "BoxDim_of_L L = (setL L BoxDim_empty)\<lparr>box_periodic := (True, True, True)\<rparr>"

definition BoxDim_tilted :: "Scalar \<Rightarrow> Scalar \<Rightarrow> Scalar \<Rightarrow> Scalar \<Rightarrow> BoxDim" where
  "BoxDim_tilted len xy xz yz = setTiltFactors xy xz yz (BoxDim_of_L (len, len, len))"

subsection \<open>Fractional coordinates\<close>

definition getNearestPlaneDistance :: "BoxDim \<Rightarrow> vec3" where
  "getNearestPlaneDistance b =
    (xc (box_L b) * (1 / sqrt (1 + box_xy b * box_xy b
        + (box_xy b * box_yz b - box_xz b) * (box_xy b * box_yz b - box_xz b))),
     yc (box_L b) * (1 / sqrt (1 + box_yz b * box_yz b)),
     if zc (box_L b) = 0 then 1 else zc (box_L b))"

definition makeFraction :: "BoxDim \<Rightarrow> vec3 \<Rightarrow> vec3 \<Rightarrow> vec3" where
  "makeFraction b v ghost_width =
    (let dx = xc v - xc (box_lo b) - ((box_xz b - box_yz b * box_xy b) * zc v + box_xy b * yc v);
         dy = yc v - yc (box_lo b) - box_yz b * zc v;
         dz = zc v - zc (box_lo b);
         d = getNearestPlaneDistance b;
         gx = xc ghost_width / xc d; gy = yc ghost_width / yc d; gz = zc ghost_width / zc d
     in ((dx * xc (box_Linv b) + gx) / (1 + 2 * gx),
         (dy * yc (box_Linv b) + gy) / (1 + 2 * gy),
         (dz * zc (box_Linv b) + gz) / (1 + 2 * gz)))"

definition makeCoordinates :: "BoxDim \<Rightarrow> vec3 \<Rightarrow> vec3" where
  "makeCoordinates b f =
    (let vx = xc (box_lo b) + xc f * xc (box_L b);
         vy = yc (box_lo b) + yc f * yc (box_L b);
         vz = zc (box_lo b) + zc f * zc (box_L b);
         vx = vx + (box_xy b * vy + box_xz b * vz);
         vy = vy + box_yz b * vz
     in (vx, vy, vz))"

subsection \<open>Minimum image, wrapping, images and shifts\<close>

text \<open>C's conversion to \<open>int\<close> truncates towards zero.\<close>

definition trunc :: "Scalar \<Rightarrow> int" where
  "trunc x = (if x \<ge> 0 then \<lfloor>x\<rfloor> else \<lceil>x\<rceil>)"

definition minImage :: "BoxDim \<Rightarrow> vec3 \<Rightarrow> vec3" where
  "minImage b v =
    (let (Lx, Ly, Lz) = box_L b; (wx, wy, wz) = v;
         (px, py, pz) = box_periodic b;
         (wx, wy, wz) =
           (if pz then
              if wz \<ge> zc (box_hi b) then (wx - Lz * box_xz b, wy - Lz * box_yz b, wz - Lz)
              else if wz < zc (box_lo b) then (wx + Lz * box_xz b, wy + Lz * box_yz b, wz + Lz)
              else (wx, wy, wz)
            else (wx, wy, wz));
         (wx, wy) =
           (if py then
              if wy \<ge> yc (box_hi b) then
                let i = trunc (wy * yc (box_Linv b) + 1 / 2)
                in (wx - of_int i * Ly * box_xy b, wy - of_int i * Ly)
              else if wy < yc (box_lo b) then
                let i = trunc (- wy * yc (box_Linv b) + 1 / 2)
                in (wx + of_int i * Ly * box_xy b, wy + of_int i * Ly)
              else (wx, wy)
            else (wx, wy));
         wx =
           (if px then
              if wx \<ge> xc (box_hi b) then
                let i = trunc (wx * xc (box_Linv b) + 1 / 2) in wx - of_int i * Lx
              else if wx < xc (box_lo b) then
                let i = trunc (- wx * xc (box_Linv b) + 1 / 2) in wx + of_int i * Lx
              else wx
            else wx)
     in (wx, wy, wz))"

text \<open>\<open>wrap\<close> works on the position and its image flags, first along x, then y, then z.\<close>

definition wrap_origin :: "BoxDim \<Rightarrow> vec3" where
  "wrap_origin b =
    ((xc (box_hi b) + xc (box_lo b)) / 2,
     if \<not> yc (box_periodic b) then 0 else (yc (box_hi b) + yc (box_lo b)) / 2,
     if \<not> zc (box_periodic b) then 0 else (zc (box_hi b) + zc (box_lo b)) / 2)"

definition wrap_x :: "BoxDim \<Rightarrow> int \<Rightarrow> vec3 \<times> int3 \<Rightarrow> vec3 \<times> int3" where
  "wrap_x b flag = (\<lambda>((wx, wy, wz), (ix, iy, iz)).
    if xc (box_periodic b) then
      let tilt_x = (box_xz b - box_xy b * box_yz b) * (wz - zc (wrap_origin b))
                   + box_xy b * (wy - yc (wrap_origin b))
      in if (wx \<ge> xc (box_hi b) + tilt_x \<and> flag = 0) \<or> flag = 1
           then ((wx - xc (box_L b), wy, wz), (ix + 1, iy, iz))
         else if (wx < xc (box_lo b) + tilt_x \<and> flag = 0) \<or> flag = -1
           then ((wx + xc (box_L b), wy, wz), (ix - 1, iy, iz))
         else ((wx, wy, wz), (ix, iy, iz))
    else ((wx, wy, wz), (ix, iy, iz)))"

definition wrap_y :: "BoxDim \<Rightarrow> int \<Rightarrow> vec3 \<times> int3 \<Rightarrow> vec3 \<times> int3" where
  "wrap_y b flag = (\<lambda>((wx, wy, wz), (ix, iy, iz)).
    if yc (box_periodic b) then
      let tilt_y = box_yz b * (wz - zc (wrap_origin b)); Ly = yc (box_L b)
      in if (wy \<ge> yc (box_hi b) + tilt_y \<and> flag = 0) \<or> flag = 1
           then ((wx - Ly * box_xy b, wy - Ly, wz), (ix, iy + 1, iz))
         else if (wy < yc (box_lo b) + tilt_y \<and> flag = 0) \<or> flag = -1
           then ((wx + Ly * box_xy b, wy + Ly, wz), (ix, iy - 1, iz))
         else ((wx, wy, wz), (ix, iy, iz))
    else ((wx, wy, wz), (ix, iy, iz)))"

definition wrap_z :: "BoxDim \<Rightarrow> int \<Rightarrow> vec3 \<times> int3 \<Rightarrow> vec3 \<times> int3" where
  "wrap_z b flag = (\<lambda>((wx, wy, wz), (ix, iy, iz)).
    if zc (box_periodic b) then
      let Lz = zc (box_L b)
      in if (wz \<ge> zc (box_hi b) \<and> flag = 0) \<or> flag = 1
           then ((wx - Lz * box_xz b, wy - Lz * box_yz b, wz - Lz), (ix, iy, iz + 1))
         else if (wz < zc (box_lo b) \<and> flag = 0) \<or> flag = -1
           then ((wx + Lz * box_xz b, wy + Lz * box_yz b, wz + Lz), (ix, iy, iz - 1))
         else ((wx, wy, wz), (ix, iy, iz))
    else ((wx, wy, wz), (ix, iy, iz)))"

definition wrap_flags :: "BoxDim \<Rightarrow> int3 \<Rightarrow> vec3 \<Rightarrow> int3 \<Rightarrow> vec3 \<times> int3" where
  "wrap_flags b flags w img =
    wrap_z b (zc flags) (wrap_y b (yc flags) (wrap_x b (xc flags) (w, img)))"

definition wrap :: "BoxDim \<Rightarrow> vec3 \<Rightarrow> int3 \<Rightarrow> vec3 \<times> int3" where
  "wrap b w img = wrap_flags b (0, 0, 0) w img"

definition getImage :: "BoxDim \<Rightarrow> vec3 \<Rightarrow> int3" where
  "getImage b v =
    (let (fx, fy, fz) = makeFraction b v (0, 0, 0);
         rnd = (\<lambda>f. trunc (if f - 1/2 \<ge> 0 then f - 1/2 + 1/2 else f - 1/2 - 1/2))
     in (if xc (box_periodic b) then rnd fx else 0,
         if yc (box_periodic b) then rnd fy else 0,
         if zc (box_periodic b) then rnd fz else 0))"

definition getLatticeVector :: "BoxDim \<Rightarrow> nat \<Rightarrow> vec3" where
  "getLatticeVector b i =
    (if i = 0 then (xc (box_L b), 0, 0)
     else if i = 1 then (yc (box_L b) * box_xy b, yc (box_L b), 0)
     else if i = 2 then (zc (box_L b) * box_xz b, zc (box_L b) * box_yz b, zc (box_L b))
     else (0, 0, 0))"

definition vadd :: "vec3 \<Rightarrow> vec3 \<Rightarrow> vec3" where
  "vadd a b = (xc a + xc b, yc a + yc b, zc a + zc b)"

definition vsub :: "vec3 \<Rightarrow> vec3 \<Rightarrow> vec3" where
  "vsub a b = (xc a - xc b, yc a - yc b, zc a - zc b)"

definition sub_int3 :: "int3 \<Rightarrow> int3 \<Rightarrow> int3" where
  "sub_int3 a b = (xc a - xc b, yc a - yc b, zc a - zc b)"

definition add_int3 :: "int3 \<Rightarrow> int3 \<Rightarrow> int3" where
  "add_int3 a b = (xc a + xc b, yc a + yc b, zc a + zc b)"

definition vscale :: "Scalar \<Rightarrow> vec3 \<Rightarrow> vec3" where
  "vscale s a = (s * xc a, s * yc a, s * zc a)"

definition box_shift :: "BoxDim \<Rightarrow> vec3 \<Rightarrow> int3 \<Rightarrow> vec3" where
  "box_shift b v s =
    vadd (vadd (vadd v (vscale (of_int (xc s)) (getLatticeVector b 0)))
               (vscale (of_int (yc s)) (getLatticeVector b 1)))
         (vscale (of_int (zc s)) (getLatticeVector b 2))"

definition getVolume :: "BoxDim \<Rightarrow> bool \<Rightarrow> Scalar" where
  "getVolume b twod =
    (if twod then xc (box_L b) * yc (box_L b) else xc (box_L b) * yc (box_L b) * zc (box_L b))"


subsection \<open>Well-formed periodic boxes\<close>

text \<open>
  The note at \<open>setPeriodic\<close> demands that a periodic direction has \<open>lo = -hi\<close>. A box made by
  \<open>setL\<close> with positive lengths satisfies it in all directions.
\<close>

definition box_wf :: "BoxDim \<Rightarrow> bool" where
  "box_wf b \<longleftrightarrow>
    box_periodic b = (True, True, True) \<and>
    (\<exists>Lx Ly Lz. Lx > 0 \<and> Ly > 0 \<and> Lz > 0 \<and> box_L b = (Lx, Ly, Lz)
      \<and> box_hi b = (Lx / 2, Ly / 2, Lz / 2) \<and> box_lo b = (- (Lx / 2), - (Ly / 2), - (Lz / 2))
      \<and> box_Linv b = (1 / Lx, 1 / Ly, 1 / Lz))"

lemma box_wf_of_L:
  assumes "xc L > 0" "yc L > 0" "zc L > 0"
  shows "box_wf (setTiltFactors xy xz yz (BoxDim_of_L L))"
  using assms by (cases L) (auto simp: box_wf_def setTiltFactors_def BoxDim_of_L_def setL_def BoxDim_empty_def)

lemma box_wfE:
  assumes "box_wf b"
  obtains Lx Ly Lz where "Lx > 0" "Ly > 0" "Lz > 0" "box_L b = (Lx, Ly, Lz)"
    "box_hi b = (Lx / 2, Ly / 2, Lz / 2)" "box_lo b = (- (Lx / 2), - (Ly / 2), - (Lz / 2))"
    "box_Linv b = (1 / Lx, 1 / Ly, 1 / Lz)" "box_periodic b = (True, True, True)"
  using assms by (auto simp: box_wf_def)

definition fraction :: "BoxDim \<Rightarrow> vec3 \<Rightarrow> vec3" where
  "fraction b v = makeFraction b v (0, 0, 0)"

lemma fraction_wf:
  assumes "box_wf b" "box_L b = (Lx, Ly, Lz)"
  shows "fraction b (x, y, z) =
    ((x - (box_xz b - box_yz b * box_xy b) * z - box_xy b * y) / Lx + 1 / 2,
     (y - box_yz b * z) / Ly + 1 / 2, z / Lz + 1 / 2)"
  using assms(2) by (rule_tac box_wfE [OF assms(1)])
    (auto simp: fraction_def makeFraction_def Let_def field_simps)

definition within_one_image :: "BoxDim \<Rightarrow> vec3 \<Rightarrow> bool" where
  "within_one_image b v \<longleftrightarrow>
    -1 \<le> xc (fraction b v) \<and> xc (fraction b v) < 2 \<and> -1 \<le> yc (fraction b v) \<and> yc (fraction b v) < 2
    \<and> -1 \<le> zc (fraction b v) \<and> zc (fraction b v) < 2"

definition inside_box :: "BoxDim \<Rightarrow> vec3 \<Rightarrow> bool" where
  "inside_box b v \<longleftrightarrow>
    0 \<le> xc (fraction b v) \<and> xc (fraction b v) < 1 \<and> 0 \<le> yc (fraction b v) \<and> yc (fraction b v) < 1
    \<and> 0 \<le> zc (fraction b v) \<and> zc (fraction b v) < 1"

text \<open>The effect of one wrapping step on a fractional coordinate.\<close>

definition wrap_frac :: "Scalar \<Rightarrow> Scalar" where
  "wrap_frac f = (if f \<ge> 1 then f - 1 else if f < 0 then f + 1 else f)"

lemma wrap_frac_inside: "-1 \<le> f \<Longrightarrow> f < 2 \<Longrightarrow> 0 \<le> wrap_frac f \<and> wrap_frac f < 1"
  by (auto simp: wrap_frac_def)

lemma wrap_x_fraction:
  assumes wf: "box_wf b"
  shows "fraction b (fst (wrap_x b 0 (v, img))) =
    (wrap_frac (xc (fraction b v)), yc (fraction b v), zc (fraction b v))"
proof -
  obtain Lx Ly Lz where L: "Lx > 0" "Ly > 0" "Lz > 0" "box_L b = (Lx, Ly, Lz)"
    "box_hi b = (Lx / 2, Ly / 2, Lz / 2)" "box_lo b = (- (Lx / 2), - (Ly / 2), - (Lz / 2))"
    "box_Linv b = (1 / Lx, 1 / Ly, 1 / Lz)" "box_periodic b = (True, True, True)"
    using wf by (rule box_wfE)
  obtain x y z where v: "v = (x, y, z)" by (cases v)
  obtain i j k where i: "img = (i, j, k)" by (cases img)
  show ?thesis using L
    by (auto simp: v i wrap_x_def wrap_origin_def Let_def fraction_wf [OF wf L(4)] wrap_frac_def
        field_simps)
qed

lemma wrap_y_fraction:
  assumes wf: "box_wf b"
  shows "fraction b (fst (wrap_y b 0 (v, img))) =
    (xc (fraction b v), wrap_frac (yc (fraction b v)), zc (fraction b v))"
proof -
  obtain Lx Ly Lz where L: "Lx > 0" "Ly > 0" "Lz > 0" "box_L b = (Lx, Ly, Lz)"
    "box_hi b = (Lx / 2, Ly / 2, Lz / 2)" "box_lo b = (- (Lx / 2), - (Ly / 2), - (Lz / 2))"
    "box_Linv b = (1 / Lx, 1 / Ly, 1 / Lz)" "box_periodic b = (True, True, True)"
    using wf by (rule box_wfE)
  obtain x y z where v: "v = (x, y, z)" by (cases v)
  obtain i j k where i: "img = (i, j, k)" by (cases img)
  show ?thesis using L
    by (auto simp: v i wrap_y_def wrap_origin_def Let_def fraction_wf [OF wf L(4)] wrap_frac_def
        field_simps)
qed

lemma wrap_z_fraction:
  assumes wf: "box_wf b"
  shows "fraction b (fst (wrap_z b 0 (v, img))) =
    (xc (fraction b v), yc (fraction b v), wrap_frac (zc (fraction b v)))"
proof -
  obtain Lx Ly Lz where L: "Lx > 0" "Ly > 0" "Lz > 0" "box_L b = (Lx, Ly, Lz)"
    "box_hi b = (Lx / 2, Ly / 2, Lz / 2)" "box_lo b = (- (Lx / 2), - (Ly / 2), - (Lz / 2))"
    "box_Linv b = (1 / Lx, 1 / Ly, 1 / Lz)" "box_periodic b = (True, True, True)"
    using wf by (rule box_wfE)
  obtain x y z where v: "v = (x, y, z)" by (cases v)
  obtain i j k where i: "img = (i, j, k)" by (cases img)
  show ?thesis using L
    by (auto simp: v i wrap_z_def wrap_origin_def Let_def fraction_wf [OF wf L(4)] wrap_frac_def
        field_simps)
qed

lemma wrap_fraction:
  assumes "box_wf b"
  shows "fraction b (fst (wrap b v img)) =
    (wrap_frac (xc (fraction b v)), wrap_frac (yc (fraction b v)), wrap_frac (zc (fraction b v)))"
proof -
  obtain v1 i1 where 1: "wrap_x b 0 (v, img) = (v1, i1)" by (rule prod.exhaust)
  obtain v2 i2 where 2: "wrap_y b 0 (v1, i1) = (v2, i2)" by (rule prod.exhaust)
  show ?thesis
    using wrap_x_fraction [OF assms, of v img] wrap_y_fraction [OF assms, of v1 i1]
      wrap_z_fraction [OF assms, of v2 i2]
    by (simp add: wrap_def wrap_flags_def 1 2)
qed

text \<open>Each step moves the position by a lattice vector and counts it in the image flag.\<close>

definition unwrapped :: "BoxDim \<Rightarrow> vec3 \<times> int3 \<Rightarrow> vec3" where
  "unwrapped b = (\<lambda>(v, img). box_shift b v img)"

lemma wrap_x_unwrapped: "unwrapped b (wrap_x b f s) = unwrapped b s"
  by (cases s) (auto simp: unwrapped_def wrap_x_def Let_def box_shift_def vadd_def vscale_def
      getLatticeVector_def algebra_simps)

lemma wrap_y_unwrapped: "unwrapped b (wrap_y b f s) = unwrapped b s"
  by (cases s) (auto simp: unwrapped_def wrap_y_def Let_def box_shift_def vadd_def vscale_def
      getLatticeVector_def algebra_simps)

lemma wrap_z_unwrapped: "unwrapped b (wrap_z b f s) = unwrapped b s"
  by (cases s) (auto simp: unwrapped_def wrap_z_def Let_def box_shift_def vadd_def vscale_def
      getLatticeVector_def algebra_simps)

lemma wrap_flags_unwrapped: "unwrapped b (wrap_flags b flags v img) = box_shift b v img"
  by (simp add: wrap_flags_def wrap_x_unwrapped wrap_y_unwrapped wrap_z_unwrapped)
     (simp add: unwrapped_def)


text \<open>
  C21: \<open>BoxDim::wrap\<close> in a periodic triclinic box. A position at most one image outside of the box is
  moved into the box (every fractional coordinate ends in the half-open unit interval), and the
  image flags record the move exactly: shifting the wrapped position back by its new image gives the
  same unwrapped position as before.
\<close>

theorem wrap_correct:
  assumes "box_wf b" "within_one_image b v"
  shows "inside_box b (fst (wrap b v img))
    \<and> box_shift b (fst (wrap b v img)) (snd (wrap b v img)) = box_shift b v img"
proof
  show "inside_box b (fst (wrap b v img))"
    using assms(2) wrap_frac_inside
    by (auto simp: inside_box_def within_one_image_def wrap_fraction [OF assms(1)])
  show "box_shift b (fst (wrap b v img)) (snd (wrap b v img)) = box_shift b v img"
    using wrap_flags_unwrapped [of b "(0, 0, 0)" v img]
    by (simp add: wrap_def unwrapped_def split_beta)
qed

definition tilted10 :: BoxDim where
  "tilted10 = BoxDim_tilted 10 (1/2) (1/4) (1/5)"

lemma tilted10_wf: "box_wf tilted10"
  unfolding tilted10_def BoxDim_tilted_def by (rule box_wf_of_L) auto

theorem wrap_correct_witness:
  "box_wf tilted10 \<and> within_one_image tilted10 (7, -8, 6)
   \<and> inside_box tilted10 (fst (wrap tilted10 (7, -8, 6) (0, 3, 0)))
   \<and> box_shift tilted10 (fst (wrap tilted10 (7, -8, 6) (0, 3, 0)))
       (snd (wrap tilted10 (7, -8, 6) (0, 3, 0))) = box_shift tilted10 (7, -8, 6) (0, 3, 0)"
proof -
  have "within_one_image tilted10 (7, -8, 6)"
    by (simp add: within_one_image_def fraction_def makeFraction_def Let_def tilted10_def
        BoxDim_tilted_def setTiltFactors_def BoxDim_of_L_def setL_def)
  with wrap_correct [OF tilted10_wf this, of "(0, 3, 0)"] tilted10_wf show ?thesis by simp
qed

text \<open>
  In a two-dimensional box, whose \<open>Lz\<close> is 0 (the case \<open>setL\<close> guards against), a particle in the
  plane never moves along z, yet every \<open>wrap\<close> adds one to its z image flag, because the upper face
  test \<open>w.z >= hi.z\<close> reads \<open>0 >= 0\<close>.
\<close>

theorem wrap_2d_image_drift:
  assumes "box_periodic b = (True, True, True)" "Lz = 0"
  shows "zc (snd (wrap (setL (Lx, Ly, Lz) b) (x, y, 0) (i, j, k))) = k + 1
    \<and> zc (fst (wrap (setL (Lx, Ly, Lz) b) (x, y, 0) (i, j, k))) = 0"
  using assms
  by (auto simp: wrap_def wrap_flags_def wrap_x_def wrap_y_def wrap_z_def Let_def setL_def
      wrap_origin_def)

theorem wrap_2d_image_drift_witness:
  "zc (snd (wrap (setL (10, 10, 0) BoxDim_empty) (1, 2, 0) (0, 0, 0))) = 1"
  using wrap_2d_image_drift [of BoxDim_empty 0 10 10 1 2 0 0 0] by (simp add: BoxDim_empty_def)

subsection \<open>Fractional coordinates and images\<close>

text \<open>
  C35: \<open>makeFraction\<close> and \<open>makeCoordinates\<close> are inverse to each other in a well-formed box, for every
  tilt.
\<close>

theorem fraction_roundtrip:
  assumes "box_wf b"
  shows "makeFraction b (makeCoordinates b f) (0, 0, 0) = f
    \<and> makeCoordinates b (makeFraction b v (0, 0, 0)) = v"
  using assms
  by (cases f; cases v; elim box_wfE)
    (auto simp: makeFraction_def makeCoordinates_def Let_def field_simps)

theorem fraction_roundtrip_witness:
  "box_wf tilted10
   \<and> makeFraction tilted10 (makeCoordinates tilted10 (1/4, 1/2, 3/4)) (0, 0, 0) = (1/4, 1/2, 3/4)
   \<and> makeCoordinates tilted10 (makeFraction tilted10 (3, 4, 5) (0, 0, 0)) = (3, 4, 5)"
  using fraction_roundtrip [OF tilted10_wf, of "(1/4, 1/2, 3/4)" "(3, 4, 5)"] tilted10_wf by simp

lemma fraction_shift:
  assumes wf: "box_wf b"
  shows "fraction b (box_shift b v (i, j, k)) =
    (xc (fraction b v) + of_int i, yc (fraction b v) + of_int j, zc (fraction b v) + of_int k)"
proof -
  obtain Lx Ly Lz where L: "Lx > 0" "Ly > 0" "Lz > 0" "box_L b = (Lx, Ly, Lz)"
    using wf by (rule box_wfE)
  obtain x y z where v: "v = (x, y, z)" by (cases v)
  show ?thesis using L
    by (simp add: v box_shift_def vadd_def vscale_def getLatticeVector_def fraction_wf [OF wf L(4)]
        field_simps)
qed

definition image_of_fraction :: "Scalar \<Rightarrow> int" where
  "image_of_fraction f = (if f \<ge> 1 / 2 then \<lfloor>f\<rfloor> else \<lceil>f\<rceil> - 1)"

lemma getImage_wf:
  assumes "box_wf b"
  shows "getImage b v = (image_of_fraction (xc (fraction b v)), image_of_fraction (yc (fraction b v)),
    image_of_fraction (zc (fraction b v)))"
proof -
  have r: "trunc (if f - 1/2 \<ge> 0 then f - 1/2 + 1/2 else f - 1/2 - 1/2) = image_of_fraction f" for f
    by (auto simp: trunc_def image_of_fraction_def)
  have "box_periodic b = (True, True, True)" using assms by (simp add: box_wf_def)
  then show ?thesis
    by (cases "makeFraction b v (0, 0, 0)") (simp only: getImage_def r Let_def fraction_def split_conv prod.case fst_conv snd_conv if_True)
qed

lemma image_of_fraction_bounds:
  "of_int (image_of_fraction f) \<le> f \<and> f \<le> of_int (image_of_fraction f) + 1"
  by (auto simp: image_of_fraction_def)

text \<open>
  C37: \<open>getImage\<close> names the image a position belongs to. Shifting the position back by that image puts
  every fractional coordinate into the closed unit interval; an interior position of the box has
  image zero, while a position exactly on the lower x face, which \<open>wrap\<close> leaves where it is, is
  given to image -1.
\<close>

theorem getImage_correct:
  assumes "box_wf b"
  shows "(let (i, j, k) = getImage b v; (fx, fy, fz) = fraction b (box_shift b v (-i, -j, -k))
          in 0 \<le> fx \<and> fx \<le> 1 \<and> 0 \<le> fy \<and> fy \<le> 1 \<and> 0 \<le> fz \<and> fz \<le> 1)
    \<and> (inside_box b v \<and> 0 < xc (fraction b v) \<and> 0 < yc (fraction b v) \<and> 0 < zc (fraction b v)
        \<longrightarrow> getImage b v = (0, 0, 0))
    \<and> (xc (fraction b v) = 0 \<longrightarrow> xc (getImage b v) = -1)"
proof (intro conjI impI)
  show "let (i, j, k) = getImage b v; (fx, fy, fz) = fraction b (box_shift b v (-i, -j, -k))
          in 0 \<le> fx \<and> fx \<le> 1 \<and> 0 \<le> fy \<and> fy \<le> 1 \<and> 0 \<le> fz \<and> fz \<le> 1"
    using image_of_fraction_bounds [of "xc (fraction b v)"]
      image_of_fraction_bounds [of "yc (fraction b v)"]
      image_of_fraction_bounds [of "zc (fraction b v)"]
    by (simp add: getImage_wf [OF assms] fraction_shift [OF assms])
  have inner: "image_of_fraction f = 0" if "0 < f" "f < 1" for f
    using that by (auto simp: image_of_fraction_def) linarith+
  show "getImage b v = (0, 0, 0)"
    if "inside_box b v \<and> 0 < xc (fraction b v) \<and> 0 < yc (fraction b v) \<and> 0 < zc (fraction b v)"
    using that inner by (simp add: getImage_wf [OF assms] inside_box_def)
  show "xc (getImage b v) = -1" if "xc (fraction b v) = 0"
    using that by (simp add: getImage_wf [OF assms] image_of_fraction_def)
qed

theorem getImage_correct_witness:
  "box_wf tilted10 \<and> getImage tilted10 (makeCoordinates tilted10 (0, 1/2, 1/2)) = (-1, 0, 0)
   \<and> xc (getImage tilted10 (makeCoordinates tilted10 (0, 1/2, 1/2))) = -1"
proof -
  have f: "fraction tilted10 (makeCoordinates tilted10 (0, 1/2, 1/2)) = (0, 1/2, 1/2)"
    by (simp add: fraction_def makeFraction_def makeCoordinates_def Let_def tilted10_def
        BoxDim_tilted_def setTiltFactors_def BoxDim_of_L_def setL_def)
  then show ?thesis
    using getImage_correct [OF tilted10_wf, of "makeCoordinates tilted10 (0, 1/2, 1/2)"] tilted10_wf
    by (simp add: getImage_wf image_of_fraction_def)
qed


subsection \<open>The minimum image\<close>

text \<open>One direction of \<open>minImage\<close> with the image count by truncation.\<close>

definition nearest :: "Scalar \<Rightarrow> Scalar \<Rightarrow> int" where
  "nearest L w = (if w \<ge> L / 2 then \<lfloor>w / L + 1 / 2\<rfloor>
                  else if w < - (L / 2) then - \<lfloor>- w / L + 1 / 2\<rfloor> else 0)"

lemma nearest_bounds:
  assumes "L > 0"
  shows "- (L / 2) \<le> w - of_int (nearest L w) * L \<and> w - of_int (nearest L w) * L \<le> L / 2"
proof -
  have r: "- (L / 2) \<le> u - of_int \<lfloor>u / L + 1 / 2\<rfloor> * L \<and> u - of_int \<lfloor>u / L + 1 / 2\<rfloor> * L < L / 2" for u
  proof -
    have "of_int \<lfloor>u / L + 1 / 2\<rfloor> \<le> u / L + 1 / 2" "u / L + 1 / 2 < of_int \<lfloor>u / L + 1 / 2\<rfloor> + 1"
      by linarith+
    then have "of_int \<lfloor>u / L + 1 / 2\<rfloor> * L \<le> (u / L + 1 / 2) * L"
      "(u / L + 1 / 2) * L < (of_int \<lfloor>u / L + 1 / 2\<rfloor> + 1) * L"
      using assms by (auto intro: mult_right_mono mult_strict_right_mono)
    moreover have "(u / L + 1 / 2) * L = u + L / 2" using assms by (simp add: field_simps)
    ultimately show ?thesis using assms by (simp add: algebra_simps)
  qed
  show ?thesis using r [of w] r [of "- w"] by (auto simp: nearest_def)
qed

definition nearest_z :: "Scalar \<Rightarrow> Scalar \<Rightarrow> int" where
  "nearest_z L w = (if w \<ge> L / 2 then 1 else if w < - (L / 2) then -1 else 0)"

lemma nearest_upper:
  "w \<ge> L / 2 \<Longrightarrow> L > 0 \<Longrightarrow> trunc (w * (1 / L) + 1 / 2) = nearest L w"
  by (auto simp: trunc_def nearest_def field_simps)

lemma nearest_lower:
  "w < - (L / 2) \<Longrightarrow> L > 0 \<Longrightarrow> trunc (- w * (1 / L) + 1 / 2) = - nearest L w"
  by (auto simp: trunc_def nearest_def field_simps)

lemma nearest_middle: "\<not> w \<ge> L / 2 \<Longrightarrow> \<not> w < - (L / 2) \<Longrightarrow> nearest L w = 0"
  by (simp add: nearest_def)

lemma nearest_cases:
  assumes "L > 0" "\<And>i. g i = f (- i)" "h = f 0"
  shows "(if w \<ge> L / 2 then f (trunc (w * (1 / L) + 1 / 2))
    else if w < - (L / 2) then g (trunc (- w * (1 / L) + 1 / 2)) else h) = f (nearest L w)"
  using nearest_upper [of L w] nearest_lower [of w L] nearest_middle [of L w] assms
  by (cases "w \<ge> L / 2"; cases "w < - (L / 2)") (simp_all only: if_True if_False minus_minus simp_thms)

lemma minImage_wf:
  assumes "box_wf b" and L: "box_L b = (Lx, Ly, Lz)"
  shows "minImage b (x, y, z) =
    (let k = nearest_z Lz z; y1 = y - of_int k * Lz * box_yz b; x1 = x - of_int k * Lz * box_xz b;
         j = nearest Ly y1; x2 = x1 - of_int j * Ly * box_xy b;
         i = nearest Lx x2
     in (x2 - of_int i * Lx, y1 - of_int j * Ly, z - of_int k * Lz))"
proof -
  have pos: "Lx > 0" "Ly > 0" "Lz > 0" and f: "box_hi b = (Lx / 2, Ly / 2, Lz / 2)"
    "box_lo b = (- (Lx / 2), - (Ly / 2), - (Lz / 2))" "box_Linv b = (1 / Lx, 1 / Ly, 1 / Lz)"
    "box_periodic b = (True, True, True)"
    using assms by (auto elim!: box_wfE)
  have X: "(if w \<ge> Lx / 2 then w - of_int (trunc (w * (1 / Lx) + 1 / 2)) * Lx
      else if w < - (Lx / 2) then w + of_int (trunc (- w * (1 / Lx) + 1 / 2)) * Lx else w)
      = w - of_int (nearest Lx w) * Lx" for w
    by (rule nearest_cases [OF pos(1)]) simp_all
  have Y: "(if w \<ge> Ly / 2 then (u - of_int (trunc (w * (1 / Ly) + 1 / 2)) * Ly * box_xy b,
                                 w - of_int (trunc (w * (1 / Ly) + 1 / 2)) * Ly)
      else if w < - (Ly / 2) then (u + of_int (trunc (- w * (1 / Ly) + 1 / 2)) * Ly * box_xy b,
                                   w + of_int (trunc (- w * (1 / Ly) + 1 / 2)) * Ly) else (u, w))
      = (u - of_int (nearest Ly w) * Ly * box_xy b, w - of_int (nearest Ly w) * Ly)" for u w
    by (rule nearest_cases [OF pos(2)]) simp_all
  have Z: "(if z \<ge> Lz / 2 then (x - Lz * box_xz b, y - Lz * box_yz b, z - Lz)
      else if z < - (Lz / 2) then (x + Lz * box_xz b, y + Lz * box_yz b, z + Lz) else (x, y, z))
      = (x - of_int (nearest_z Lz z) * Lz * box_xz b, y - of_int (nearest_z Lz z) * Lz * box_yz b,
         z - of_int (nearest_z Lz z) * Lz)"
    by (simp add: nearest_z_def)
  show ?thesis
    by (simp only: minImage_def L f Let_def split_conv prod.case fst_conv snd_conv if_True X Y Z)
qed

text \<open>
  C22: \<open>minImage\<close> returns an image of the vector: the result differs from the argument by integer
  multiples of the lattice vectors, and its components lie between the lower and upper corner of
  the box. Along x and y the argument may be any number of images away, along z at most one.
\<close>

theorem minImage_correct:
  assumes wf: "box_wf b" and z: "\<bar>zc v\<bar> \<le> 3 * zc (box_hi b)"
  shows "(\<exists>img. box_shift b (minImage b v) img = v)
    \<and> xc (box_lo b) \<le> xc (minImage b v) \<and> xc (minImage b v) \<le> xc (box_hi b)
    \<and> yc (box_lo b) \<le> yc (minImage b v) \<and> yc (minImage b v) \<le> yc (box_hi b)
    \<and> zc (box_lo b) \<le> zc (minImage b v) \<and> zc (minImage b v) \<le> zc (box_hi b)"
proof -
  obtain Lx Ly Lz where pos: "Lx > 0" "Ly > 0" "Lz > 0" and L: "box_L b = (Lx, Ly, Lz)"
    and c: "box_hi b = (Lx / 2, Ly / 2, Lz / 2)" "box_lo b = (- (Lx / 2), - (Ly / 2), - (Lz / 2))"
    using wf by (rule box_wfE)
  obtain x y z where v: "v = (x, y, z)" by (cases v)
  define k where "k = nearest_z Lz z"
  define y1 where "y1 = y - of_int k * Lz * box_yz b"
  define x1 where "x1 = x - of_int k * Lz * box_xz b"
  define j where "j = nearest Ly y1"
  define x2 where "x2 = x1 - of_int j * Ly * box_xy b"
  define i where "i = nearest Lx x2"
  have m: "minImage b v = (x2 - of_int i * Lx, y1 - of_int j * Ly, z - of_int k * Lz)"
    unfolding v minImage_wf [OF wf L] Let_def k_def y1_def x1_def j_def x2_def i_def by simp
  have "box_shift b (minImage b v) (i, j, k) = v"
    unfolding m by (simp add: v x2_def x1_def y1_def box_shift_def vadd_def vscale_def getLatticeVector_def L)
  moreover have "- (Lz / 2) \<le> z - of_int k * Lz \<and> z - of_int k * Lz \<le> Lz / 2"
    using z by (auto simp: v c k_def nearest_z_def abs_if split: if_splits)
  ultimately show ?thesis
    using nearest_bounds [OF pos(1), of x2] nearest_bounds [OF pos(2), of y1]
    unfolding m c i_def j_def by auto
qed

theorem minImage_correct_witness:
  "box_wf tilted10 \<and> \<bar>zc (31, -27, 12 :: real)\<bar> \<le> 3 * zc (box_hi tilted10)
   \<and> (\<exists>img. box_shift tilted10 (minImage tilted10 (31, -27, 12)) img = (31, -27, 12))
   \<and> xc (minImage tilted10 (31, -27, 12)) \<le> xc (box_hi tilted10)"
proof -
  have h: "\<bar>zc (31, -27, 12 :: real)\<bar> \<le> 3 * zc (box_hi tilted10)"
    by (simp add: tilted10_def BoxDim_tilted_def setTiltFactors_def BoxDim_of_L_def setL_def)
  with minImage_correct [OF tilted10_wf, of "(31, -27, 12)"] tilted10_wf show ?thesis by auto
qed


subsection \<open>Translating by a shifted origin\<close>

lemma fraction_vadd_vsub:
  assumes wf: "box_wf b"
  shows "fraction b (vadd v u) = (xc (fraction b v) + xc (fraction b u) - 1 / 2,
      yc (fraction b v) + yc (fraction b u) - 1 / 2, zc (fraction b v) + zc (fraction b u) - 1 / 2)"
    "fraction b (vsub v u) = (xc (fraction b v) - xc (fraction b u) + 1 / 2,
      yc (fraction b v) - yc (fraction b u) + 1 / 2, zc (fraction b v) - zc (fraction b u) + 1 / 2)"
proof -
  obtain Lx Ly Lz where L: "Lx > 0" "Ly > 0" "Lz > 0" "box_L b = (Lx, Ly, Lz)"
    using wf by (rule box_wfE)
  obtain x y z where v: "v = (x, y, z)" by (cases v)
  obtain p q r where u: "u = (p, q, r)" by (cases u)
  show "fraction b (vadd v u) = (xc (fraction b v) + xc (fraction b u) - 1 / 2,
      yc (fraction b v) + yc (fraction b u) - 1 / 2, zc (fraction b v) + zc (fraction b u) - 1 / 2)"
    "fraction b (vsub v u) = (xc (fraction b v) - xc (fraction b u) + 1 / 2,
      yc (fraction b v) - yc (fraction b u) + 1 / 2, zc (fraction b v) - zc (fraction b u) + 1 / 2)"
    using L by (simp_all add: v u vadd_def vsub_def fraction_wf [OF wf L(4)] field_simps)
qed

lemma fraction_inj:
  assumes wf: "box_wf b" and eq: "fraction b v = fraction b u"
  shows "v = u"
proof -
  obtain Lx Ly Lz where L: "Lx > 0" "Ly > 0" "Lz > 0" "box_L b = (Lx, Ly, Lz)"
    using wf by (rule box_wfE)
  show ?thesis using eq L by (cases v; cases u) (simp add: fraction_wf [OF wf L(4)])
qed

lemma box_shift_img_inj:
  assumes "box_wf b" "box_shift b v i = box_shift b v j"
  shows "i = j"
  using arg_cong [OF assms(2), where f = "fraction b"]
  by (cases i; cases j) (simp add: fraction_shift [OF assms(1)])

lemma box_shift_vadd: "box_shift b (vadd v u) i = vadd (box_shift b v i) u"
  "box_shift b (vsub v u) i = vsub (box_shift b v i) u"
  by (simp_all add: box_shift_def vadd_def vsub_def algebra_simps)

lemma vsub_vadd [simp]: "vsub (vadd v u) u = v" "vadd (vsub v u) u = v"
  by (cases v; simp add: vadd_def vsub_def)+

lemma box_shift_add: "box_shift b (box_shift b v i) j = box_shift b v (add_int3 i j)"
  by (simp add: box_shift_def vadd_def vscale_def add_int3_def algebra_simps)

lemma wrap_pos_img: "fst (wrap b v i) = fst (wrap b v j)"
proof -
  have x: "fst (wrap_x b 0 (v, i)) = fst (wrap_x b 0 (v, j))" for v i j
    by (cases v; cases i; cases j) (simp add: wrap_x_def Let_def)
  have y: "fst (wrap_y b 0 (v, i)) = fst (wrap_y b 0 (v, j))" for v i j
    by (cases v; cases i; cases j) (simp add: wrap_y_def Let_def)
  have z: "fst (wrap_z b 0 (v, i)) = fst (wrap_z b 0 (v, j))" for v i j
    by (cases v; cases i; cases j) (simp add: wrap_z_def Let_def)
  show ?thesis unfolding wrap_def wrap_flags_def fst_conv snd_conv using x y z by (metis prod.collapse)
qed

lemma wrap_shift: "box_shift b (fst (wrap b v i)) (snd (wrap b v i)) = box_shift b v i"
  using wrap_flags_unwrapped [of b "(0, 0, 0)" v i] by (simp add: wrap_def unwrapped_def split_beta)

lemma wrap_frac_back:
  assumes "0 \<le> f" "f < 1" "0 \<le> g" "g < 1"
  shows "wrap_frac (wrap_frac (f + g - 1 / 2) - g + 1 / 2) = f"
  using assms by (auto simp: wrap_frac_def)

lemma wrap_inside:
  assumes "box_wf b" "inside_box b v" "inside_box b u"
  shows "inside_box b (fst (wrap b (vadd v u) i))" "inside_box b (fst (wrap b (vsub v u) i))"
  using assms(2,3) unfolding inside_box_def wrap_fraction [OF assms(1)] fraction_vadd_vsub [OF assms(1)] fst_conv snd_conv
  by (auto intro: wrap_frac_inside [THEN conjunct1] wrap_frac_inside [THEN conjunct2])

text \<open>Shifting a position by the origin, wrapping it, shifting it back and wrapping it again.\<close>

lemma wrap_shift_back:
  assumes wf: "box_wf b" and v: "inside_box b v" and u: "inside_box b u"
    and w: "wrap b (vadd v u) i = (p, k)"
  shows "wrap b (vsub p u) (sub_int3 k j) = (v, sub_int3 i j)"
proof -
  have p: "p = fst (wrap b (vadd v u) i)" using w by simp
  have pos: "fst (wrap b (vsub p u) (sub_int3 k j)) = v"
  proof (rule fraction_inj [OF wf])
    show "fraction b (fst (wrap b (vsub p u) (sub_int3 k j))) = fraction b v"
      unfolding wrap_fraction [OF wf] fraction_vadd_vsub [OF wf] p fst_conv snd_conv
      using v u by (auto simp: inside_box_def wrap_frac_back)
  qed
  have "box_shift b v (snd (wrap b (vsub p u) (sub_int3 k j))) = vsub (box_shift b p (sub_int3 k j)) u"
    using wrap_shift [of b "vsub p u" "sub_int3 k j"] by (simp add: pos box_shift_vadd)
  also have "box_shift b p (sub_int3 k j) = box_shift b (vadd v u) (sub_int3 i j)"
  proof -
    have "box_shift b q (sub_int3 a j) = box_shift b (box_shift b q a) (sub_int3 (0, 0, 0) j)" for q a
      by (simp only: box_shift_add) (simp add: sub_int3_def add_int3_def)
    from this [of p k] this [of "vadd v u" i] show ?thesis using wrap_shift [of b "vadd v u" i] unfolding w by simp
  qed
  finally have "snd (wrap b (vsub p u) (sub_int3 k j)) = sub_int3 i j"
    unfolding box_shift_vadd vsub_vadd by (rule box_shift_img_inj [OF wf])
  then show ?thesis using pos by (simp add: prod_eq_iff)
qed

end
