(* ===== verification/Tag_Pool.thy ===== *)
theory Tag_Pool
  imports GPU_Vector
begin

section \<open>Pools of recycled tags\<close>

text \<open>
  \<open>ParticleData\<close> and \<open>BondedGroupData\<close> hand out tags in the same way: a set \<open>m_tag_set\<close> of
  active tags, a stack \<open>m_recycled_tags\<close> of deleted tags and the number of active tags. This
  theory holds the common step (take a recycled tag, else the next new one), the well-formedness of
  a pool, the cached ascending list of active tags, and the locale \<open>tag_store\<close>: what a store with
  such a pool promises to its clients.
\<close>

subsection \<open>Allocation and release of tags\<close>

definition take_tag :: "nat list \<Rightarrow> nat \<Rightarrow> nat \<times> nat list" where
  "take_tag recycled n = (case recycled of [] \<Rightarrow> (n, []) | t # ts \<Rightarrow> (t, ts))"

text \<open>
  A pool is well formed when every tag ever handed out is either active or waits on the stack, and
  no tag is both.
\<close>

definition pool_wf :: "nat set \<Rightarrow> nat list \<Rightarrow> nat \<Rightarrow> bool" where
  "pool_wf active recycled n \<longleftrightarrow>
    finite active \<and> card active = n \<and> distinct recycled \<and> active \<inter> set recycled = {} \<and>
    active \<union> set recycled = {..<n + length recycled}"

lemma pool_wf_empty [simp]: "pool_wf {} [] 0"
  by (simp add: pool_wf_def)

lemma pool_wf_lessThan: "pool_wf {..<n} [] n"
  by (simp add: pool_wf_def)

lemma pool_wf_insert_new: "pool_wf A [] n \<Longrightarrow> n \<notin> A \<and> pool_wf (insert n A) [] (Suc n)"
  by (simp add: pool_wf_def lessThan_Suc)

lemma pool_wf_insert_recycled:
  assumes "pool_wf A (t # ts) n"
  shows "t \<notin> A \<and> pool_wf (insert t A) ts (Suc n)"
proof -
  have "A \<union> insert t (set ts) = {..<n + Suc (length ts)}" using assms by (simp add: pool_wf_def)
  moreover have "insert t A \<union> set ts = A \<union> insert t (set ts)" by blast
  ultimately show ?thesis using assms by (simp add: pool_wf_def)
qed

lemma pool_wf_take:
  assumes wf: "pool_wf A rec n" and t: "take_tag rec n = (t, rec')"
  shows "t \<notin> A" "pool_wf (insert t A) rec' (Suc n)" "t < Suc n + length rec'"
    "Suc n + length rec' = (if rec = [] then Suc n else n + length rec)" "set rec' \<subseteq> set rec"
    "t \<notin> set rec'"
proof -
  show a: "t \<notin> A" "pool_wf (insert t A) rec' (Suc n)"
    using t wf pool_wf_insert_new [of A n] pool_wf_insert_recycled [of A t rec' n]
    by (cases rec; simp add: take_tag_def)+
  show "set rec' \<subseteq> set rec" "Suc n + length rec' = (if rec = [] then Suc n else n + length rec)"
    using t by (cases rec; force simp: take_tag_def)+
  have "insert t A \<union> set rec' = {..<Suc n + length rec'}" "insert t A \<inter> set rec' = {}"
    using a(2) unfolding pool_wf_def by blast+
  then show "t < Suc n + length rec'" "t \<notin> set rec'" by blast+
qed

lemma pool_wf_release:
  assumes wf: "pool_wf A rec n" and t: "t \<in> A"
  shows "pool_wf (A - {t}) (t # rec) (n - 1)" "0 < n"
proof -
  note w = wf [unfolded pool_wf_def]
  show n: "0 < n" using w t by (metis card_gt_0_iff empty_iff)
  have "A - {t} \<union> set (t # rec) = A \<union> set rec" using t by auto
  also have "\<dots> = {..<n - 1 + length (t # rec)}" using w n by simp
  finally show "pool_wf (A - {t}) (t # rec) (n - 1)"
    unfolding pool_wf_def using w t by auto
qed

lemma pool_active_less: "pool_wf A rec n \<Longrightarrow> t \<in> A \<Longrightarrow> t < n + length rec"
  by (auto simp: pool_wf_def)

lemma pool_recycled_less: "pool_wf A rec n \<Longrightarrow> t \<in> set rec \<Longrightarrow> t < n + length rec"
  by (auto simp: pool_wf_def)

lemma pool_less_cases: "pool_wf A rec n \<Longrightarrow> t < n + length rec \<Longrightarrow> t \<in> A \<or> t \<in> set rec"
  by (auto simp: pool_wf_def)

subsection \<open>The cached list of active tags\<close>

text \<open>\<open>maybe_rebuild_tag_cache\<close>: the vector is resized and filled by iterating over the set.\<close>

fun fill_cache :: "nat \<Rightarrow> nat list \<Rightarrow> nat vec \<Rightarrow> nat vec" where
  "fill_cache i [] v = v"
| "fill_cache i (t # ts) v = fill_cache (Suc i) ts (vec_set i t v)"

definition rebuild_cache :: "nat set \<Rightarrow> nat vec \<Rightarrow> nat vec" where
  "rebuild_cache active v = fill_cache 0 (sorted_list_of_set active) (vec_resize 0 (card active) v)"

lemma fill_cache_list:
  assumes "vec_inv v" "vec_len v = i + length ts"
  shows "vec_list (fill_cache i ts v) = take i (vec_list v) @ ts \<and> vec_inv (fill_cache i ts v)
    \<and> vec_len (fill_cache i ts v) = i + length ts"
  using assms
proof (induction i ts v rule: fill_cache.induct)
  case (1 i v)
  then show ?case by simp
next
  case (2 i t ts v)
  have "take (Suc i) ((vec_list v)[i := t]) = take i (vec_list v) @ [t]"
    using 2(2,3) by (simp add: take_Suc_conv_app_nth)
  with 2 show ?case by simp
qed

lemma rebuild_cache_list:
  assumes "finite A"
  shows "vec_list (rebuild_cache A v) = sorted_list_of_set A" "vec_inv (rebuild_cache A v)"
  using fill_cache_list [of "vec_resize 0 (card A) v" 0 "sorted_list_of_set A"] assms
  by (auto simp: rebuild_cache_def)

lemma sorted_list_of_set_nth_bij:
  assumes "finite A"
  shows "bij_betw (\<lambda>i. sorted_list_of_set A ! i) {..<card A} A"
  using bij_betw_nth [of "sorted_list_of_set A" "{..<card A}" A] assms by simp

subsection \<open>Closing a gap\<close>

text \<open>
  Both stores remove an element by moving the last one into its place. On the level of the lookup:
  \<open>tg\<close> gives the tag of an index, \<open>rt\<close> the index of a tag.
\<close>

definition gap_source :: "nat \<Rightarrow> nat \<Rightarrow> nat \<Rightarrow> nat" where
  "gap_source k n i = (if i = k then n - 1 else i)"

lemma gap_closed:
  assumes fwd: "\<And>i. i < n \<Longrightarrow> tg i \<in> A \<and> rt (tg i) = i"
    and bwd: "\<And>t. t \<in> A \<Longrightarrow> rt t \<noteq> nl \<Longrightarrow> rt t < n \<and> tg (rt t) = t"
    and nl: "n \<le> nl" and k: "k < n" "rt d = k" "d \<in> A"
    and tg': "\<And>i. i < n - 1 \<Longrightarrow> tg' i = tg (gap_source k n i)"
    and rt': "\<And>t. t \<in> A \<Longrightarrow> rt' t = (if k < n - 1 \<and> t = tg (n - 1) then k else if t = d then nl else rt t)"
  shows "i < n - 1 \<Longrightarrow> tg' i \<in> A - {d} \<and> rt' (tg' i) = i \<and> rt (tg' i) = gap_source k n i"
    "t \<in> A - {d} \<Longrightarrow> rt t \<noteq> nl \<Longrightarrow> rt' t < n - 1 \<and> tg' (rt' t) = t"
    "t \<in> A \<Longrightarrow> rt t = nl \<Longrightarrow> rt' t = nl" "rt' d = nl"
proof -
  have last: "tg (n - 1) \<in> A" "rt (tg (n - 1)) = n - 1" using fwd [of "n - 1"] k(1) by auto
  have d: "tg k = d" using bwd [OF k(3)] k nl by auto
  show "tg' i \<in> A - {d} \<and> rt' (tg' i) = i \<and> rt (tg' i) = gap_source k n i" if i: "i < n - 1"
  proof (cases "i = k")
    case True
    then show ?thesis using i tg' [OF i] last rt' [OF last(1)] k(2) by (auto simp: gap_source_def)
  next
    case False
    have "tg i \<in> A" "rt (tg i) = i" using fwd [of i] i by auto
    then show ?thesis using False i tg' [OF i] rt' [of "tg i"] last(2) k(2) by (auto simp: gap_source_def)
  qed
  show "rt' t < n - 1 \<and> tg' (rt' t) = t" if t: "t \<in> A - {d}" "rt t \<noteq> nl"
  proof -
    have b: "rt t < n" "tg (rt t) = t" using bwd t by auto
    have "rt t \<noteq> k" using b d t by auto
    then show ?thesis
    proof (cases "rt t = n - 1")
      case True
      then have "k < n - 1" "t = tg (n - 1)" using \<open>rt t \<noteq> k\<close> k(1) b(2) by auto
      then show ?thesis using t rt' [of t] tg' [of k] by (auto simp: gap_source_def)
    next
      case False
      then have "rt t < n - 1" using b(1) by simp
      then show ?thesis using t b \<open>rt t \<noteq> k\<close> rt' [of t] tg' [of "rt t"] last(2) by (auto simp: gap_source_def)
    qed
  qed
  show "rt' t = nl" if "t \<in> A" "rt t = nl" using that rt' [of t] last(2) k(1) nl by auto
  show "rt' d = nl" using rt' [OF k(3)] last(2) k(2) by auto
qed

subsection \<open>The contract of a store with tags\<close>

text \<open>
  A store of tagged records: \<open>active\<close> is the set of its tags, \<open>look\<close> the record behind a tag,
  \<open>add\<close> inserts a record and returns its tag, \<open>del\<close> removes a tag.
  \<open>same\<close> says which records count as equal for a client.
\<close>

locale tag_store =
  fixes inv :: "'s \<Rightarrow> bool"
    and room :: "'s \<Rightarrow> bool"
    and active :: "'s \<Rightarrow> nat set"
    and look :: "'s \<Rightarrow> nat \<Rightarrow> 'r"
    and add :: "'a \<Rightarrow> 's \<Rightarrow> nat \<times> 's"
    and del :: "nat \<Rightarrow> 's \<Rightarrow> 's result"
    and made :: "'a \<Rightarrow> nat \<Rightarrow> 'r"
    and nargs :: "'s \<Rightarrow> 'a \<Rightarrow> bool"
  assumes inv_finite: "inv s \<Longrightarrow> finite (active s)"
    and add_inv: "inv s \<Longrightarrow> room s \<Longrightarrow> nargs s a \<Longrightarrow> inv (snd (add a s))"
    and add_fresh: "inv s \<Longrightarrow> room s \<Longrightarrow> nargs s a \<Longrightarrow> fst (add a s) \<notin> active s"
    and add_active: "inv s \<Longrightarrow> room s \<Longrightarrow> nargs s a \<Longrightarrow>
      active (snd (add a s)) = insert (fst (add a s)) (active s)"
    and add_look: "inv s \<Longrightarrow> room s \<Longrightarrow> nargs s a \<Longrightarrow> t \<in> active (snd (add a s)) \<Longrightarrow>
      look (snd (add a s)) t = (if t = fst (add a s) then made a t else look s t)"
    and del_ok: "inv s \<Longrightarrow> t \<in> active s \<Longrightarrow> \<exists>s'. del t s = Inr s'"
    and del_error: "inv s \<Longrightarrow> t \<notin> active s \<Longrightarrow> \<exists>e. del t s = Inl e"
    and del_inv: "inv s \<Longrightarrow> del t s = Inr s' \<Longrightarrow> inv s'"
    and del_active: "inv s \<Longrightarrow> del t s = Inr s' \<Longrightarrow> active s' = active s - {t}"
    and del_look: "inv s \<Longrightarrow> del t s = Inr s' \<Longrightarrow> u \<in> active s' \<Longrightarrow> look s' u = look s u"
begin

lemma del_iff:
  assumes "inv s"
  shows "(\<exists>s'. del t s = Inr s') \<longleftrightarrow> t \<in> active s"
  using del_ok [OF assms] del_error [OF assms] by (metis Inl_Inr_False)

text \<open>A tag just added can be removed, and afterwards the store is as it was for all other tags.\<close>

lemma add_del:
  assumes s: "inv s" "room s" "nargs s a" and a: "add a s = (t, s1)"
  shows "\<exists>s2. del t s1 = Inr s2 \<and> inv s2 \<and> active s2 = active s \<and> (\<forall>u\<in>active s. look s2 u = look s u)"
proof -
  have 1: "inv s1" "t \<in> active s1" "t \<notin> active s" "active s1 = insert t (active s)"
    using add_inv [OF s] add_active [OF s] add_fresh [OF s] a by simp_all
  from del_ok [OF 1(1,2)] obtain s2 where d: "del t s1 = Inr s2" by blast
  have "look s2 u = look s u" if u: "u \<in> active s" for u
  proof -
    have "look s2 u = look s1 u"
      using del_look [OF 1(1) d] del_active [OF 1(1) d] 1(3,4) u by auto
    also have "\<dots> = look s u"
      using add_look [OF s, of u] a 1(3,4) u by auto
    finally show ?thesis .
  qed
  with d del_inv [OF 1(1) d] del_active [OF 1(1) d] 1(3,4) show ?thesis by auto
qed

lemma del_twice:
  assumes "inv s" "del t s = Inr s'"
  shows "\<exists>e. del t s' = Inl e"
  using del_error [OF del_inv [OF assms]] del_active [OF assms] by simp

end

end
