(* ===== verification/Particle_Data.thy ===== *)
theory Particle_Data
  imports Tag_Pool Box_Dim
begin

section \<open>The particle store of one rank\<close>

text \<open>
  \<open>ParticleData\<close> of \<^verbatim>\<open>hoomd/ParticleData.h\<close> and \<^verbatim>\<open>hoomd/ParticleData.cc\<close>. The per-particle
  arrays \<open>m_pos\<close>, \<open>m_vel\<close>, \<dots> have the same length and are read and written together; they
  are one list of \<open>pdata_element\<close>, the struct the source uses for a particle in packed form, and
  the alternate arrays \<open>m_pos_alt\<close>, \<dots> another one. Type ids, tags, body ids and indices are
  natural numbers with the 32-bit sentinel \<open>not_local\<close>; the cells of \<open>m_rtag\<close> behind the end of
  the vector keep their contents and are part of the state (\<open>vec\<close>).
  \<open>pd_ghosts_added\<close> is \<open>Communicator::m_ghosts_added\<close>, whose slot is connected to the signal
  that \<open>removeAllGhostParticles\<close> emits.
  The factor 9/8 of the amortised growth is exact here, in the source it is computed in \<open>float\<close>.
\<close>

subsection \<open>State\<close>

record pdata_element =
  pe_pos :: vec3
  pe_type :: nat
  pe_vel :: vec3
  pe_mass :: Scalar
  pe_accel :: vec3
  pe_charge :: Scalar
  pe_diameter :: Scalar
  pe_image :: int3
  pe_body :: nat
  pe_orientation :: vec4
  pe_angmom :: vec4
  pe_inertia :: vec3
  pe_tag :: nat
  pe_net_force :: vec4
  pe_net_torque :: vec4
  pe_net_virial :: "Scalar list"

definition NO_BODY :: nat where
  "NO_BODY = 0xffffffff"

definition MIN_FLOPPY :: nat where
  "MIN_FLOPPY = 0x80000000"

text \<open>Cleared memory.\<close>

definition zero_element :: pdata_element where
  "zero_element =
    \<lparr>pe_pos = (0, 0, 0), pe_type = 0, pe_vel = (0, 0, 0), pe_mass = 0, pe_accel = (0, 0, 0),
     pe_charge = 0, pe_diameter = 0, pe_image = (0, 0, 0), pe_body = 0,
     pe_orientation = (0, 0, 0, 0), pe_angmom = (0, 0, 0, 0), pe_inertia = (0, 0, 0), pe_tag = 0,
     pe_net_force = (0, 0, 0, 0), pe_net_torque = (0, 0, 0, 0),
     pe_net_virial = [0, 0, 0, 0, 0, 0]\<rparr>"

definition clear_net :: "pdata_element \<Rightarrow> pdata_element" where
  "clear_net e = e\<lparr>pe_net_force := (0, 0, 0, 0), pe_net_torque := (0, 0, 0, 0),
     pe_net_virial := [0, 0, 0, 0, 0, 0]\<rparr>"

record ParticleData =
  pd_nparticles :: nat
  pd_nghosts :: nat
  pd_max_nparticles :: nat
  pd_nglobal :: nat
  pd_arrays_allocated :: bool
  pd_elems :: "pdata_element list"
  pd_alt :: "pdata_element list"
  pd_comm_flags :: "nat list"
  pd_rtag :: "nat vec"
  pd_tag_set :: "nat set"
  pd_recycled_tags :: "nat list"
  pd_cached_tag_set :: "nat vec"
  pd_invalid_cached_tags :: bool
  pd_type_mapping :: "string list"
  pd_accel_set :: bool
  pd_global_box :: BoxDim
  pd_origin :: vec3
  pd_o_image :: int3
  pd_ghosts_added :: nat

definition pd_tag :: "ParticleData \<Rightarrow> nat \<Rightarrow> nat" where
  "pd_tag pd i = pe_tag (pd_elems pd ! i)"

definition getRTag :: "ParticleData \<Rightarrow> nat \<Rightarrow> nat" where
  "getRTag pd tag = vec_get tag (pd_rtag pd)"

definition isParticleLocal :: "ParticleData \<Rightarrow> nat \<Rightarrow> bool" where
  "isParticleLocal pd tag \<longleftrightarrow> vec_get tag (pd_rtag pd) < pd_nparticles pd"

definition isTagActive :: "ParticleData \<Rightarrow> nat \<Rightarrow> bool" where
  "isTagActive pd tag \<longleftrightarrow> tag \<in> pd_tag_set pd"

definition getMaximumTag :: "ParticleData \<Rightarrow> nat" where
  "getMaximumTag pd = (if pd_tag_set pd = {} then 0xffffffff else Max (pd_tag_set pd))"

subsection \<open>Type names\<close>

definition default_letters :: string where
  "default_letters = ''ABCDEFGHIJKLMNOPQRSTUVWXYZ''"

function default_name_loop :: "nat \<Rightarrow> string \<Rightarrow> string" where
  "default_name_loop k r =
    (if k \<ge> 26 then
       let k' = k div 26 - 1 in default_name_loop k' (default_letters ! (k' mod 26) # r)
     else r)"
  by pat_completeness auto
termination
proof (relation "measure fst")
  fix k :: nat and r x
  assume k: "26 \<le> k" and x: "x = k div 26 - 1"
  have "k div 26 \<le> k" by simp
  then show "((x, default_letters ! (x mod 26) # r), k, r) \<in> measure fst"
    using k x div_less_dividend [of 26 k] by simp
qed simp

declare default_name_loop.simps [simp del]

definition getDefaultTypeName :: "nat \<Rightarrow> string" where
  "getDefaultTypeName k = default_name_loop k [default_letters ! (k mod 26)]"

fun find_name :: "string \<Rightarrow> string list \<Rightarrow> nat \<Rightarrow> nat option" where
  "find_name nm [] i = None"
| "find_name nm (x # xs) i = (if x = nm then Some i else find_name nm xs (Suc i))"

definition getTypeByName :: "string list \<Rightarrow> string \<Rightarrow> nat result" where
  "getTypeByName tm nm =
    (case find_name nm tm 0 of Some i \<Rightarrow> Inr i
     | None \<Rightarrow> Inl (RuntimeError (''Type '' @ nm @ '' not found!'')))"

definition getNameByType :: "string list \<Rightarrow> nat \<Rightarrow> string result" where
  "getNameByType tm ty =
    (if ty \<ge> length tm then Inl (RuntimeError ''Requesting type name for non-existent type'')
     else Inr (tm ! ty))"

definition setTypeName :: "nat \<Rightarrow> string \<Rightarrow> string list \<Rightarrow> string list result" where
  "setTypeName ty nm tm =
    (if ty \<ge> length tm then Inl (RuntimeError ''Setting name for non-existent type'')
     else Inr (tm[ty := nm]))"

subsection \<open>Allocation\<close>

definition allocateAlternateArrays :: "nat \<Rightarrow> ParticleData \<Rightarrow> ParticleData" where
  "allocateAlternateArrays n pd = pd\<lparr>pd_alt := replicate n zero_element\<rparr>"

declare allocateAlternateArrays_def [simp]

definition pd_allocate :: "nat \<Rightarrow> ParticleData \<Rightarrow> ParticleData" where
  "pd_allocate n pd =
    (allocateAlternateArrays n
       (pd\<lparr>pd_max_nparticles := n, pd_elems := replicate n zero_element, pd_comm_flags := replicate n 0\<rparr>))
      \<lparr>pd_arrays_allocated := True\<rparr>"

definition pd_reallocate :: "nat \<Rightarrow> ParticleData \<Rightarrow> ParticleData" where
  "pd_reallocate max_n pd =
    (if \<not> pd_arrays_allocated pd then pd_allocate max_n pd
     else pd\<lparr>pd_max_nparticles := max_n,
             pd_elems := map clear_net (resized zero_element max_n (pd_elems pd)),
             pd_alt := map clear_net (resized zero_element max_n (pd_alt pd)),
             pd_comm_flags := resized 0 max_n (pd_comm_flags pd)\<rparr>)"

definition pd_resize :: "nat \<Rightarrow> ParticleData \<Rightarrow> ParticleData" where
  "pd_resize new_n pd =
    (if new_n = 0 then
       (let pd = (if \<not> pd_arrays_allocated pd then pd_allocate 1 pd else pd)
        in pd\<lparr>pd_nparticles := new_n\<rparr>)
     else
       let pd = (if \<not> pd_arrays_allocated pd then pd_allocate new_n pd else pd);
           pd = (if new_n > pd_max_nparticles pd
                 then pd_reallocate (grow_alloc new_n (pd_max_nparticles pd)) pd else pd)
       in pd\<lparr>pd_nparticles := new_n\<rparr>)"

definition setNGlobal :: "nat \<Rightarrow> ParticleData \<Rightarrow> ParticleData" where
  "setNGlobal n pd = pd\<lparr>pd_nglobal := n\<rparr>"

text \<open>A store before anything is put into it: the member initializers of the constructor.\<close>

definition ParticleData_blank :: "BoxDim \<Rightarrow> ParticleData" where
  "ParticleData_blank box =
    \<lparr>pd_nparticles = 0, pd_nghosts = 0, pd_max_nparticles = 0, pd_nglobal = 0,
     pd_arrays_allocated = False, pd_elems = [], pd_alt = [], pd_comm_flags = [],
     pd_rtag = vec_empty (\<lambda>_. 0), pd_tag_set = {}, pd_recycled_tags = [],
     pd_cached_tag_set = vec_empty (\<lambda>_. 0), pd_invalid_cached_tags = True, pd_type_mapping = [],
     pd_accel_set = False, pd_global_box = box, pd_origin = (0, 0, 0), pd_o_image = (0, 0, 0),
     pd_ghosts_added = 0\<rparr>"

subsection \<open>Ghost particles\<close>

definition addGhostParticles :: "nat \<Rightarrow> ParticleData \<Rightarrow> ParticleData" where
  "addGhostParticles nghosts pd =
    (let pd = pd\<lparr>pd_nghosts := pd_nghosts pd + nghosts\<rparr>;
         need = pd_nparticles pd + pd_nghosts pd
     in if need > pd_max_nparticles pd then pd_reallocate (grow_alloc need (pd_max_nparticles pd)) pd
        else pd)"

text \<open>The loop of \<open>Communicator::removeGhostParticleTags\<close> over the ghosts it added.\<close>

fun wipe_ghost_rtags :: "pdata_element list \<Rightarrow> nat \<Rightarrow> nat \<Rightarrow> nat vec \<Rightarrow> nat vec" where
  "wipe_ghost_rtags es idx 0 rtag = rtag"
| "wipe_ghost_rtags es idx (Suc n) rtag =
    wipe_ghost_rtags es (Suc idx) n (vec_set (pe_tag (es ! idx)) not_local rtag)"

definition slotGhostParticlesRemoved :: "ParticleData \<Rightarrow> ParticleData" where
  "slotGhostParticlesRemoved pd =
    pd\<lparr>pd_rtag := wipe_ghost_rtags (pd_elems pd) (pd_nparticles pd) (pd_ghosts_added pd) (pd_rtag pd),
       pd_ghosts_added := 0\<rparr>"

definition removeAllGhostParticles :: "ParticleData \<Rightarrow> ParticleData" where
  "removeAllGhostParticles pd = slotGhostParticlesRemoved (pd\<lparr>pd_nghosts := 0\<rparr>)"

subsection \<open>Adding and removing one particle\<close>

definition default_element :: "nat \<Rightarrow> nat \<Rightarrow> pdata_element \<Rightarrow> pdata_element" where
  "default_element ty tag e =
    e\<lparr>pe_pos := (0, 0, 0), pe_type := ty, pe_vel := (0, 0, 0), pe_mass := 1, pe_accel := (0, 0, 0),
      pe_charge := 0, pe_diameter := 1, pe_image := (0, 0, 0), pe_angmom := (0, 0, 0, 0),
      pe_inertia := (0, 0, 0), pe_body := NO_BODY, pe_orientation := (1, 0, 0, 0), pe_tag := tag\<rparr>"

definition append_default :: "nat \<Rightarrow> nat \<Rightarrow> ParticleData \<Rightarrow> ParticleData" where
  "append_default ty tag pd =
    (let idx = pd_nparticles pd; pd = pd_resize (idx + 1) pd
     in pd\<lparr>pd_elems := (pd_elems pd)[idx := default_element ty tag (pd_elems pd ! idx)],
           pd_comm_flags := (pd_comm_flags pd)[idx := 0]\<rparr>)"

definition addParticle_rank :: "nat \<Rightarrow> nat \<Rightarrow> ParticleData \<Rightarrow> nat \<times> ParticleData" where
  "addParticle_rank rank ty pd =
    (let pd = removeAllGhostParticles pd;
         (tag, recycled) = take_tag (pd_recycled_tags pd) (pd_nglobal pd);
         pd = pd\<lparr>pd_recycled_tags := recycled, pd_tag_set := insert tag (pd_tag_set pd),
                 pd_invalid_cached_tags := True\<rparr>;
         pd = pd\<lparr>pd_rtag := vec_resize 0 (getMaximumTag pd + 1) (pd_rtag pd)\<rparr>;
         pd = pd\<lparr>pd_rtag := vec_set tag (if rank = 0 then pd_nparticles pd else not_local) (pd_rtag pd)\<rparr>;
         pd = (if rank = 0 then append_default ty tag pd else pd)
     in (tag, setNGlobal (pd_nglobal pd + 1) pd))"

text \<open>The fields that \<open>removeParticle\<close> copies when it moves the last particle into the gap.\<close>

definition move_element :: "pdata_element \<Rightarrow> pdata_element \<Rightarrow> pdata_element" where
  "move_element src dst =
    dst\<lparr>pe_pos := pe_pos src, pe_type := pe_type src, pe_vel := pe_vel src, pe_mass := pe_mass src,
        pe_accel := pe_accel src, pe_charge := pe_charge src, pe_diameter := pe_diameter src,
        pe_image := pe_image src, pe_body := pe_body src, pe_orientation := pe_orientation src,
        pe_tag := pe_tag src\<rparr>"

definition close_gap :: "nat \<Rightarrow> ParticleData \<Rightarrow> ParticleData" where
  "close_gap idx pd =
    (let n = pd_nparticles pd;
         pd = (if idx < n - 1 then
                 let es = (pd_elems pd)[idx := move_element (pd_elems pd ! (n - 1)) (pd_elems pd ! idx)]
                 in pd\<lparr>pd_elems := es,
                       pd_comm_flags := (pd_comm_flags pd)[idx := pd_comm_flags pd ! (n - 1)],
                       pd_rtag := vec_set (pe_tag (es ! (n - 1))) idx (pd_rtag pd)\<rparr>
               else pd)
     in pd_resize (n - 1) pd)"

text \<open>\<open>removeParticle\<close> on one rank, behind the checks.\<close>

definition removeParticle_finish :: "nat \<Rightarrow> ParticleData \<Rightarrow> ParticleData" where
  "removeParticle_finish tag pd =
    (let idx = vec_get tag (pd_rtag pd);
         is_local = idx < pd_nparticles pd;
         pd = pd\<lparr>pd_rtag := vec_set tag not_local (pd_rtag pd)\<rparr>;
         pd = (if is_local then close_gap idx pd else pd);
         pd = pd\<lparr>pd_tag_set := pd_tag_set pd - {tag}, pd_recycled_tags := tag # pd_recycled_tags pd,
                 pd_invalid_cached_tags := True\<rparr>
     in setNGlobal (pd_nglobal pd - 1) pd)"

subsection \<open>All ranks together\<close>

text \<open>
  A run is the list of the stores of all ranks, in rank order; a run without domain decomposition is
  a list of one store. A collective operation is called on all ranks; an exception on some rank
  ends it. \<open>MPI_Allreduce\<close> is computed over the list.
\<close>

type_synonym world = "ParticleData list"

definition addParticle :: "nat \<Rightarrow> world \<Rightarrow> nat \<times> world" where
  "addParticle ty w =
    (fst (addParticle_rank 0 ty (hd w)),
     map (\<lambda>(rank, pd). snd (addParticle_rank rank ty pd)) (enumerate 0 w))"

definition removeParticle :: "nat \<Rightarrow> world \<Rightarrow> hoomd_error option \<times> world" where
  "removeParticle tag w =
    (if list_ex (\<lambda>pd. pd_nglobal pd = 0) w then
       (Some (RuntimeError ''Trying to remove particle when there are zero particles!''), w)
     else
       let w = map removeAllGhostParticles w in
       if list_ex (\<lambda>pd. tag \<ge> vec_len (pd_rtag pd)) w then
         (Some (RuntimeError ''Trying to remove particle which does not exist.''), w)
       else
         let res = sum_list (map (\<lambda>pd. if isParticleLocal pd tag then 1 else 0 :: nat) w) in
         if res = 0 then
           (Some (RuntimeError ''Trying to remove particle which has been previously removed!''), w)
         else (None, map (removeParticle_finish tag) w))"

definition getOwnerRank :: "nat \<Rightarrow> world \<Rightarrow> nat result" where
  "getOwnerRank tag w =
    (let found = sum_list (map (\<lambda>pd. if getRTag pd tag < pd_nparticles pd then 1 else 0 :: nat) w) in
     if found = 0 then Inl (RuntimeError ''Could not find particle on any processor.'')
     else if found > 1 then Inl (RuntimeError ''Found particle on multiple processors.'')
     else Inr (nat (foldr max (map (\<lambda>(rank, pd). if getRTag pd tag < pd_nparticles pd
                                              then int rank else -1) (enumerate 0 w)) (-1))))"

subsection \<open>Enumerating the active tags\<close>

definition maybe_rebuild_tag_cache :: "ParticleData \<Rightarrow> ParticleData" where
  "maybe_rebuild_tag_cache pd =
    (if \<not> pd_invalid_cached_tags pd then pd
     else pd\<lparr>pd_cached_tag_set := rebuild_cache (pd_tag_set pd) (pd_cached_tag_set pd),
             pd_invalid_cached_tags := False\<rparr>)"

definition getNthTag :: "nat \<Rightarrow> ParticleData \<Rightarrow> (nat \<times> ParticleData) result" where
  "getNthTag n pd =
    (if n \<ge> pd_nglobal pd then Inl (RuntimeError ''Particle id does not exist!'')
     else let pd = maybe_rebuild_tag_cache pd in Inr (vec_get n (pd_cached_tag_set pd), pd))"

subsection \<open>Removing and adding packed particles (communication)\<close>

text \<open>First loop of \<open>removeParticles\<close>: mark the flagged particles and count them.\<close>

fun mark_removed :: "pdata_element list \<Rightarrow> nat list \<Rightarrow> nat vec \<Rightarrow> nat vec \<times> nat" where
  "mark_removed (e # es) (f # fs) rtag =
    (if f \<noteq> 0 then
       let (r, k) = mark_removed es fs (vec_set (pe_tag e) not_local rtag) in (r, Suc k)
     else mark_removed es fs rtag)"
| "mark_removed es fs rtag = (rtag, 0)"

text \<open>Second loop: kept particles to the alternate arrays at \<open>n\<close>, the others to \<open>out\<close>.\<close>

fun split_removed ::
  "pdata_element list \<Rightarrow> nat vec \<Rightarrow> nat \<Rightarrow> pdata_element list \<Rightarrow> pdata_element list
    \<Rightarrow> pdata_element list \<times> pdata_element list" where
  "split_removed [] rtag n alt out = (alt, out)"
| "split_removed (e # es) rtag n alt out =
    (if vec_get (pe_tag e) rtag \<noteq> not_local then split_removed es rtag (Suc n) (alt[n := e]) out
     else split_removed es rtag n alt (out @ [e]))"

text \<open>The loop that recomputes the reverse lookup of the first particles.\<close>

fun recompute_rtags :: "pdata_element list \<Rightarrow> nat \<Rightarrow> nat vec \<Rightarrow> nat vec" where
  "recompute_rtags [] idx rtag = rtag"
| "recompute_rtags (e # es) idx rtag = recompute_rtags es (Suc idx) (vec_set (pe_tag e) idx rtag)"

definition removeParticles ::
  "ParticleData \<Rightarrow> pdata_element list \<times> nat list \<times> ParticleData" where
  "removeParticles pd =
    (let old = pd_nparticles pd;
         (rtag, k) = mark_removed (take old (pd_elems pd)) (take old (pd_comm_flags pd)) (pd_rtag pd);
         new = old - k;
         pd = pd_resize new (pd\<lparr>pd_rtag := rtag\<rparr>);
         (alt, out) = split_removed (take old (pd_elems pd)) (pd_rtag pd) 0 (pd_alt pd) [];
         flags = filter (\<lambda>f. f \<noteq> 0) (take old (pd_comm_flags pd));
         pd = pd\<lparr>pd_comm_flags := replicate new 0 @ drop new (pd_comm_flags pd)\<rparr>;
         pd = pd\<lparr>pd_elems := alt, pd_alt := pd_elems pd\<rparr>;
         pd = pd\<lparr>pd_rtag := recompute_rtags (take new (pd_elems pd)) 0 (pd_rtag pd)\<rparr>
     in (out, flags, pd))"

fun write_elements :: "pdata_element list \<Rightarrow> nat \<Rightarrow> pdata_element list \<Rightarrow> pdata_element list" where
  "write_elements [] n es = es"
| "write_elements (p # ps) n es = write_elements ps (Suc n) (es[n := p])"

definition addParticles :: "pdata_element list \<Rightarrow> ParticleData \<Rightarrow> ParticleData" where
  "addParticles inp pd =
    (let old = pd_nparticles pd; new = old + length inp;
         pd = pd_resize new pd;
         pd = pd\<lparr>pd_elems := write_elements inp old (pd_elems pd),
                 pd_comm_flags := take old (pd_comm_flags pd) @ replicate (length inp) 0
                                  @ drop new (pd_comm_flags pd)\<rparr>
     in pd\<lparr>pd_rtag := recompute_rtags (take new (pd_elems pd)) 0 (pd_rtag pd)\<rparr>)"

end
