(* ===== verification/Particle_Rank.thy ===== *)
theory Particle_Rank
  imports Particle_Data
begin

section \<open>The invariant of one rank's particle store\<close>

text \<open>
  The reverse lookup \<open>m_rtag\<close> is the inverse of \<open>m_tag\<close> on the local and ghost particles and
  \<open>NOT_LOCAL\<close> on all other tags, the tag pool is well formed, the cache of active tags is right
  unless it is marked invalid. Every operation of one rank keeps the invariant.
\<close>

definition lens_ok :: "ParticleData \<Rightarrow> bool" where
  "lens_ok pd \<longleftrightarrow>
    pd_arrays_allocated pd \<and> length (pd_elems pd) = pd_max_nparticles pd
    \<and> length (pd_alt pd) = pd_max_nparticles pd \<and> length (pd_comm_flags pd) = pd_max_nparticles pd"

definition tags_ok :: "ParticleData \<Rightarrow> bool" where
  "tags_ok pd \<longleftrightarrow>
    pool_wf (pd_tag_set pd) (pd_recycled_tags pd) (pd_nglobal pd)
    \<and> pd_nglobal pd + length (pd_recycled_tags pd) \<le> not_local
    \<and> vec_inv (pd_rtag pd) \<and> vec_len (pd_rtag pd) \<le> pd_nglobal pd + length (pd_recycled_tags pd)
    \<and> (\<forall>t\<in>pd_tag_set pd. t < vec_len (pd_rtag pd))
    \<and> (\<forall>t\<in>set (pd_recycled_tags pd). t < length (vec_mem (pd_rtag pd)) \<and> getRTag pd t = not_local)
    \<and> (\<not> pd_invalid_cached_tags pd \<longrightarrow>
        vec_inv (pd_cached_tag_set pd)
        \<and> vec_list (pd_cached_tag_set pd) = sorted_list_of_set (pd_tag_set pd))"

text \<open>The lookup on the first \<open>n\<close> particles.\<close>

definition rtag_ok :: "nat \<Rightarrow> ParticleData \<Rightarrow> bool" where
  "rtag_ok n pd \<longleftrightarrow>
    (\<forall>i<n. pd_tag pd i \<in> pd_tag_set pd \<and> getRTag pd (pd_tag pd i) = i)
    \<and> (\<forall>t\<in>pd_tag_set pd. getRTag pd t = not_local \<or> getRTag pd t < n \<and> pd_tag pd (getRTag pd t) = t)"

definition rank_inv :: "ParticleData \<Rightarrow> bool" where
  "rank_inv pd \<longleftrightarrow>
    lens_ok pd \<and> tags_ok pd \<and> pd_nparticles pd + pd_nghosts pd \<le> pd_max_nparticles pd
    \<and> pd_ghosts_added pd = pd_nghosts pd \<and> rtag_ok (pd_nparticles pd + pd_nghosts pd) pd"

definition local_tags :: "ParticleData \<Rightarrow> nat set" where
  "local_tags pd = pd_tag pd ` {..<pd_nparticles pd}"

subsection \<open>Resizing\<close>

lemma clear_net_simps [simp]:
  "pe_tag (clear_net e) = pe_tag e" "clear_net (clear_net e) = clear_net e"
  by (simp_all add: clear_net_def)

lemma pd_resize_frame [simp]:
  "pd_nghosts (pd_resize n pd) = pd_nghosts pd" "pd_nglobal (pd_resize n pd) = pd_nglobal pd"
  "pd_rtag (pd_resize n pd) = pd_rtag pd" "pd_tag_set (pd_resize n pd) = pd_tag_set pd"
  "pd_recycled_tags (pd_resize n pd) = pd_recycled_tags pd"
  "pd_cached_tag_set (pd_resize n pd) = pd_cached_tag_set pd"
  "pd_invalid_cached_tags (pd_resize n pd) = pd_invalid_cached_tags pd"
  "pd_type_mapping (pd_resize n pd) = pd_type_mapping pd"
  "pd_accel_set (pd_resize n pd) = pd_accel_set pd" "pd_global_box (pd_resize n pd) = pd_global_box pd"
  "pd_origin (pd_resize n pd) = pd_origin pd" "pd_o_image (pd_resize n pd) = pd_o_image pd"
  "pd_ghosts_added (pd_resize n pd) = pd_ghosts_added pd" "pd_nparticles (pd_resize n pd) = n"
  by (simp_all add: pd_resize_def pd_reallocate_def pd_allocate_def Let_def)

lemma pd_resize_lens:
  assumes "lens_ok pd"
  shows "lens_ok (pd_resize n pd)" "n \<le> pd_max_nparticles (pd_resize n pd)"
    "pd_max_nparticles pd \<le> pd_max_nparticles (pd_resize n pd)"
  using assms grow_alloc_ge [of n "pd_max_nparticles pd"]
  by (auto simp: pd_resize_def pd_reallocate_def lens_ok_def Let_def)

lemma pd_resize_elems:
  assumes "lens_ok pd" "i < pd_max_nparticles pd"
  shows "clear_net (pd_elems (pd_resize n pd) ! i) = clear_net (pd_elems pd ! i)"
proof -
  have "i < grow_alloc n (pd_max_nparticles pd)"
    using assms(2) grow_alloc_ge(2) by (rule less_le_trans)
  then show ?thesis using assms
    by (simp add: pd_resize_def pd_reallocate_def lens_ok_def Let_def resized_nth)
qed

lemma pd_resize_same:
  assumes "lens_ok pd" "n \<le> pd_max_nparticles pd"
  shows "pd_resize n pd = pd\<lparr>pd_nparticles := n\<rparr>"
  using assms by (simp add: pd_resize_def lens_ok_def Let_def)

lemma pd_tag_clear: "clear_net (pd_elems pd ! i) = clear_net (pd_elems pd' ! i) \<Longrightarrow> pd_tag pd i = pd_tag pd' i"
  unfolding pd_tag_def by (metis clear_net_simps(1))

lemma pd_resize_tag:
  "lens_ok pd \<Longrightarrow> i < pd_max_nparticles pd \<Longrightarrow> pd_tag (pd_resize n pd) i = pd_tag pd i"
  by (rule pd_tag_clear) (rule pd_resize_elems)

subsection \<open>Consequences of the invariant\<close>

lemma rtag_ok_inj:
  assumes "rtag_ok n pd" "i < n" "j < n" "pd_tag pd i = pd_tag pd j"
  shows "i = j"
  using assms unfolding rtag_ok_def by metis

lemma rtag_ok_bound:
  assumes "rtag_ok n pd" "tags_ok pd"
  shows "n \<le> pd_nglobal pd"
proof -
  have "inj_on (pd_tag pd) {..<n}" using rtag_ok_inj [OF assms(1)] by (auto intro: inj_onI)
  moreover have "pd_tag pd ` {..<n} \<subseteq> pd_tag_set pd" using assms(1) by (auto simp: rtag_ok_def)
  moreover have "finite (pd_tag_set pd)" "card (pd_tag_set pd) = pd_nglobal pd"
    using assms(2) by (auto simp: tags_ok_def pool_wf_def)
  ultimately show ?thesis by (metis card_image card_lessThan card_mono)
qed

lemma tags_ok_bound: "tags_ok pd \<Longrightarrow> pd_nglobal pd \<le> not_local"
  by (auto simp: tags_ok_def)

lemma rank_inv_bound: "rank_inv pd \<Longrightarrow> pd_nparticles pd + pd_nghosts pd \<le> not_local"
  using rtag_ok_bound tags_ok_bound unfolding rank_inv_def by (meson le_trans)

lemma tag_set_mem: "tags_ok pd \<Longrightarrow> t \<in> pd_tag_set pd \<Longrightarrow> t < length (vec_mem (pd_rtag pd))"
  unfolding tags_ok_def vec_inv_def by (meson less_le_trans)

lemma local_iff:
  assumes "rtag_ok n pd" "pd_nparticles pd \<le> n" "n \<le> not_local" "t \<in> pd_tag_set pd"
  shows "isParticleLocal pd t \<longleftrightarrow> t \<in> local_tags pd"
proof
  assume "isParticleLocal pd t"
  then have "getRTag pd t < pd_nparticles pd" by (simp add: isParticleLocal_def getRTag_def)
  moreover then have "getRTag pd t \<noteq> not_local" using assms(2,3) by linarith
  ultimately show "t \<in> local_tags pd" using assms(1,4) unfolding rtag_ok_def local_tags_def by force
next
  assume "t \<in> local_tags pd"
  then obtain i where i: "i < pd_nparticles pd" "t = pd_tag pd i" by (auto simp: local_tags_def)
  then have "getRTag pd t = i" using assms(1,2) unfolding rtag_ok_def by force
  then show "isParticleLocal pd t" using i by (simp add: isParticleLocal_def getRTag_def)
qed

subsection \<open>Removing the ghosts\<close>

lemma wipe_ghost_rtags_frame [simp]:
  "length (vec_mem (wipe_ghost_rtags es idx n r)) = length (vec_mem r)"
  "vec_len (wipe_ghost_rtags es idx n r) = vec_len r" "vec_inv (wipe_ghost_rtags es idx n r) = vec_inv r"
  by (induction es idx n r rule: wipe_ghost_rtags.induct) simp_all

lemma wipe_ghost_rtags_get:
  assumes "t < length (vec_mem r)"
  shows "vec_get t (wipe_ghost_rtags es idx n r) =
    (if \<exists>k<n. pe_tag (es ! (idx + k)) = t then not_local else vec_get t r)"
  using assms
proof (induction es idx n r rule: wipe_ghost_rtags.induct)
  case (2 es idx n rtag)
  have "(\<exists>k<Suc n. pe_tag (es ! (idx + k)) = t) \<longleftrightarrow>
      pe_tag (es ! idx) = t \<or> (\<exists>k<n. pe_tag (es ! (Suc idx + k)) = t)"
    by (auto simp: less_Suc_eq_0_disj)
  with 2 show ?case by (auto simp: vec_get_set)
qed simp

lemma removeAllGhostParticles_frame [simp]:
  "pd_nghosts (removeAllGhostParticles pd) = 0" "pd_ghosts_added (removeAllGhostParticles pd) = 0"
  "pd_nparticles (removeAllGhostParticles pd) = pd_nparticles pd"
  "pd_max_nparticles (removeAllGhostParticles pd) = pd_max_nparticles pd"
  "pd_nglobal (removeAllGhostParticles pd) = pd_nglobal pd"
  "pd_arrays_allocated (removeAllGhostParticles pd) = pd_arrays_allocated pd"
  "pd_elems (removeAllGhostParticles pd) = pd_elems pd" "pd_alt (removeAllGhostParticles pd) = pd_alt pd"
  "pd_comm_flags (removeAllGhostParticles pd) = pd_comm_flags pd"
  "pd_tag_set (removeAllGhostParticles pd) = pd_tag_set pd"
  "pd_recycled_tags (removeAllGhostParticles pd) = pd_recycled_tags pd"
  "pd_cached_tag_set (removeAllGhostParticles pd) = pd_cached_tag_set pd"
  "pd_invalid_cached_tags (removeAllGhostParticles pd) = pd_invalid_cached_tags pd"
  "pd_type_mapping (removeAllGhostParticles pd) = pd_type_mapping pd"
  "pd_tag (removeAllGhostParticles pd) = pd_tag pd"
  "vec_len (pd_rtag (removeAllGhostParticles pd)) = vec_len (pd_rtag pd)"
  "local_tags (removeAllGhostParticles pd) = local_tags pd"
  by (auto simp: removeAllGhostParticles_def slotGhostParticlesRemoved_def pd_tag_def local_tags_def fun_eq_iff)

lemma removeAllGhostParticles_rtag:
  assumes inv: "rank_inv pd" and t: "t < length (vec_mem (pd_rtag pd))" "t \<in> pd_tag_set pd"
  shows "getRTag (removeAllGhostParticles pd) t =
    (if getRTag pd t < pd_nparticles pd then getRTag pd t else not_local)"
proof -
  let ?N = "pd_nparticles pd" and ?g = "pd_nghosts pd"
  have ok: "rtag_ok (?N + ?g) pd" and g: "pd_ghosts_added pd = ?g"
    using inv by (auto simp: rank_inv_def)
  have r: "pd_rtag (removeAllGhostParticles pd)
      = wipe_ghost_rtags (pd_elems pd) ?N (pd_ghosts_added pd) (pd_rtag pd)"
    by (simp add: removeAllGhostParticles_def slotGhostParticlesRemoved_def)
  have "getRTag (removeAllGhostParticles pd) t =
      (if \<exists>k<?g. pd_tag pd (?N + k) = t then not_local else getRTag pd t)"
    unfolding getRTag_def r pd_tag_def g by (rule wipe_ghost_rtags_get [OF t(1)])
  moreover have "getRTag pd t = ?N + k" if "k < ?g" "pd_tag pd (?N + k) = t" for k
    using that ok unfolding rtag_ok_def by force
  moreover have "\<exists>k<?g. pd_tag pd (?N + k) = t" if "getRTag pd t \<noteq> not_local" "\<not> getRTag pd t < ?N"
  proof -
    have "getRTag pd t < ?N + ?g" "pd_tag pd (getRTag pd t) = t"
      using ok t(2) that(1) unfolding rtag_ok_def by blast+
    then show ?thesis using that(2) by (intro exI [of _ "getRTag pd t - ?N"]) auto
  qed
  moreover have "not_local \<ge> ?N" using rank_inv_bound [OF inv] by simp
  ultimately show ?thesis by (smt (verit) add_leE leD le_add1 not_less)
qed

lemma removeAllGhostParticles_rtag_recycled:
  assumes "t < length (vec_mem (pd_rtag pd))" "getRTag pd t = not_local"
  shows "getRTag (removeAllGhostParticles pd) t = not_local"
  using assms by (simp add: getRTag_def removeAllGhostParticles_def slotGhostParticlesRemoved_def
      wipe_ghost_rtags_get)

lemma removeAllGhostParticles_mem [simp]:
  "length (vec_mem (pd_rtag (removeAllGhostParticles pd))) = length (vec_mem (pd_rtag pd))"
  "vec_inv (pd_rtag (removeAllGhostParticles pd)) = vec_inv (pd_rtag pd)"
  by (simp_all add: removeAllGhostParticles_def slotGhostParticlesRemoved_def)

lemma removeAllGhostParticles_inv:
  assumes inv: "rank_inv pd"
  shows "rank_inv (removeAllGhostParticles pd)"
proof -
  let ?p = "removeAllGhostParticles pd"
  have tags: "tags_ok pd" and ok: "rtag_ok (pd_nparticles pd + pd_nghosts pd) pd"
    using inv by (auto simp: rank_inv_def)
  have "tags_ok ?p"
    using tags removeAllGhostParticles_rtag_recycled [of _ pd] by (auto simp: tags_ok_def)
  moreover have "rtag_ok (pd_nparticles pd) ?p"
    using ok removeAllGhostParticles_rtag [OF inv tag_set_mem [OF tags]]
    unfolding rtag_ok_def by auto
  ultimately show ?thesis using inv by (auto simp: rank_inv_def lens_ok_def)
qed


subsection \<open>Adding a particle\<close>

text \<open>The record behind a tag, as a client reads it through the reverse lookup.\<close>

definition look :: "ParticleData \<Rightarrow> nat \<Rightarrow> pdata_element" where
  "look pd t = pd_elems pd ! getRTag pd t"

text \<open>The part of \<open>addParticle\<close> that every rank performs.\<close>

definition register_tag :: "nat \<Rightarrow> nat list \<Rightarrow> nat \<Rightarrow> ParticleData \<Rightarrow> ParticleData" where
  "register_tag tag rec' x pd =
    pd\<lparr>pd_recycled_tags := rec', pd_tag_set := insert tag (pd_tag_set pd),
       pd_invalid_cached_tags := True,
       pd_rtag := vec_set tag x (vec_resize 0 (Max (insert tag (pd_tag_set pd)) + 1) (pd_rtag pd)),
       pd_nglobal := pd_nglobal pd + 1\<rparr>"

lemma addParticle_rank_alt:
  assumes "take_tag (pd_recycled_tags pd) (pd_nglobal pd) = (tag, rec')"
  shows "addParticle_rank r ty pd =
    (tag, let P = register_tag tag rec' (if r = 0 then pd_nparticles pd else not_local)
                    (removeAllGhostParticles pd)
          in if r = 0 then append_default ty tag P else P)"
  using assms
  by (simp add: addParticle_rank_def register_tag_def append_default_def pd_resize_def
      pd_reallocate_def pd_allocate_def setNGlobal_def getMaximumTag_def Let_def)

lemma register_tag_rtag:
  assumes "t < length (vec_mem (pd_rtag pd)) \<or> t = tag" "finite (pd_tag_set pd)"
  shows "getRTag (register_tag tag rec' x pd) t = (if t = tag then x else getRTag pd t)"
proof -
  let ?v = "vec_resize 0 (Max (insert tag (pd_tag_set pd)) + 1) (pd_rtag pd)"
  have "tag \<le> Max (insert tag (pd_tag_set pd))" using assms(2) by simp
  then have "tag < vec_len ?v" by simp
  then have "tag < length (vec_mem ?v)" using vec_resize_inv [unfolded vec_inv_def] by (rule less_le_trans)
  then show ?thesis using assms(1) vec_resize_get [of t "pd_rtag pd" 0]
    by (auto simp: getRTag_def register_tag_def vec_get_set simp del: vec_resize_len)
qed

lemma register_tag_fields [simp]:
  "pd_tag_set (register_tag tag rec' x pd) = insert tag (pd_tag_set pd)"
  "pd_recycled_tags (register_tag tag rec' x pd) = rec'"
  "pd_nglobal (register_tag tag rec' x pd) = Suc (pd_nglobal pd)"
  "pd_elems (register_tag tag rec' x pd) = pd_elems pd" "pd_alt (register_tag tag rec' x pd) = pd_alt pd"
  "pd_comm_flags (register_tag tag rec' x pd) = pd_comm_flags pd"
  "pd_nparticles (register_tag tag rec' x pd) = pd_nparticles pd"
  "pd_nghosts (register_tag tag rec' x pd) = pd_nghosts pd"
  "pd_ghosts_added (register_tag tag rec' x pd) = pd_ghosts_added pd"
  "pd_max_nparticles (register_tag tag rec' x pd) = pd_max_nparticles pd"
  "pd_type_mapping (register_tag tag rec' x pd) = pd_type_mapping pd"
  "pd_tag (register_tag tag rec' x pd) = pd_tag pd"
  "lens_ok (register_tag tag rec' x pd) = lens_ok pd"
  "local_tags (register_tag tag rec' x pd) = local_tags pd"
  "vec_len (pd_rtag (register_tag tag rec' x pd)) = Suc (Max (insert tag (pd_tag_set pd)))"
  by (auto simp: register_tag_def pd_tag_def lens_ok_def local_tags_def fun_eq_iff)

lemma vec_resize_mem_le: "length (vec_mem v) \<le> length (vec_mem (vec_resize z n v))"
  by (auto simp: vec_resize_def vec_reallocate_def Let_def intro: grow_alloc_ge le_trans)

lemma register_tag_tags:
  assumes ok: "tags_ok pd" and t: "take_tag (pd_recycled_tags pd) (pd_nglobal pd) = (tag, rec')"
    and room: "pd_recycled_tags pd \<noteq> [] \<or> pd_nglobal pd < not_local"
  shows "tags_ok (register_tag tag rec' x pd)"
proof -
  note o = ok [unfolded tags_ok_def]
  note p = pool_wf_take [OF conjunct1 [OF o] t]
  have fin: "finite (pd_tag_set pd)" using o by (simp add: pool_wf_def)
  have "Max (insert tag (pd_tag_set pd)) \<in> insert tag (pd_tag_set pd)" using fin by (intro Max_in) auto
  then have m: "Max (insert tag (pd_tag_set pd)) < Suc (pd_nglobal pd) + length rec'"
    using pool_active_less [OF p(2)] by blast
  have "t < length (vec_mem (pd_rtag (register_tag tag rec' x pd)))
      \<and> getRTag (register_tag tag rec' x pd) t = not_local" if "t \<in> set rec'" for t
  proof -
    have "t < length (vec_mem (pd_rtag pd))" "getRTag pd t = not_local" using o p(5) that by blast+
    then show ?thesis using that p(6) register_tag_rtag [of t pd tag rec' x] fin
        vec_resize_mem_le [of "pd_rtag pd" 0 "Max (insert tag (pd_tag_set pd)) + 1"]
      by (auto simp: register_tag_def)
  qed
  moreover have "u < vec_len (pd_rtag (register_tag tag rec' x pd))" if "u \<in> insert tag (pd_tag_set pd)" for u
    using Max_ge [OF _ that] fin by (simp only: register_tag_fields less_Suc_eq_le finite_insert)
  moreover have "vec_len (pd_rtag (register_tag tag rec' x pd)) \<le> Suc (pd_nglobal pd) + length rec'"
    using m by (simp only: register_tag_fields Suc_le_eq)
  moreover have "Suc (pd_nglobal pd) + length rec' \<le> not_local"
    using p(4) o room by (simp split: if_splits)
  moreover have "vec_inv (pd_rtag (register_tag tag rec' x pd))" by (simp add: register_tag_def)
  moreover have "pd_invalid_cached_tags (register_tag tag rec' x pd)" by (simp add: register_tag_def)
  ultimately show ?thesis using p(2) unfolding tags_ok_def by (simp only: register_tag_fields) blast
qed

lemma append_default_fields:
  assumes "lens_ok pd"
  shows "lens_ok (append_default ty tag pd)" "pd_nparticles (append_default ty tag pd) = Suc (pd_nparticles pd)"
    "Suc (pd_nparticles pd) \<le> pd_max_nparticles (append_default ty tag pd)"
    "pd_tag_set (append_default ty tag pd) = pd_tag_set pd"
    "pd_recycled_tags (append_default ty tag pd) = pd_recycled_tags pd"
    "pd_nglobal (append_default ty tag pd) = pd_nglobal pd" "pd_rtag (append_default ty tag pd) = pd_rtag pd"
    "pd_nghosts (append_default ty tag pd) = pd_nghosts pd"
    "pd_ghosts_added (append_default ty tag pd) = pd_ghosts_added pd"
    "pd_type_mapping (append_default ty tag pd) = pd_type_mapping pd"
    "tags_ok (append_default ty tag pd) = tags_ok pd"
    "getRTag (append_default ty tag pd) = getRTag pd"
  using pd_resize_lens [OF assms, of "Suc (pd_nparticles pd)"]
  by (auto simp: append_default_def Let_def lens_ok_def tags_ok_def getRTag_def fun_eq_iff)

lemma append_default_elems:
  assumes "lens_ok pd" "pd_nparticles pd \<le> pd_max_nparticles pd"
  shows "i < pd_nparticles pd \<Longrightarrow>
      clear_net (pd_elems (append_default ty tag pd) ! i) = clear_net (pd_elems pd ! i)"
    "clear_net (pd_elems (append_default ty tag pd) ! pd_nparticles pd)
      = default_element ty tag (clear_net zero_element)"
proof -
  let ?n = "pd_nparticles pd" and ?q = "pd_resize (Suc (pd_nparticles pd)) pd"
  have len: "?n < length (pd_elems ?q)"
    using pd_resize_lens [OF assms(1), of "Suc ?n"] by (simp add: lens_ok_def)
  have "pd_elems (append_default ty tag pd)
      = (pd_elems ?q)[?n := default_element ty tag (pd_elems ?q ! ?n)]"
    by (simp add: append_default_def Let_def)
  then show "i < ?n \<Longrightarrow> clear_net (pd_elems (append_default ty tag pd) ! i) = clear_net (pd_elems pd ! i)"
    "clear_net (pd_elems (append_default ty tag pd) ! ?n) = default_element ty tag (clear_net zero_element)"
    using len assms pd_resize_elems [OF assms(1), of i "Suc ?n"]
    by (simp_all add: default_element_def clear_net_def zero_element_def)
qed

lemma append_default_tag:
  assumes "lens_ok pd" "pd_nparticles pd \<le> pd_max_nparticles pd"
  shows "i < pd_nparticles pd \<Longrightarrow> pd_tag (append_default ty tag pd) i = pd_tag pd i"
    "pd_tag (append_default ty tag pd) (pd_nparticles pd) = tag"
proof -
  show "i < pd_nparticles pd \<Longrightarrow> pd_tag (append_default ty tag pd) i = pd_tag pd i"
    using append_default_elems(1) [OF assms] by (intro pd_tag_clear) simp
  show "pd_tag (append_default ty tag pd) (pd_nparticles pd) = tag"
    using append_default_elems(2) [OF assms, of ty tag, THEN arg_cong [where f = pe_tag]]
    by (simp add: pd_tag_def default_element_def)
qed


lemma register_tag_rtag_ok:
  assumes inv: "rank_inv pd" and ng: "pd_nghosts pd = 0" and tag: "tag \<notin> pd_tag_set pd"
  shows "\<forall>i<pd_nparticles pd. pd_tag pd i \<in> pd_tag_set pd \<and> getRTag (register_tag tag rec' x pd) (pd_tag pd i) = i"
    "\<forall>t\<in>pd_tag_set pd. getRTag (register_tag tag rec' x pd) t = getRTag pd t"
    "getRTag (register_tag tag rec' x pd) tag = x"
proof -
  have tags: "tags_ok pd" and ok: "rtag_ok (pd_nparticles pd) pd" using inv ng by (auto simp: rank_inv_def)
  have fin: "finite (pd_tag_set pd)" using tags by (auto simp: tags_ok_def pool_wf_def)
  show r: "\<forall>t\<in>pd_tag_set pd. getRTag (register_tag tag rec' x pd) t = getRTag pd t"
  proof
    fix t assume "t \<in> pd_tag_set pd"
    then show "getRTag (register_tag tag rec' x pd) t = getRTag pd t"
      using register_tag_rtag [of t pd tag rec' x] tag_set_mem [OF tags] fin tag by auto
  qed
  show "getRTag (register_tag tag rec' x pd) tag = x" using register_tag_rtag [of tag pd tag rec' x] fin by simp
  show "\<forall>i<pd_nparticles pd. pd_tag pd i \<in> pd_tag_set pd \<and> getRTag (register_tag tag rec' x pd) (pd_tag pd i) = i"
    using ok r by (simp add: rtag_ok_def)
qed

lemma addParticle_other_rank:
  fixes ty :: nat
  assumes inv: "rank_inv pd" and t: "take_tag (pd_recycled_tags pd) (pd_nglobal pd) = (tag, rec')"
    and room: "pd_recycled_tags pd \<noteq> [] \<or> pd_nglobal pd < not_local" and r: "r \<noteq> 0"
  defines "pd' \<equiv> snd (addParticle_rank r ty pd)"
  shows "rank_inv pd'" "local_tags pd' = local_tags pd"
    "u \<in> local_tags pd \<Longrightarrow> clear_net (look pd' u) = clear_net (look pd u)"
proof -
  let ?q = "removeAllGhostParticles pd"
  have q: "rank_inv ?q" using inv by (rule removeAllGhostParticles_inv)
  have q_tags: "tags_ok ?q" and q_ok: "rtag_ok (pd_nparticles pd) ?q" using q by (auto simp: rank_inv_def)
  have pd': "pd' = register_tag tag rec' not_local ?q"
    using addParticle_rank_alt [OF t, of r ty] r by (simp add: pd'_def)
  have new: "tag \<notin> pd_tag_set pd"
    using pool_wf_take(1) [OF _ t] inv by (auto simp: rank_inv_def tags_ok_def)
  note ro = register_tag_rtag_ok [OF q _ , of tag rec' not_local, simplified, OF new]
  have "rtag_ok (pd_nparticles pd) pd'" using ro q_ok unfolding pd' rtag_ok_def by auto
  moreover have "tags_ok pd'" unfolding pd' using q_tags t room by (intro register_tag_tags) simp_all
  ultimately show "rank_inv pd'" using q unfolding pd' by (simp add: rank_inv_def)
  show lt: "local_tags pd' = local_tags pd" by (simp add: pd')
  show "clear_net (look pd' u) = clear_net (look pd u)" if u: "u \<in> local_tags pd"
  proof -
    have "u \<in> pd_tag_set pd" "getRTag ?q u = getRTag pd u"
      using u inv removeAllGhostParticles_rtag [OF inv tag_set_mem]
      by (auto simp: local_tags_def rank_inv_def rtag_ok_def)
    then show ?thesis using ro(2) by (simp add: look_def pd')
  qed
qed

lemma addParticle_rank0:
  fixes ty :: nat
  assumes inv: "rank_inv pd" and t: "take_tag (pd_recycled_tags pd) (pd_nglobal pd) = (tag, rec')"
    and room: "pd_recycled_tags pd \<noteq> [] \<or> pd_nglobal pd < not_local"
  defines "pd' \<equiv> snd (addParticle_rank 0 ty pd)"
  shows "rank_inv pd'" "local_tags pd' = insert tag (local_tags pd)"
    "u \<in> local_tags pd \<Longrightarrow> clear_net (look pd' u) = clear_net (look pd u)"
    "clear_net (look pd' tag) = default_element ty tag (clear_net zero_element)"
proof -
  let ?q = "removeAllGhostParticles pd" and ?N = "pd_nparticles pd"
  let ?p = "register_tag tag rec' ?N ?q"
  have q: "rank_inv ?q" using inv by (rule removeAllGhostParticles_inv)
  have q_tags: "tags_ok ?q" and q_ok: "rtag_ok ?N ?q" and len: "lens_ok ?p" "?N \<le> pd_max_nparticles pd"
    using q inv by (auto simp: rank_inv_def)
  have pd': "pd' = append_default ty tag ?p"
    using addParticle_rank_alt [OF t, of 0 ty] by (simp add: pd'_def)
  have new: "tag \<notin> pd_tag_set pd"
    using pool_wf_take(1) [OF _ t] inv by (auto simp: rank_inv_def tags_ok_def)
  note ro = register_tag_rtag_ok [OF q _ , of tag rec' ?N, simplified, OF new]
  note app = append_default_fields [OF len(1), where ty = ty and tag = tag]
    append_default_elems [OF len(1), where ty = ty and tag = tag]
    append_default_tag [OF len(1), where ty = ty and tag = tag]
  have tagi: "pd_tag pd' i = pd_tag pd i" if "i < ?N" for i using app len(2) that by (simp add: pd')
  have tagN: "pd_tag pd' ?N = tag" using app(15,16) len(2) by (simp add: pd')
  have rt: "getRTag pd' = getRTag ?p" using app(12) by (simp add: pd')
  have ts: "pd_tag_set pd' = insert tag (pd_tag_set pd)" using app(4) by (simp add: pd')
  have "rtag_ok (Suc ?N) pd'"
    unfolding rtag_ok_def
  proof (intro conjI allI impI ballI)
    fix i assume "i < Suc ?N"
    then show "pd_tag pd' i \<in> pd_tag_set pd'" "getRTag pd' (pd_tag pd' i) = i"
      using ro tagi tagN rt ts by (auto simp: less_Suc_eq)
  next
    fix u assume "u \<in> pd_tag_set pd'"
    then show "getRTag pd' u = not_local \<or> getRTag pd' u < Suc ?N \<and> pd_tag pd' (getRTag pd' u) = u"
      using ro(2,3) tagi tagN q_ok by (auto simp: rt ts rtag_ok_def less_Suc_eq)
  qed
  moreover have "tags_ok ?p" using q_tags t room by (intro register_tag_tags) simp_all
  ultimately show "rank_inv pd'" using app(1,2,3,8,9,11) unfolding pd' by (simp add: rank_inv_def)
  show "local_tags pd' = insert tag (local_tags pd)"
    using tagi tagN app(2) by (auto simp: local_tags_def pd' lessThan_Suc)
  show "clear_net (look pd' tag) = default_element ty tag (clear_net zero_element)"
    using app(14) len(2) ro(3) rt by (simp add: look_def pd')
  show "clear_net (look pd' u) = clear_net (look pd u)" if u: "u \<in> local_tags pd"
  proof -
    have "u \<in> pd_tag_set pd" "getRTag ?q u = getRTag pd u" "getRTag pd u < ?N"
      using u inv removeAllGhostParticles_rtag [OF inv tag_set_mem]
      by (auto simp: local_tags_def rank_inv_def rtag_ok_def)
    then show ?thesis using ro(2) app(13) len(2) rt by (simp add: look_def pd')
  qed
qed


subsection \<open>Removing a particle\<close>

text \<open>What \<open>removeParticle\<close> carries over for the particle it moves: all but the angular momentum, the
  moments of inertia and the net force, torque and virial.\<close>

definition moved_view :: "pdata_element \<Rightarrow> pdata_element" where
  "moved_view e = (clear_net e)\<lparr>pe_angmom := (0, 0, 0, 0), pe_inertia := (0, 0, 0)\<rparr>"

lemma moved_view_move [simp]: "moved_view (move_element src dst) = moved_view src"
  by (simp add: moved_view_def move_element_def clear_net_def)

lemma moved_view_clear: "clear_net a = clear_net b \<Longrightarrow> moved_view a = moved_view b"
  by (simp add: moved_view_def)

lemma pe_tag_move [simp]: "pe_tag (move_element src dst) = pe_tag src"
  by (simp add: move_element_def)

lemma close_gap_fields:
  assumes len: "lens_ok pd" and N: "pd_nparticles pd \<le> pd_max_nparticles pd" and idx: "idx < pd_nparticles pd"
  shows "lens_ok (close_gap idx pd)" "pd_nparticles (close_gap idx pd) = pd_nparticles pd - 1"
    "pd_max_nparticles (close_gap idx pd) = pd_max_nparticles pd"
    "pd_nghosts (close_gap idx pd) = pd_nghosts pd" "pd_ghosts_added (close_gap idx pd) = pd_ghosts_added pd"
    "pd_tag_set (close_gap idx pd) = pd_tag_set pd" "pd_recycled_tags (close_gap idx pd) = pd_recycled_tags pd"
    "pd_nglobal (close_gap idx pd) = pd_nglobal pd" "pd_type_mapping (close_gap idx pd) = pd_type_mapping pd"
    "vec_len (pd_rtag (close_gap idx pd)) = vec_len (pd_rtag pd)"
    "length (vec_mem (pd_rtag (close_gap idx pd))) = length (vec_mem (pd_rtag pd))"
    "vec_inv (pd_rtag (close_gap idx pd)) = vec_inv (pd_rtag pd)"
    "\<And>i. i < pd_nparticles pd - 1 \<Longrightarrow>
      pd_tag (close_gap idx pd) i = pd_tag pd (gap_source idx (pd_nparticles pd) i)"
    "\<And>i. i < pd_nparticles pd - 1 \<Longrightarrow> moved_view (pd_elems (close_gap idx pd) ! i)
      = moved_view (pd_elems pd ! gap_source idx (pd_nparticles pd) i)"
    "\<And>t. t < length (vec_mem (pd_rtag pd)) \<Longrightarrow> getRTag (close_gap idx pd) t =
      (if idx < pd_nparticles pd - 1 \<and> t = pd_tag pd (pd_nparticles pd - 1) then idx else getRTag pd t)"
proof -
  let ?n = "pd_nparticles pd"
  let ?q = "if idx < ?n - 1 then
       let es = (pd_elems pd)[idx := move_element (pd_elems pd ! (?n - 1)) (pd_elems pd ! idx)]
       in pd\<lparr>pd_elems := es, pd_comm_flags := (pd_comm_flags pd)[idx := pd_comm_flags pd ! (?n - 1)],
             pd_rtag := vec_set (pe_tag (es ! (?n - 1))) idx (pd_rtag pd)\<rparr>
       else pd"
  have q: "lens_ok ?q" "pd_max_nparticles ?q = pd_max_nparticles pd"
    using len by (auto simp: lens_ok_def Let_def)
  have c: "close_gap idx pd = ?q\<lparr>pd_nparticles := ?n - 1\<rparr>"
    unfolding close_gap_def Let_def [of ?n] Let_def [of ?q] using q N by (intro pd_resize_same) auto
  have el: "idx < length (pd_elems pd)" using len N idx by (simp add: lens_ok_def)
  show "lens_ok (close_gap idx pd)" using q(1) unfolding c by (simp add: lens_ok_def)
  show "pd_nparticles (close_gap idx pd) = ?n - 1" "pd_max_nparticles (close_gap idx pd) = pd_max_nparticles pd"
    "pd_nghosts (close_gap idx pd) = pd_nghosts pd" "pd_ghosts_added (close_gap idx pd) = pd_ghosts_added pd"
    "pd_tag_set (close_gap idx pd) = pd_tag_set pd" "pd_recycled_tags (close_gap idx pd) = pd_recycled_tags pd"
    "pd_nglobal (close_gap idx pd) = pd_nglobal pd" "pd_type_mapping (close_gap idx pd) = pd_type_mapping pd"
    "vec_len (pd_rtag (close_gap idx pd)) = vec_len (pd_rtag pd)"
    "length (vec_mem (pd_rtag (close_gap idx pd))) = length (vec_mem (pd_rtag pd))"
    "vec_inv (pd_rtag (close_gap idx pd)) = vec_inv (pd_rtag pd)"
    unfolding c by (simp_all add: Let_def)
  show "i < ?n - 1 \<Longrightarrow> pd_tag (close_gap idx pd) i = pd_tag pd (gap_source idx ?n i)"
    and "i < ?n - 1 \<Longrightarrow> moved_view (pd_elems (close_gap idx pd) ! i) = moved_view (pd_elems pd ! gap_source idx ?n i)" for i
    using el unfolding c by (auto simp: Let_def pd_tag_def gap_source_def nth_list_update)
  show "t < length (vec_mem (pd_rtag pd)) \<Longrightarrow> getRTag (close_gap idx pd) t =
      (if idx < ?n - 1 \<and> t = pd_tag pd (?n - 1) then idx else getRTag pd t)" for t
    using el unfolding c by (auto simp: Let_def getRTag_def vec_get_set pd_tag_def)
qed

text \<open>The state behind the move, seen from the store before it.\<close>

definition forget_tag :: "nat \<Rightarrow> ParticleData \<Rightarrow> ParticleData" where
  "forget_tag tag pd = pd\<lparr>pd_rtag := vec_set tag not_local (pd_rtag pd)\<rparr>"

definition without_particle :: "nat \<Rightarrow> ParticleData \<Rightarrow> ParticleData" where
  "without_particle tag pd =
    (if isParticleLocal pd tag then close_gap (getRTag pd tag) (forget_tag tag pd) else forget_tag tag pd)"

lemma removeParticle_finish_alt:
  "removeParticle_finish tag pd = (without_particle tag pd)
    \<lparr>pd_tag_set := pd_tag_set (without_particle tag pd) - {tag},
     pd_recycled_tags := tag # pd_recycled_tags (without_particle tag pd),
     pd_invalid_cached_tags := True, pd_nglobal := pd_nglobal (without_particle tag pd) - 1\<rparr>"
  by (simp add: removeParticle_finish_def without_particle_def forget_tag_def isParticleLocal_def
      getRTag_def setNGlobal_def Let_def)

lemma forget_tag_fields [simp]:
  "lens_ok (forget_tag tag pd) = lens_ok pd" "pd_nparticles (forget_tag tag pd) = pd_nparticles pd"
  "pd_max_nparticles (forget_tag tag pd) = pd_max_nparticles pd" "pd_elems (forget_tag tag pd) = pd_elems pd"
  "pd_nghosts (forget_tag tag pd) = pd_nghosts pd" "pd_ghosts_added (forget_tag tag pd) = pd_ghosts_added pd"
  "pd_tag_set (forget_tag tag pd) = pd_tag_set pd" "pd_recycled_tags (forget_tag tag pd) = pd_recycled_tags pd"
  "pd_nglobal (forget_tag tag pd) = pd_nglobal pd" "pd_type_mapping (forget_tag tag pd) = pd_type_mapping pd"
  "pd_tag (forget_tag tag pd) = pd_tag pd" "vec_len (pd_rtag (forget_tag tag pd)) = vec_len (pd_rtag pd)"
  "length (vec_mem (pd_rtag (forget_tag tag pd))) = length (vec_mem (pd_rtag pd))"
  "vec_inv (pd_rtag (forget_tag tag pd)) = vec_inv (pd_rtag pd)"
  by (auto simp: forget_tag_def lens_ok_def pd_tag_def fun_eq_iff)

lemma forget_tag_rtag:
  "tag < length (vec_mem (pd_rtag pd)) \<Longrightarrow>
    getRTag (forget_tag tag pd) t = (if t = tag then not_local else getRTag pd t)"
  by (simp add: getRTag_def forget_tag_def vec_get_set)

lemma without_particle_fields:
  assumes inv: "rank_inv pd"
  shows "lens_ok (without_particle tag pd)"
    "pd_nparticles (without_particle tag pd) = (if isParticleLocal pd tag then pd_nparticles pd - 1 else pd_nparticles pd)"
    "pd_max_nparticles (without_particle tag pd) = pd_max_nparticles pd"
    "pd_nghosts (without_particle tag pd) = pd_nghosts pd"
    "pd_ghosts_added (without_particle tag pd) = pd_ghosts_added pd"
    "pd_tag_set (without_particle tag pd) = pd_tag_set pd"
    "pd_recycled_tags (without_particle tag pd) = pd_recycled_tags pd"
    "pd_nglobal (without_particle tag pd) = pd_nglobal pd"
    "pd_type_mapping (without_particle tag pd) = pd_type_mapping pd"
    "vec_len (pd_rtag (without_particle tag pd)) = vec_len (pd_rtag pd)"
    "length (vec_mem (pd_rtag (without_particle tag pd))) = length (vec_mem (pd_rtag pd))"
    "vec_inv (pd_rtag (without_particle tag pd)) = vec_inv (pd_rtag pd)"
  using inv close_gap_fields(1-12) [of "forget_tag tag pd" "getRTag pd tag"]
  by (auto simp: without_particle_def rank_inv_def isParticleLocal_def getRTag_def)

text \<open>The facts about the lookup that the invariant gives, when there are no ghosts.\<close>

lemma rank_lookup:
  assumes inv: "rank_inv pd" and ng: "pd_nghosts pd = 0"
  shows "i < pd_nparticles pd \<Longrightarrow> pd_tag pd i \<in> pd_tag_set pd \<and> getRTag pd (pd_tag pd i) = i"
    "t \<in> pd_tag_set pd \<Longrightarrow> getRTag pd t \<noteq> not_local \<Longrightarrow>
      getRTag pd t < pd_nparticles pd \<and> pd_tag pd (getRTag pd t) = t"
    "pd_nparticles pd \<le> not_local"
    "t \<in> pd_tag_set pd \<Longrightarrow> isParticleLocal pd t \<longleftrightarrow> getRTag pd t \<noteq> not_local"
    "t \<in> set (pd_recycled_tags pd) \<Longrightarrow>
      t < length (vec_mem (pd_rtag pd)) \<and> getRTag pd t = not_local \<and> t \<notin> pd_tag_set pd"
proof -
  have ok: "rtag_ok (pd_nparticles pd) pd" and tags: "tags_ok pd" using inv ng by (auto simp: rank_inv_def)
  show b: "pd_nparticles pd \<le> not_local" using rank_inv_bound [OF inv] ng by simp
  show "i < pd_nparticles pd \<Longrightarrow> pd_tag pd i \<in> pd_tag_set pd \<and> getRTag pd (pd_tag pd i) = i"
    using ok by (simp add: rtag_ok_def)
  show c: "t \<in> pd_tag_set pd \<Longrightarrow> getRTag pd t \<noteq> not_local \<Longrightarrow>
      getRTag pd t < pd_nparticles pd \<and> pd_tag pd (getRTag pd t) = t" for t
    using ok by (auto simp: rtag_ok_def)
  show "t \<in> pd_tag_set pd \<Longrightarrow> isParticleLocal pd t \<longleftrightarrow> getRTag pd t \<noteq> not_local"
    using b c [of t] by (auto simp: isParticleLocal_def getRTag_def)
  show "t \<in> set (pd_recycled_tags pd) \<Longrightarrow>
      t < length (vec_mem (pd_rtag pd)) \<and> getRTag pd t = not_local \<and> t \<notin> pd_tag_set pd"
    using tags by (auto simp: tags_ok_def pool_wf_def)
qed

lemma without_particle_lookup:
  assumes inv: "rank_inv pd" and ng: "pd_nghosts pd = 0" and tag: "tag \<in> pd_tag_set pd"
  defines "q \<equiv> without_particle tag pd"
  shows "i < pd_nparticles q \<Longrightarrow> pd_tag q i \<in> pd_tag_set pd - {tag} \<and> getRTag q (pd_tag q i) = i
      \<and> moved_view (pd_elems q ! i) = moved_view (pd_elems pd ! getRTag pd (pd_tag q i))"
    "t \<in> pd_tag_set pd - {tag} \<Longrightarrow> getRTag pd t \<noteq> not_local \<Longrightarrow>
      getRTag q t < pd_nparticles q \<and> pd_tag q (getRTag q t) = t"
    "t \<in> pd_tag_set pd \<Longrightarrow> getRTag pd t = not_local \<Longrightarrow> getRTag q t = not_local"
    "getRTag q tag = not_local" "u \<in> set (pd_recycled_tags pd) \<Longrightarrow> getRTag q u = not_local"
proof -
  let ?N = "pd_nparticles pd" and ?k = "getRTag pd tag" and ?f = "forget_tag tag pd"
  have tags: "tags_ok pd" and len: "lens_ok pd" "?N \<le> pd_max_nparticles pd"
    using inv ng by (auto simp: rank_inv_def)
  note lk = rank_lookup [OF inv ng] and mem = tag_set_mem [OF tags]
  have f: "getRTag ?f t = (if t = tag then not_local else getRTag pd t)" for t
    using forget_tag_rtag mem [OF tag] by simp
  have "(\<forall>i<pd_nparticles q. pd_tag q i \<in> pd_tag_set pd - {tag} \<and> getRTag q (pd_tag q i) = i
      \<and> moved_view (pd_elems q ! i) = moved_view (pd_elems pd ! getRTag pd (pd_tag q i)))
    \<and> (\<forall>t. t \<in> pd_tag_set pd - {tag} \<longrightarrow> getRTag pd t \<noteq> not_local \<longrightarrow>
        getRTag q t < pd_nparticles q \<and> pd_tag q (getRTag q t) = t)
    \<and> (\<forall>t. t \<in> pd_tag_set pd \<longrightarrow> getRTag pd t = not_local \<longrightarrow> getRTag q t = not_local)
    \<and> getRTag q tag = not_local \<and> (\<forall>u\<in>set (pd_recycled_tags pd). getRTag q u = not_local)"
  proof (cases "isParticleLocal pd tag")
    case False
    then have q: "q = ?f" and k: "?k = not_local" using lk(4) [OF tag] by (auto simp: q_def without_particle_def)
    have "pd_tag pd i \<noteq> tag" if "i < ?N" for i using lk(1) [OF that] lk(3) k that by auto
    then show ?thesis unfolding q using lk by (auto simp: f)
  next
    case True
    then have k: "?k < ?N" using lk(2) [OF tag] lk(4) [OF tag] by simp
    have q: "q = close_gap ?k ?f" using True by (simp add: q_def without_particle_def)
    note g = close_gap_fields [of ?f ?k, simplified, OF len k, folded q]
    have rq: "getRTag q t = (if ?k < ?N - 1 \<and> t = pd_tag pd (?N - 1) then ?k
        else if t = tag then not_local else getRTag pd t)" if "t < length (vec_mem (pd_rtag pd))" for t
      using g(15) [OF that] unfolding f by simp
    have tq: "pd_tag q i = pd_tag pd (gap_source ?k ?N i)" if "i < ?N - 1" for i
      using g(13) that by simp
    note gc = gap_closed [of ?N "pd_tag pd" "pd_tag_set pd" "getRTag pd" not_local ?k tag "pd_tag q" "getRTag q",
      OF lk(1) lk(2) lk(3) k refl tag tq rq [OF mem]]
    have gc1: "pd_tag q i \<in> pd_tag_set pd - {tag} \<and> getRTag q (pd_tag q i) = i
        \<and> getRTag pd (pd_tag q i) = gap_source ?k ?N i" if "i < ?N - 1" for i
      by (rule gc(1)) (use that in simp_all)
    have gc2: "getRTag q t < ?N - 1 \<and> pd_tag q (getRTag q t) = t"
      if "t \<in> pd_tag_set pd - {tag}" "getRTag pd t \<noteq> not_local" for t
      by (rule gc(2)) (use that in simp_all)
    have gc3: "getRTag q t = not_local" if "t \<in> pd_tag_set pd" "getRTag pd t = not_local" for t
      by (rule gc(3)) (use that in simp_all)
    have gc4: "getRTag q tag = not_local" by (rule gc(4)) simp_all
    have N: "pd_nparticles q = ?N - 1" using g(2) by simp
    have "moved_view (pd_elems q ! i) = moved_view (pd_elems pd ! getRTag pd (pd_tag q i))" if "i < ?N - 1" for i
      using g(14) [of i] gc1 [OF that] that by simp
    moreover have "getRTag q u = not_local" if "u \<in> set (pd_recycled_tags pd)" for u
      using rq [of u] lk(5) [OF that] lk(1) [of "?N - 1"] k by auto
    ultimately show ?thesis unfolding N using gc1 gc2 gc3 gc4 by blast
  qed
  then show "i < pd_nparticles q \<Longrightarrow> pd_tag q i \<in> pd_tag_set pd - {tag} \<and> getRTag q (pd_tag q i) = i
      \<and> moved_view (pd_elems q ! i) = moved_view (pd_elems pd ! getRTag pd (pd_tag q i))"
    "t \<in> pd_tag_set pd - {tag} \<Longrightarrow> getRTag pd t \<noteq> not_local \<Longrightarrow>
      getRTag q t < pd_nparticles q \<and> pd_tag q (getRTag q t) = t"
    "t \<in> pd_tag_set pd \<Longrightarrow> getRTag pd t = not_local \<Longrightarrow> getRTag q t = not_local"
    "getRTag q tag = not_local" "u \<in> set (pd_recycled_tags pd) \<Longrightarrow> getRTag q u = not_local"
    by blast+
qed


lemma removeParticle_finish_fields:
  assumes inv: "rank_inv pd"
  shows "pd_tag_set (removeParticle_finish tag pd) = pd_tag_set pd - {tag}"
    "pd_recycled_tags (removeParticle_finish tag pd) = tag # pd_recycled_tags pd"
    "pd_nglobal (removeParticle_finish tag pd) = pd_nglobal pd - 1"
    "vec_len (pd_rtag (removeParticle_finish tag pd)) = vec_len (pd_rtag pd)"
    "pd_type_mapping (removeParticle_finish tag pd) = pd_type_mapping pd"
    "pd_nghosts (removeParticle_finish tag pd) = pd_nghosts pd"
  using without_particle_fields [OF inv, of tag] by (simp_all add: removeParticle_finish_alt)

lemma removeParticle_finish_ok:
  assumes inv: "rank_inv pd" and ng: "pd_nghosts pd = 0" and tag: "tag \<in> pd_tag_set pd"
  defines "pd' \<equiv> removeParticle_finish tag pd"
  shows "rank_inv pd'" "local_tags pd' = local_tags pd - {tag}"
    "u \<in> local_tags pd \<Longrightarrow> u \<noteq> tag \<Longrightarrow> moved_view (look pd' u) = moved_view (look pd u)"
proof -
  let ?q = "without_particle tag pd"
  note f = without_particle_fields [OF inv, of tag] and l = without_particle_lookup [OF inv ng tag]
    and lk = rank_lookup [OF inv ng]
  have tags: "tags_ok pd" and len: "pd_nparticles pd \<le> pd_max_nparticles pd" "pd_ghosts_added pd = 0"
    using inv ng by (auto simp: rank_inv_def)
  have pool: "pool_wf (pd_tag_set pd) (pd_recycled_tags pd) (pd_nglobal pd)" using tags by (simp add: tags_ok_def)
  have same: "getRTag pd' = getRTag ?q" "pd_tag pd' = pd_tag ?q" "pd_nparticles pd' = pd_nparticles ?q"
    "pd_elems pd' = pd_elems ?q" "pd_rtag pd' = pd_rtag ?q" "pd_tag_set pd' = pd_tag_set pd - {tag}"
    by (auto simp: pd'_def removeParticle_finish_alt getRTag_def pd_tag_def fun_eq_iff f(6))
  note r = pool_wf_release [OF pool tag]
  have "tags_ok pd'"
    using tags tag_set_mem [OF tags tag] r l(4,5)
    unfolding tags_ok_def pd'_def removeParticle_finish_fields [OF inv]
    by (auto simp: removeParticle_finish_alt f getRTag_def)
  moreover have "rtag_ok (pd_nparticles pd') pd'"
    using l(1-3) unfolding rtag_ok_def same by blast
  moreover have "lens_ok pd'" using f(1) by (simp add: pd'_def removeParticle_finish_alt lens_ok_def)
  ultimately show "rank_inv pd'"
    using f(2-5) ng len by (auto simp: rank_inv_def pd'_def removeParticle_finish_alt)
  have loc: "t \<in> local_tags pd' \<longleftrightarrow> t \<in> pd_tag_set pd - {tag} \<and> getRTag pd t \<noteq> not_local" for t
    unfolding local_tags_def same
  proof
    assume "t \<in> pd_tag ?q ` {..<pd_nparticles ?q}"
    then obtain i where i: "i < pd_nparticles ?q" "t = pd_tag ?q i" by auto
    then have "getRTag ?q t = i" "t \<in> pd_tag_set pd - {tag}" using l(1) by auto
    moreover have "pd_nparticles ?q \<le> not_local" using f(2) lk(3) by auto
    ultimately show "t \<in> pd_tag_set pd - {tag} \<and> getRTag pd t \<noteq> not_local" using l(3) [of t] i(1) by auto
  next
    assume "t \<in> pd_tag_set pd - {tag} \<and> getRTag pd t \<noteq> not_local"
    then show "t \<in> pd_tag ?q ` {..<pd_nparticles ?q}" using l(2) [of t] by (metis image_eqI lessThan_iff)
  qed
  have old: "t \<in> local_tags pd \<longleftrightarrow> t \<in> pd_tag_set pd \<and> getRTag pd t \<noteq> not_local" for t
    using lk(1-3) unfolding local_tags_def by (force simp: image_iff)
  show "local_tags pd' = local_tags pd - {tag}" using loc old by auto
  show "moved_view (look pd' u) = moved_view (look pd u)" if "u \<in> local_tags pd" "u \<noteq> tag"
    using l(2) [of u] l(1) [of "getRTag ?q u"] old that by (auto simp: look_def same)
qed

subsection \<open>Enumerating the tags\<close>

lemma getNthTag_ok:
  assumes "tags_ok pd"
  shows "getNthTag n pd =
      (if n < pd_nglobal pd then Inr (sorted_list_of_set (pd_tag_set pd) ! n, maybe_rebuild_tag_cache pd)
       else Inl (RuntimeError ''Particle id does not exist!''))"
    "tags_ok (maybe_rebuild_tag_cache pd)"
proof -
  have fin: "finite (pd_tag_set pd)" "card (pd_tag_set pd) = pd_nglobal pd"
    using assms by (auto simp: tags_ok_def pool_wf_def)
  let ?c = "pd_cached_tag_set (maybe_rebuild_tag_cache pd)"
  have c: "vec_inv ?c" "vec_list ?c = sorted_list_of_set (pd_tag_set pd)"
    using assms rebuild_cache_list [OF fin(1)] by (auto simp: maybe_rebuild_tag_cache_def tags_ok_def)
  then have "vec_len ?c = pd_nglobal pd" using vec_list_length [OF c(1)] fin by simp
  then have "n < pd_nglobal pd \<Longrightarrow> vec_get n ?c = sorted_list_of_set (pd_tag_set pd) ! n"
    using vec_list_nth [OF c(1), of n] c(2) by simp
  then show "getNthTag n pd =
      (if n < pd_nglobal pd then Inr (sorted_list_of_set (pd_tag_set pd) ! n, maybe_rebuild_tag_cache pd)
       else Inl (RuntimeError ''Particle id does not exist!''))"
    by (simp add: getNthTag_def Let_def)
  show "tags_ok (maybe_rebuild_tag_cache pd)"
    using assms c by (auto simp: maybe_rebuild_tag_cache_def tags_ok_def getRTag_def)
qed

end
