(* ===== verification/Particle_World.thy ===== *)
theory Particle_World
  imports Particle_Rank
begin

section \<open>The particle stores of all ranks\<close>

text \<open>
  The invariant of a whole run: every rank's store is consistent, the replicated bookkeeping (active
  tags, recycled tags, global particle number, size of the lookup table) is the same on all ranks,
  and every active tag is owned by exactly one rank. \<open>addParticle\<close> and \<open>removeParticle\<close> keep it;
  together they implement the contract \<open>tag_store\<close>.
\<close>

definition replicated :: "ParticleData \<Rightarrow> ParticleData \<Rightarrow> bool" where
  "replicated p q \<longleftrightarrow>
    pd_tag_set p = pd_tag_set q \<and> pd_recycled_tags p = pd_recycled_tags q
    \<and> pd_nglobal p = pd_nglobal q \<and> vec_len (pd_rtag p) = vec_len (pd_rtag q)"

definition world_inv :: "world \<Rightarrow> bool" where
  "world_inv w \<longleftrightarrow>
    w \<noteq> [] \<and> (\<forall>r<length w. rank_inv (w ! r) \<and> replicated (w ! r) (hd w))
    \<and> (\<forall>t\<in>pd_tag_set (hd w). \<exists>r<length w. t \<in> local_tags (w ! r))
    \<and> (\<forall>r<length w. \<forall>s<length w. r \<noteq> s \<longrightarrow> local_tags (w ! r) \<inter> local_tags (w ! s) = {})"

definition active_tags :: "world \<Rightarrow> nat set" where
  "active_tags w = pd_tag_set (hd w)"

text \<open>The record of a particle, found on the rank that owns it.\<close>

fun world_look :: "world \<Rightarrow> nat \<Rightarrow> pdata_element" where
  "world_look [] t = zero_element"
| "world_look (pd # w) t = (if isParticleLocal pd t then look pd t else world_look w t)"

definition world_room :: "world \<Rightarrow> bool" where
  "world_room w \<longleftrightarrow> pd_recycled_tags (hd w) \<noteq> [] \<or> pd_nglobal (hd w) < not_local"

lemma world_inv_rank:
  assumes "world_inv w" "r < length w"
  shows "rank_inv (w ! r)" "pd_tag_set (w ! r) = active_tags w"
    "pd_recycled_tags (w ! r) = pd_recycled_tags (hd w)" "pd_nglobal (w ! r) = pd_nglobal (hd w)"
    "vec_len (pd_rtag (w ! r)) = vec_len (pd_rtag (hd w))"
  using assms by (auto simp: world_inv_def replicated_def active_tags_def)

lemma world_inv_mem:
  assumes "world_inv w" "pd \<in> set w"
  shows "rank_inv pd" "pd_tag_set pd = active_tags w" "pd_recycled_tags pd = pd_recycled_tags (hd w)"
    "pd_nglobal pd = pd_nglobal (hd w)" "vec_len (pd_rtag pd) = vec_len (pd_rtag (hd w))"
  using world_inv_rank [OF assms(1)] assms(2) by (metis in_set_conv_nth)+

lemma rank_local_iff:
  assumes "rank_inv pd" "t \<in> pd_tag_set pd"
  shows "isParticleLocal pd t \<longleftrightarrow> t \<in> local_tags pd"
  using assms rank_inv_bound [OF assms(1)] by (intro local_iff [where n = "pd_nparticles pd + pd_nghosts pd"])
    (auto simp: rank_inv_def)

lemma world_disjoint:
  "world_inv w \<Longrightarrow> r < length w \<Longrightarrow> s < length w \<Longrightarrow> t \<in> local_tags (w ! r) \<Longrightarrow> t \<in> local_tags (w ! s) \<Longrightarrow> r = s"
  unfolding world_inv_def by blast

lemma world_owner:
  assumes "world_inv w" "t \<in> active_tags w"
  obtains r where "r < length w" "t \<in> local_tags (w ! r)" "\<And>s. s < length w \<Longrightarrow> t \<in> local_tags (w ! s) \<Longrightarrow> s = r"
  using assms unfolding world_inv_def active_tags_def by blast

lemma world_look_first:
  "r < length w \<Longrightarrow> isParticleLocal (w ! r) t \<Longrightarrow> (\<And>s. s < r \<Longrightarrow> \<not> isParticleLocal (w ! s) t) \<Longrightarrow>
    world_look w t = look (w ! r) t"
proof (induction w arbitrary: r)
  case (Cons pd w)
  show ?case
  proof (cases r)
    case 0
    then show ?thesis using Cons.prems by simp
  next
    case (Suc k)
    then show ?thesis using Cons.prems(1,2) Cons.prems(3) [of 0] Cons.prems(3) [of "Suc _"] Cons.IH [of k] by simp
  qed
qed simp

lemma world_look_owner:
  assumes w: "world_inv w" and t: "t \<in> active_tags w" and r: "r < length w" "t \<in> local_tags (w ! r)"
  shows "world_look w t = look (w ! r) t"
proof (rule world_look_first [OF r(1)])
  have l: "isParticleLocal (w ! s) t \<longleftrightarrow> t \<in> local_tags (w ! s)" if "s < length w" for s
    using rank_local_iff world_inv_rank(1,2) [OF w that] t by simp
  show "isParticleLocal (w ! r) t" using l r by simp
  show "\<not> isParticleLocal (w ! s) t" if "s < r" for s
    using l [of s] that r world_disjoint [OF w, of r s t] by auto
qed

lemma world_room_rank:
  assumes "world_inv w" "world_room w" "r < length w"
  shows "pd_recycled_tags (w ! r) \<noteq> [] \<or> pd_nglobal (w ! r) < not_local"
  using world_inv_rank [OF assms(1,3)] assms(2) by (simp add: world_room_def)

lemma world_finite: "world_inv w \<Longrightarrow> finite (active_tags w)"
  using world_inv_rank(1,2) [of w 0] by (auto simp: world_inv_def rank_inv_def tags_ok_def pool_wf_def)

subsection \<open>Adding\<close>

lemma addParticle_world:
  assumes w: "world_inv w" and room: "world_room w"
    and a: "addParticle ty w = (tag, w')"
  shows "length w' = length w" "\<And>r. r < length w \<Longrightarrow> w' ! r = snd (addParticle_rank r ty (w ! r))"
    "take_tag (pd_recycled_tags (hd w)) (pd_nglobal (hd w)) = (tag, tl (pd_recycled_tags (hd w)))"
    "hd w' = w' ! 0"
proof -
  show "length w' = length w" "\<And>r. r < length w \<Longrightarrow> w' ! r = snd (addParticle_rank r ty (w ! r))"
    using a by (auto simp: addParticle_def nth_enumerate_eq)
  show "hd w' = w' ! 0" using a w by (auto simp: addParticle_def world_inv_def hd_conv_nth enumerate_eq_zip)
  have t: "take_tag (pd_recycled_tags (hd w)) (pd_nglobal (hd w))
      = (fst (take_tag (pd_recycled_tags (hd w)) (pd_nglobal (hd w))), tl (pd_recycled_tags (hd w)))"
    by (auto simp: take_tag_def split: list.splits)
  then show "take_tag (pd_recycled_tags (hd w)) (pd_nglobal (hd w)) = (tag, tl (pd_recycled_tags (hd w)))"
    using a addParticle_rank_alt [OF t, of 0 ty] by (simp add: addParticle_def)
qed

lemma addParticle_rank_replicated:
  assumes t: "take_tag (pd_recycled_tags pd) (pd_nglobal pd) = (tag, rec')" and len: "lens_ok pd"
  shows "pd_tag_set (snd (addParticle_rank r ty pd)) = insert tag (pd_tag_set pd)"
    "pd_recycled_tags (snd (addParticle_rank r ty pd)) = rec'"
    "pd_nglobal (snd (addParticle_rank r ty pd)) = Suc (pd_nglobal pd)"
    "vec_len (pd_rtag (snd (addParticle_rank r ty pd))) = Suc (Max (insert tag (pd_tag_set pd)))"
proof -
  have "lens_ok (register_tag tag rec' x (removeAllGhostParticles pd))" for x
    using len by simp (simp add: lens_ok_def)
  note app = append_default_fields [OF this]
  show "pd_tag_set (snd (addParticle_rank r ty pd)) = insert tag (pd_tag_set pd)"
    "pd_recycled_tags (snd (addParticle_rank r ty pd)) = rec'"
    "pd_nglobal (snd (addParticle_rank r ty pd)) = Suc (pd_nglobal pd)"
    "vec_len (pd_rtag (snd (addParticle_rank r ty pd))) = Suc (Max (insert tag (pd_tag_set pd)))"
    unfolding addParticle_rank_alt [OF t] by (simp_all add: Let_def app)
qed

lemma addParticle_keeps:
  assumes w: "world_inv w" and room: "world_room w" and a: "addParticle ty w = (tag, w')"
  shows "world_inv w'" "tag \<notin> active_tags w" "active_tags w' = insert tag (active_tags w)"
    "t \<in> active_tags w' \<Longrightarrow> clear_net (world_look w' t) =
      (if t = tag then default_element ty tag (clear_net zero_element) else clear_net (world_look w t))"
proof -
  note aw = addParticle_world [OF w room a]
  let ?rec = "tl (pd_recycled_tags (hd w))"
  have t: "take_tag (pd_recycled_tags (w ! r)) (pd_nglobal (w ! r)) = (tag, ?rec)" if "r < length w" for r
    using aw(3) world_inv_rank [OF w that] by simp
  have len: "0 < length w" using w by (simp add: world_inv_def)
  note rep = addParticle_rank_replicated [OF t]
  have lo: "lens_ok (w ! r)" if "r < length w" for r using world_inv_rank(1) [OF w that] by (simp add: rank_inv_def)
  have rk: "rank_inv (w' ! r)" "local_tags (w' ! r) = (if r = 0 then insert tag else id) (local_tags (w ! r))"
    "u \<in> local_tags (w ! r) \<Longrightarrow> clear_net (look (w' ! r) u) = clear_net (look (w ! r) u)" if r: "r < length w" for r u
    using addParticle_rank0 [OF world_inv_rank(1) [OF w r] t [OF r] world_room_rank [OF w room r], where ty = ty]
      addParticle_other_rank [OF world_inv_rank(1) [OF w r] t [OF r] world_room_rank [OF w room r], where r = r and ty = ty]
      aw(2) [OF r] by auto
  have "pool_wf (pd_tag_set (hd w)) (pd_recycled_tags (hd w)) (pd_nglobal (hd w))"
    using w len by (auto simp: world_inv_def rank_inv_def tags_ok_def hd_conv_nth)
  from pool_wf_take(1) [OF this aw(3)] show new: "tag \<notin> active_tags w" by (simp add: active_tags_def)
  show act: "active_tags w' = insert tag (active_tags w)"
    using rep(1) [OF len lo [OF len], of 0 ty] aw(2) [OF len] aw(4) w
    by (simp add: active_tags_def world_inv_def hd_conv_nth)
  have new_r: "tag \<notin> local_tags (w ! r)" if r: "r < length w" for r
    using new world_inv_rank(1,2) [OF w r] by (auto simp: local_tags_def rank_inv_def rtag_ok_def)
  have wne: "w' \<noteq> []" using aw(1) len by auto
  have "replicated (w' ! r) (hd w')" if r: "r < length w" for r
    using rep [OF r lo [OF r], of r ty] rep [OF len lo [OF len], of 0 ty] aw(2) [OF r] aw(2) [OF len] aw(4)
      world_inv_rank [OF w r] world_inv_rank [OF w len] by (simp add: replicated_def)
  moreover have "\<exists>r<length w. u \<in> local_tags (w' ! r)" if "u \<in> active_tags w'" for u
    using that act rk(2) len w unfolding world_inv_def active_tags_def by (cases "u = tag") (force+)
  moreover have "local_tags (w' ! r) \<inter> local_tags (w' ! s) = {}" if "r < length w" "s < length w" "r \<noteq> s" for r s
    using rk(2) [OF that(1)] rk(2) [OF that(2)] new_r that w unfolding world_inv_def by auto
  ultimately show inv': "world_inv w'" using rk(1) aw(1) wne by (simp add: world_inv_def active_tags_def)
  show "clear_net (world_look w' t) =
      (if t = tag then default_element ty tag (clear_net zero_element) else clear_net (world_look w t))"
    if tact: "t \<in> active_tags w'"
  proof (cases "t = tag")
    case True
    have "tag \<in> local_tags (w' ! 0)" using rk(2) [OF len] by simp
    then have "world_look w' tag = look (w' ! 0) tag"
      using world_look_owner [OF inv', of tag 0] act aw(1) len by simp
    then show ?thesis using True aw(2) [OF len]
        addParticle_rank0(4) [OF world_inv_rank(1) [OF w len] t [OF len] world_room_rank [OF w room len], where ty = ty] by simp
  next
    case False
    then have ta: "t \<in> active_tags w" using tact act by simp
    from world_owner [OF w this] obtain r where r: "r < length w" "t \<in> local_tags (w ! r)" by metis
    then have "t \<in> local_tags (w' ! r)" using rk(2) [OF r(1)] by auto
    then have "world_look w' t = look (w' ! r) t" using world_look_owner [OF inv' tact] aw(1) r(1) by simp
    then show ?thesis using False world_look_owner [OF w ta r] rk(3) [OF r(1) r(2)] by simp
  qed
qed


subsection \<open>Removing\<close>

lemma map_world_inv:
  assumes w: "world_inv w"
    and f: "\<And>pd. pd \<in> set w \<Longrightarrow> rank_inv (f pd) \<and> local_tags (f pd) = local_tags pd - D
      \<and> pd_tag_set (f pd) = pd_tag_set pd - D"
    and rep: "\<And>p q. p \<in> set w \<Longrightarrow> q \<in> set w \<Longrightarrow> replicated p q \<Longrightarrow> replicated (f p) (f q)"
  shows "world_inv (map f w)" "active_tags (map f w) = active_tags w - D"
proof -
  have ne: "w \<noteq> []" using w by (simp add: world_inv_def)
  have h: "hd (map f w) = f (hd w)" "hd w \<in> set w" using ne by (simp_all add: hd_map)
  show act: "active_tags (map f w) = active_tags w - D" using f [OF h(2)] h(1) by (simp add: active_tags_def)
  have "replicated (f (w ! r)) (f (hd w))" if "r < length w" for r
    using rep [of "w ! r" "hd w"] w that h(2) by (auto simp: world_inv_def)
  moreover have "local_tags (map f w ! r) \<inter> local_tags (map f w ! s) = {}"
    if "r < length w" "s < length w" "r \<noteq> s" for r s
    using f [of "w ! r"] f [of "w ! s"] that world_disjoint [OF w that(1,2)] by auto
  moreover have "\<exists>r<length w. t \<in> local_tags (map f w ! r)" if "t \<in> pd_tag_set (f (hd w))" for t
  proof -
    have "t \<in> active_tags w" "t \<notin> D" using that f [OF h(2)] by (auto simp: active_tags_def)
    then obtain r where "r < length w" "t \<in> local_tags (w ! r)" using world_owner [OF w] by metis
    then show ?thesis using f [of "w ! r"] \<open>t \<notin> D\<close> by (intro exI [of _ r]) simp
  qed
  ultimately show "world_inv (map f w)" using ne f h(1) by (simp add: world_inv_def)
qed

lemma map_world_look:
  assumes w: "world_inv w" "world_inv (map f w)" and t: "t \<in> active_tags w" "t \<in> active_tags (map f w)"
    and f: "\<And>pd. pd \<in> set w \<Longrightarrow> t \<in> local_tags pd \<Longrightarrow> t \<in> local_tags (f pd) \<and> v (look (f pd) t) = v (look pd t)"
  shows "v (world_look (map f w) t) = v (world_look w t)"
proof -
  obtain r where r: "r < length w" "t \<in> local_tags (w ! r)" using world_owner [OF w(1) t(1)] by metis
  have "world_look (map f w) t = look (f (w ! r)) t"
    using world_look_owner [OF w(2) t(2), of r] r f [of "w ! r"] by simp
  then show ?thesis using world_look_owner [OF w(1) t(1) r] f [of "w ! r"] r by simp
qed

lemma remove_ghosts_world:
  assumes w: "world_inv w"
  shows "world_inv (map removeAllGhostParticles w)" "active_tags (map removeAllGhostParticles w) = active_tags w"
    "t \<in> active_tags w \<Longrightarrow> world_look (map removeAllGhostParticles w) t = world_look w t"
proof -
  note r = world_inv_mem(1) [OF w]
  have i: "rank_inv (removeAllGhostParticles pd) \<and> local_tags (removeAllGhostParticles pd) = local_tags pd - {}
      \<and> pd_tag_set (removeAllGhostParticles pd) = pd_tag_set pd - {}" if "pd \<in> set w" for pd
    using removeAllGhostParticles_inv [OF r [OF that]] by simp
  show inv: "world_inv (map removeAllGhostParticles w)"
    and act: "active_tags (map removeAllGhostParticles w) = active_tags w"
    using map_world_inv(1) [OF w i] map_world_inv(2) [OF w i] by (simp_all add: replicated_def)
  show "world_look (map removeAllGhostParticles w) t = world_look w t" if t: "t \<in> active_tags w"
  proof (rule map_world_look [OF w inv t, where v = "\<lambda>e. e"])
    show "t \<in> active_tags (map removeAllGhostParticles w)" using t act by simp
    show "t \<in> local_tags (removeAllGhostParticles pd) \<and> look (removeAllGhostParticles pd) t = look pd t"
      if pd: "pd \<in> set w" "t \<in> local_tags pd" for pd
    proof -
      have "t \<in> pd_tag_set pd" using world_inv_mem(2) [OF w pd(1)] t by simp
      then have "getRTag (removeAllGhostParticles pd) t = getRTag pd t"
        using removeAllGhostParticles_rtag [OF r [OF pd(1)] tag_set_mem] r [OF pd(1)] pd(2)
        by (auto simp: rank_inv_def local_tags_def rtag_ok_def)
      then show ?thesis using pd(2) by (simp add: look_def)
    qed
  qed
qed

lemma not_local_anywhere:
  assumes w: "world_inv w" and t: "t \<notin> active_tags w" "t < vec_len (pd_rtag (hd w))" and pd: "pd \<in> set w"
  shows "\<not> isParticleLocal pd t"
proof -
  note m = world_inv_mem [OF w pd]
  have tags: "tags_ok pd" using m(1) by (simp add: rank_inv_def)
  then have "t < pd_nglobal pd + length (pd_recycled_tags pd)" using t(2) m(5) by (simp add: tags_ok_def)
  then have "t \<in> set (pd_recycled_tags pd)"
    using pool_less_cases [of "pd_tag_set pd"] tags t(1) m(2) by (auto simp: tags_ok_def)
  then have "getRTag pd t = not_local" using tags by (auto simp: tags_ok_def)
  then show ?thesis using rank_inv_bound [OF m(1)] by (simp add: isParticleLocal_def getRTag_def)
qed

lemma removeParticle_ok:
  assumes w: "world_inv w" and t: "tag \<in> active_tags w"
  shows "removeParticle tag w = (None, map (removeParticle_finish tag) (map removeAllGhostParticles w))"
proof -
  let ?w = "map removeAllGhostParticles w"
  note g = remove_ghosts_world [OF w]
  have tg: "tags_ok pd" "tag \<in> pd_tag_set pd" if "pd \<in> set w" for pd
    using world_inv_mem(1,2) [OF w that] t by (simp_all add: rank_inv_def)
  have "pd_nglobal pd \<noteq> 0" if "pd \<in> set w" for pd
    using pool_wf_release(2) [OF conjunct1 [OF tg(1) [OF that, unfolded tags_ok_def]] tg(2) [OF that]] by simp
  then have 1: "\<not> list_ex (\<lambda>pd. pd_nglobal pd = 0) w" by (simp add: list_ex_iff)
  have "tag < vec_len (pd_rtag pd)" if "pd \<in> set w" for pd
    using tg [OF that] unfolding tags_ok_def by blast
  then have 2: "\<not> list_ex (\<lambda>pd. tag \<ge> vec_len (pd_rtag pd)) ?w" by (auto simp: list_ex_iff not_le)
  obtain r where r: "r < length ?w" "tag \<in> local_tags (?w ! r)" using world_owner [OF g(1)] t g(2) by metis
  then have "isParticleLocal (?w ! r) tag"
    using rank_local_iff world_inv_rank(1,2) [OF g(1) r(1)] t g(2) by simp
  then have "filter (\<lambda>pd. isParticleLocal pd tag) ?w \<noteq> []"
    using nth_mem [OF r(1)] unfolding filter_empty_conv by blast
  then have "sum_list (map (\<lambda>pd. if isParticleLocal pd tag then 1 else 0 :: nat) ?w) \<noteq> 0"
    by (simp only: sum_list_indicator length_0_conv not_False_eq_True)
  then show ?thesis using 1 2 by (simp add: removeParticle_def Let_def)
qed

lemma removeParticle_error:
  assumes w: "world_inv w" and t: "tag \<notin> active_tags w"
  shows "\<exists>e. removeParticle tag w = (Some e, w) \<or> removeParticle tag w = (Some e, map removeAllGhostParticles w)"
proof -
  let ?w = "map removeAllGhostParticles w"
  note g = remove_ghosts_world [OF w]
  have ne: "w \<noteq> []" using w by (simp add: world_inv_def)
  have "sum_list (map (\<lambda>pd. if isParticleLocal pd tag then 1 else 0 :: nat) ?w) = 0"
    if "\<not> list_ex (\<lambda>pd. tag \<ge> vec_len (pd_rtag pd)) ?w"
  proof -
    have "tag < vec_len (pd_rtag (hd ?w))" using that ne by (auto simp: list_ex_iff hd_map not_le)
    then show ?thesis using not_local_anywhere [OF g(1)] t g(2) unfolding sum_list_indicator by simp
  qed
  then show ?thesis by (auto simp: removeParticle_def Let_def)
qed

lemma removeParticle_keeps:
  assumes w: "world_inv w" and r: "removeParticle tag w = (None, w')"
  shows "world_inv w'" "tag \<in> active_tags w" "active_tags w' = active_tags w - {tag}"
    "t \<in> active_tags w' \<Longrightarrow> moved_view (world_look w' t) = moved_view (world_look w t)"
proof -
  let ?w = "map removeAllGhostParticles w"
  note g = remove_ghosts_world [OF w]
  show tag: "tag \<in> active_tags w" using removeParticle_error [OF w, of tag] r by auto
  have w': "w' = map (removeParticle_finish tag) ?w" using removeParticle_ok [OF w tag] r by simp
  have ng: "pd_nghosts pd = 0" if "pd \<in> set ?w" for pd using that by auto
  have m: "rank_inv pd" "tag \<in> pd_tag_set pd" if "pd \<in> set ?w" for pd
    using world_inv_mem(1,2) [OF g(1) that] tag g(2) by simp_all
  note fin = removeParticle_finish_ok [OF m(1) ng m(2)]
  have i: "rank_inv (removeParticle_finish tag pd) \<and> local_tags (removeParticle_finish tag pd) = local_tags pd - {tag}
      \<and> pd_tag_set (removeParticle_finish tag pd) = pd_tag_set pd - {tag}" if "pd \<in> set ?w" for pd
    using fin(1,2) [OF that that that] removeParticle_finish_fields(1) [OF m(1) [OF that]] by blast
  have rep: "replicated (removeParticle_finish tag p) (removeParticle_finish tag q)"
    if "p \<in> set ?w" "q \<in> set ?w" "replicated p q" for p q
    using that(3) removeParticle_finish_fields [OF m(1) [OF that(1)]] removeParticle_finish_fields [OF m(1) [OF that(2)]]
    by (simp add: replicated_def)
  show inv': "world_inv w'" and act: "active_tags w' = active_tags w - {tag}"
    unfolding w' using map_world_inv(1) [OF g(1) i rep] map_world_inv(2) [OF g(1) i rep] g(2) by simp_all
  show "moved_view (world_look w' t) = moved_view (world_look w t)" if t: "t \<in> active_tags w'"
  proof -
    have "moved_view (world_look w' t) = moved_view (world_look ?w t)"
      unfolding w'
    proof (rule map_world_look [OF g(1) inv' [unfolded w']])
      show "t \<in> active_tags ?w" "t \<in> active_tags (map (removeParticle_finish tag) ?w)"
        using t act g(2) unfolding w' by simp_all
      show "t \<in> local_tags (removeParticle_finish tag pd) \<and> moved_view (look (removeParticle_finish tag pd) t) = moved_view (look pd t)"
        if "pd \<in> set ?w" "t \<in> local_tags pd" for pd
        using fin(2) [OF that(1) that(1) that(1)] fin(3) [OF that(1) that(1) that(1) that(2)] t act that(2) by auto
    qed
    then show ?thesis using g(3) t act by simp
  qed
qed


subsection \<open>The contract of the store\<close>

definition removeParticle_result :: "nat \<Rightarrow> world \<Rightarrow> world result" where
  "removeParticle_result tag w = (case removeParticle tag w of (None, w') \<Rightarrow> Inr w' | (Some e, _) \<Rightarrow> Inl e)"

lemma removeParticle_result_Inr: "removeParticle_result tag w = Inr w' \<longleftrightarrow> removeParticle tag w = (None, w')"
  by (auto simp: removeParticle_result_def split: option.splits prod.splits)

interpretation particles: tag_store world_inv world_room active_tags
  "\<lambda>w t. moved_view (world_look w t)" addParticle removeParticle_result
  "\<lambda>ty t. moved_view (default_element ty t zero_element)" "\<lambda>w ty. True"
proof unfold_locales
  fix s :: world and ty :: nat assume s: "world_inv s" "world_room s"
  note a = addParticle_keeps [OF s surjective_pairing]
  show "world_inv (snd (addParticle ty s))" "fst (addParticle ty s) \<notin> active_tags s"
    "active_tags (snd (addParticle ty s)) = insert (fst (addParticle ty s)) (active_tags s)"
    using a by simp_all
  show "moved_view (world_look (snd (addParticle ty s)) t) =
      (if t = fst (addParticle ty s) then moved_view (default_element ty t zero_element)
       else moved_view (world_look s t))" if "t \<in> active_tags (snd (addParticle ty s))" for t
    using a(4) [OF that]
    by (auto intro: moved_view_clear simp: moved_view_def clear_net_def default_element_def zero_element_def)
next
  fix s s' :: world and t u :: nat assume s: "world_inv s"
  show "finite (active_tags s)" using s by (rule world_finite)
  show "t \<in> active_tags s \<Longrightarrow> \<exists>s'. removeParticle_result t s = Inr s'"
    using removeParticle_ok [OF s] by (simp add: removeParticle_result_def)
  show "t \<notin> active_tags s \<Longrightarrow> \<exists>e. removeParticle_result t s = Inl e"
    using removeParticle_error [OF s] by (fastforce simp: removeParticle_result_def)
  assume "removeParticle_result t s = Inr s'"
  then have r: "removeParticle t s = (None, s')" by (simp add: removeParticle_result_Inr)
  show "world_inv s'" "active_tags s' = active_tags s - {t}" using removeParticle_keeps [OF s r] by simp_all
  show "u \<in> active_tags s' \<Longrightarrow> moved_view (world_look s' u) = moved_view (world_look s u)"
    by (rule removeParticle_keeps(4) [OF s r])
qed

subsection \<open>A run to start from\<close>

definition empty_store :: "BoxDim \<Rightarrow> ParticleData" where
  "empty_store box = pd_resize 0 (ParticleData_blank box)"

lemma empty_store_inv: "rank_inv (empty_store box)" "local_tags (empty_store box) = {}"
  "pd_tag_set (empty_store box) = {}" "pd_recycled_tags (empty_store box) = []" "pd_nglobal (empty_store box) = 0"
  by (auto simp: empty_store_def ParticleData_blank_def pd_resize_def pd_allocate_def rank_inv_def lens_ok_def
      tags_ok_def rtag_ok_def vec_empty_def vec_inv_def local_tags_def Let_def)

lemma empty_world_inv: "world_inv [empty_store box, empty_store box]" "world_room [empty_store box, empty_store box]"
  "active_tags [empty_store box, empty_store box] = {}"
  using empty_store_inv [of box]
  by (auto simp: world_inv_def replicated_def world_room_def active_tags_def less_Suc_eq not_local_def)

lemma addParticle_first_tag:
  "pd_recycled_tags (hd w) = [] \<Longrightarrow> fst (addParticle ty w) = pd_nglobal (hd w)"
  using addParticle_rank_alt [of "hd w" "pd_nglobal (hd w)" "[]" 0 ty] by (simp add: addParticle_def take_tag_def)

subsection \<open>Properties\<close>

text \<open>
  C2: \<open>addParticle\<close>, called on all ranks of a consistent run, gives a consistent run again: the
  returned tag was not in use and is now active, owned by rank 0, with the default properties; the
  data of every other particle is what it was (the net forces apart, which a reallocation of the
  arrays clears).
\<close>

theorem addParticle_correct:
  assumes "world_inv w" "world_room w" "addParticle ty w = (tag, w')"
  shows "world_inv w' \<and> tag \<notin> active_tags w \<and> active_tags w' = insert tag (active_tags w)
    \<and> (\<forall>t\<in>active_tags w'. clear_net (world_look w' t) =
        (if t = tag then default_element ty tag (clear_net zero_element) else clear_net (world_look w t)))"
  using addParticle_keeps [OF assms] by simp

theorem addParticle_correct_witness:
  "world_inv [empty_store BoxDim_empty, empty_store BoxDim_empty]
   \<and> active_tags (snd (addParticle 3 [empty_store BoxDim_empty, empty_store BoxDim_empty])) = {0}
   \<and> pe_type (world_look (snd (addParticle 3 [empty_store BoxDim_empty, empty_store BoxDim_empty])) 0) = 3"
proof -
  let ?w = "[empty_store BoxDim_empty, empty_store BoxDim_empty]"
  note c = addParticle_correct [OF empty_world_inv(1) [of BoxDim_empty] empty_world_inv(2) surjective_pairing, where ty = 3]
  have t: "fst (addParticle 3 ?w) = 0" using addParticle_first_tag [of ?w 3] empty_store_inv by simp
  have "clear_net (world_look (snd (addParticle 3 ?w)) 0) = default_element 3 0 (clear_net zero_element)"
    using c t by simp
  from arg_cong [OF this, where f = pe_type]
  have "pe_type (world_look (snd (addParticle 3 ?w)) 0) = 3" by (simp add: clear_net_def default_element_def)
  then show ?thesis using c t empty_world_inv by simp
qed


definition run2 :: world where
  "run2 = snd (addParticle 1 (snd (addParticle 0 [empty_store tilted10, empty_store tilted10])))"

lemma add_two:
  assumes e: "world_inv w" "hd w = empty_store b"
  defines "v \<equiv> snd (addParticle 0 w)"
  shows "world_inv (snd (addParticle 1 v))" "active_tags (snd (addParticle 1 v)) = {0, 1}"
proof -
  have room: "world_room w" "active_tags w = {}"
    by (simp_all add: world_room_def active_tags_def e(2) empty_store_inv not_local_def)
  note a = addParticle_keeps [OF e(1) room(1) surjective_pairing, where ty = 0, folded v_def]
  have t0: "fst (addParticle 0 w) = 0" using addParticle_first_tag [of w 0] e(2) empty_store_inv by simp
  have "lens_ok (empty_store b)" using empty_store_inv(1) [of b] by (simp add: rank_inv_def)
  moreover have "take_tag (pd_recycled_tags (empty_store b)) (pd_nglobal (empty_store b)) = (0, [])"
    by (simp add: empty_store_inv take_tag_def)
  moreover have "hd v = snd (addParticle_rank 0 0 (empty_store b))"
    using e by (cases w) (simp_all add: v_def addParticle_def world_inv_def)
  ultimately have v: "pd_recycled_tags (hd v) = []" "pd_nglobal (hd v) = 1"
    using addParticle_rank_replicated [of "empty_store b" 0 "[]" 0 0] by (simp_all add: empty_store_inv)
  then have "world_room v" by (simp add: world_room_def not_local_def)
  note c = addParticle_keeps [OF a(1) this surjective_pairing, where ty = 1]
  have "fst (addParticle 1 v) = 1" using addParticle_first_tag [of v 1] v by simp
  then show "world_inv (snd (addParticle 1 v))" "active_tags (snd (addParticle 1 v)) = {0, 1}"
    using a(3) c(1,3) room(2) t0 by auto
qed

lemma run2_inv: "world_inv run2" "active_tags run2 = {0, 1}"
  unfolding run2_def by (rule add_two [OF empty_world_inv(1)]; simp)+

lemmas store_eval = addParticle_def addParticle_rank_def Let_def removeAllGhostParticles_def
  slotGhostParticlesRemoved_def empty_store_def ParticleData_blank_def pd_resize_def pd_allocate_def take_tag_def
  getMaximumTag_def append_default_def setNGlobal_def vec_empty_def pd_reallocate_def enumerate_eq_zip
  getRTag_def pd_tag_def vec_set_def vec_get_def vec_resize_def vec_reallocate_def resized_def default_element_def upt_rec

lemma grow_alloc_small: "grow_alloc (Suc (Suc 0)) (Suc 0) = Suc (Suc 0)" "grow_alloc (Suc 0) (Suc 0) = Suc 0"
  by (simp_all add: grow_alloc.simps)

lemma run2_eval:
  "map (\<lambda>pd. (pd_global_box pd, pd_origin pd, pd_o_image pd, take (pd_nparticles pd) (pd_comm_flags pd))) run2
    = [(tilted10, (0, 0, 0), (0, 0, 0), [0, 0]), (tilted10, (0, 0, 0), (0, 0, 0), [])]"
  "pe_pos (world_look run2 0) = (0, 0, 0)"
  by (simp_all add: run2_def store_eval grow_alloc_small isParticleLocal_def look_def clear_net_def)

definition serial2 :: world where
  "serial2 = snd (addParticle 1 (snd (addParticle 0 [empty_store tilted10])))"

lemma serial2_inv: "world_inv serial2" "active_tags serial2 = {0, 1}"
proof -
  have "world_inv [empty_store tilted10]" using empty_store_inv [of tilted10] by (simp add: world_inv_def replicated_def)
  from add_two [OF this, of tilted10] show "world_inv serial2" "active_tags serial2 = {0, 1}" by (simp_all add: serial2_def)
qed

lemma serial2_eval:
  "map (\<lambda>pd. (getRTag pd 0, getRTag pd 1, pd_nparticles pd, pd_nghosts pd, pd_tag pd 1, pe_angmom (pd_elems pd ! 1))) serial2
    = [(0, 1, 2, 0, 1, (0, 0, 0, 0))]"
  by (simp add: serial2_def store_eval grow_alloc_small clear_net_def zero_element_def)





lemma getOwnerRank_found:
  assumes w: "world_inv w" and a: "tag \<in> active_tags w" and r: "r < length w" "tag \<in> local_tags (w ! r)"
  shows "getOwnerRank tag w = Inr r"
proof -
  have loc: "getRTag pd tag < pd_nparticles pd \<longleftrightarrow> isParticleLocal pd tag" for pd
    by (simp add: getRTag_def isParticleLocal_def)
  have l: "isParticleLocal (w ! s) tag \<longleftrightarrow> s = r" if "s < length w" for s
    using rank_local_iff world_inv_rank(1,2) [OF w that] a r world_disjoint [OF w that r(1)] by auto
  have "filter (\<lambda>pd. isParticleLocal pd tag) w = [w ! r]" using l r(1) by (intro filter_single) auto
  moreover have "foldr max (map (\<lambda>(rank, pd). if isParticleLocal pd tag then int rank else -1) (enumerate 0 w)) (-1) = int r"
  proof -
    have "map (\<lambda>(rank, pd). if isParticleLocal pd tag then int rank else -1) (enumerate 0 w)
        = map (\<lambda>s. if s = r then int r else -1) [0..<length w]"
      using l by (intro nth_equalityI) (auto simp: nth_enumerate_eq)
    moreover have "foldr max (map (\<lambda>s. if s = r then int r else -1) xs) (-1) = (if r \<in> set xs then int r else -1)" for xs
      by (induction xs) auto
    ultimately show ?thesis using r(1) by simp
  qed
  ultimately show ?thesis by (simp add: getOwnerRank_def loc sum_list_indicator)
qed

lemma getOwnerRank_missing:
  assumes w: "world_inv w" and t: "tag < vec_len (pd_rtag (hd w))" "tag \<notin> active_tags w"
  shows "getOwnerRank tag w = Inl (RuntimeError ''Could not find particle on any processor.'')"
proof -
  have loc: "getRTag pd tag < pd_nparticles pd \<longleftrightarrow> isParticleLocal pd tag" for pd
    by (simp add: getRTag_def isParticleLocal_def)
  have "filter (\<lambda>pd. isParticleLocal pd tag) w = []" using not_local_anywhere [OF w t(2,1)] by (simp add: filter_empty_conv)
  then show ?thesis by (simp add: getOwnerRank_def loc sum_list_indicator)
qed

text \<open>
  C25: \<open>getOwnerRank\<close> finds the owner: for an active tag of a consistent run it returns the one rank
  that holds the particle, for a tag that was removed it reports that no rank has it.
\<close>

theorem getOwnerRank_correct:
  assumes w: "world_inv w" and t: "tag < vec_len (pd_rtag (hd w))"
  shows "(tag \<in> active_tags w \<longrightarrow> (\<exists>r<length w. getOwnerRank tag w = Inr r \<and> tag \<in> local_tags (w ! r)
      \<and> (\<forall>s<length w. tag \<in> local_tags (w ! s) \<longrightarrow> s = r)))
    \<and> (tag \<notin> active_tags w \<longrightarrow> getOwnerRank tag w = Inl (RuntimeError ''Could not find particle on any processor.''))"
  using getOwnerRank_found [OF w, of tag] getOwnerRank_missing [OF w t] world_owner [OF w, of tag] by metis

theorem getOwnerRank_correct_witness:
  "1 < vec_len (pd_rtag (hd run2)) \<and> (\<exists>r<length run2. getOwnerRank 1 run2 = Inr r \<and> 1 \<in> local_tags (run2 ! r))"
proof -
  have "run2 \<noteq> []" using run2_inv(1) by (simp add: world_inv_def)
  then have "1 < vec_len (pd_rtag (hd run2))"
    using world_inv_mem(1,2) [OF run2_inv(1) hd_in_set] run2_inv(2) by (auto simp: rank_inv_def tags_ok_def)
  with getOwnerRank_correct [OF run2_inv(1) this] run2_inv(2) show ?thesis by auto
qed


lemma close_gap_element:
  assumes "lens_ok pd" "pd_nparticles pd \<le> pd_max_nparticles pd" "idx < pd_nparticles pd - 1"
  shows "pd_elems (close_gap idx pd) ! idx
    = move_element (pd_elems pd ! (pd_nparticles pd - 1)) (pd_elems pd ! idx)"
  using assms pd_resize_same [of "pd\<lparr>pd_elems := es, pd_comm_flags := cf, pd_rtag := rt\<rparr>" for es cf rt]
  by (simp add: close_gap_def Let_def lens_ok_def)

text \<open>
  C26: \<open>getNthTag\<close> enumerates the active tags: on every rank the indices below the global particle
  number are mapped one to one and in ascending order onto the active tags, through a cache that is
  rebuilt only when it is stale; a larger index raises an error.
\<close>

theorem getNthTag_enumerates:
  assumes w: "world_inv w" and pd: "pd \<in> set w"
  shows "(\<exists>f. bij_betw f {..<pd_nglobal pd} (active_tags w) \<and> strict_mono_on {..<pd_nglobal pd} f
      \<and> (\<forall>n<pd_nglobal pd. getNthTag n pd = Inr (f n, maybe_rebuild_tag_cache pd)))
    \<and> (\<forall>n\<ge>pd_nglobal pd. getNthTag n pd = Inl (RuntimeError ''Particle id does not exist!''))
    \<and> rank_inv (maybe_rebuild_tag_cache pd)"
proof -
  have r: "rank_inv pd" and tags: "tags_ok pd" using world_inv_mem(1) [OF w pd] by (simp_all add: rank_inv_def)
  have fin: "finite (active_tags w)" "card (active_tags w) = pd_nglobal pd"
    using tags world_inv_mem(2) [OF w pd] by (auto simp: tags_ok_def pool_wf_def)
  let ?f = "\<lambda>n. sorted_list_of_set (active_tags w) ! n"
  have "bij_betw ?f {..<pd_nglobal pd} (active_tags w)"
    using sorted_list_of_set_nth_bij [OF fin(1)] fin(2) by simp
  moreover have "strict_mono_on {..<pd_nglobal pd} ?f"
    using sorted_wrt_nth_less [OF strict_sorted_list_of_set, of _ _ "active_tags w"] fin
    by (auto intro: strict_mono_onI)
  moreover have "rank_inv (maybe_rebuild_tag_cache pd)"
    using r getNthTag_ok(2) [OF tags]
    by (auto simp: rank_inv_def maybe_rebuild_tag_cache_def lens_ok_def rtag_ok_def getRTag_def pd_tag_def)
  ultimately show ?thesis using getNthTag_ok(1) [OF tags] world_inv_mem(2) [OF w pd] by auto
qed

theorem getNthTag_enumerates_witness:
  "\<exists>f. bij_betw f {..<pd_nglobal (hd run2)} {0, 1}
    \<and> (\<forall>n<pd_nglobal (hd run2). getNthTag n (hd run2) = Inr (f n, maybe_rebuild_tag_cache (hd run2)))"
proof -
  have "hd run2 \<in> set run2" using run2_inv(1) by (auto simp: world_inv_def)
  from getNthTag_enumerates [OF run2_inv(1) this] show ?thesis unfolding run2_inv(2) by blast
qed

end
