(* ===== verification/Particle_Migrate.thy ===== *)
theory Particle_Migrate
  imports Particle_World "HOL-Library.Multiset"
begin

section \<open>Moving particles between ranks\<close>

text \<open>
  \<open>ParticleData::removeParticles\<close> and \<open>ParticleData::addParticles\<close>, through which particles leave
  one rank and enter another: the loops as list functions, and that both keep the invariant.
\<close>

subsection \<open>The loops\<close>

definition kept :: "pdata_element list \<Rightarrow> nat list \<Rightarrow> pdata_element list" where
  "kept es fs = map fst (filter (\<lambda>(e, f). f = 0) (zip es fs))"

definition sent :: "pdata_element list \<Rightarrow> nat list \<Rightarrow> pdata_element list" where
  "sent es fs = map fst (filter (\<lambda>(e, f). f \<noteq> 0) (zip es fs))"

lemma kept_sent_simps [simp]:
  "kept (e # es) (f # fs) = (if f = 0 then e # kept es fs else kept es fs)"
  "sent (e # es) (f # fs) = (if f = 0 then sent es fs else e # sent es fs)"
  "kept [] fs = []" "sent [] fs = []" "kept es [] = []" "sent es [] = []"
  by (auto simp: kept_def sent_def)

lemma kept_sent_set:
  "length es = length fs \<Longrightarrow> set (kept es fs) \<union> set (sent es fs) = set es"
  by (induction es fs rule: list_induct2) auto

lemma kept_sent_length: "length es = length fs \<Longrightarrow> length (kept es fs) + length (sent es fs) = length es"
  by (induction es fs rule: list_induct2) auto

lemma sent_length_flags: "length es = length fs \<Longrightarrow> length (sent es fs) = length (filter (\<lambda>f. f \<noteq> 0) fs)"
  by (induction es fs rule: list_induct2) auto

lemma kept_sent_distinct:
  assumes "length es = length fs" "distinct (map pe_tag es)"
  shows "distinct (map pe_tag (kept es fs))" "distinct (map pe_tag (sent es fs))"
    "pe_tag ` set (kept es fs) \<inter> pe_tag ` set (sent es fs) = {}"
proof -
  have "distinct (map pe_tag (kept es fs)) \<and> distinct (map pe_tag (sent es fs))
      \<and> pe_tag ` set (kept es fs) \<inter> pe_tag ` set (sent es fs) = {}"
    using assms
  proof (induction es fs rule: list_induct2)
    case (Cons e es f fs)
    have "pe_tag e \<notin> pe_tag ` set (kept es fs)" "pe_tag e \<notin> pe_tag ` set (sent es fs)"
      using kept_sent_set [OF Cons.hyps] Cons.prems by auto
    then show ?case using Cons by auto
  qed simp
  then show "distinct (map pe_tag (kept es fs))" "distinct (map pe_tag (sent es fs))"
    "pe_tag ` set (kept es fs) \<inter> pe_tag ` set (sent es fs) = {}" by blast+
qed

lemma mark_removed_frame:
  "length (vec_mem (fst (mark_removed es fs r))) = length (vec_mem r)"
  "vec_len (fst (mark_removed es fs r)) = vec_len r" "vec_inv (fst (mark_removed es fs r)) = vec_inv r"
  by (induction es fs r rule: mark_removed.induct) (auto simp: split_beta)

lemma mark_removed_eq:
  assumes "length es = length fs"
  shows "snd (mark_removed es fs r) = length (sent es fs)"
    "t < length (vec_mem r) \<Longrightarrow> vec_get t (fst (mark_removed es fs r)) =
      (if t \<in> pe_tag ` set (sent es fs) then not_local else vec_get t r)"
proof -
  show "snd (mark_removed es fs r) = length (sent es fs)"
    using assms by (induction es fs arbitrary: r rule: list_induct2) (auto simp: split_beta)
  show "t < length (vec_mem r) \<Longrightarrow> vec_get t (fst (mark_removed es fs r)) =
      (if t \<in> pe_tag ` set (sent es fs) then not_local else vec_get t r)"
    using assms by (induction es fs arbitrary: r rule: list_induct2) (auto simp: split_beta vec_get_set)
qed

lemma split_removed_eq:
  "split_removed es r n alt out =
    (write_elements (filter (\<lambda>e. vec_get (pe_tag e) r \<noteq> not_local) es) n alt,
     out @ filter (\<lambda>e. vec_get (pe_tag e) r = not_local) es)"
  by (induction es r n alt out rule: split_removed.induct) simp_all

lemma write_elements_eq:
  "n + length ps \<le> length es \<Longrightarrow> write_elements ps n es = take n es @ ps @ drop (n + length ps) es"
proof (induction ps n es rule: write_elements.induct)
  case (2 p ps n es)
  then have "take (Suc n) (es[n := p]) = take n es @ [p]" by (simp add: take_Suc_conv_app_nth)
  then show ?case using 2 by simp
qed simp

lemma recompute_rtags_frame [simp]:
  "length (vec_mem (recompute_rtags es i r)) = length (vec_mem r)"
  "vec_len (recompute_rtags es i r) = vec_len r" "vec_inv (recompute_rtags es i r) = vec_inv r"
  by (induction es i r rule: recompute_rtags.induct) simp_all

lemma recompute_rtags_other:
  "t \<notin> pe_tag ` set es \<Longrightarrow> vec_get t (recompute_rtags es i r) = vec_get t r"
  by (induction es i r rule: recompute_rtags.induct) (auto simp: vec_get_set)

lemma recompute_rtags_get:
  assumes "distinct (map pe_tag es)" "\<forall>e\<in>set es. pe_tag e < length (vec_mem r)" "j < length es"
  shows "vec_get (pe_tag (es ! j)) (recompute_rtags es i r) = i + j"
  using assms
proof (induction es i r arbitrary: j rule: recompute_rtags.induct)
  case (2 e es idx rtag)
  show ?case
  proof (cases j)
    case 0
    have "pe_tag e \<notin> pe_tag ` set es" using 2(2) by auto
    then show ?thesis using 0 2(3) by (simp add: recompute_rtags_other vec_get_set)
  next
    case (Suc k)
    then show ?thesis using 2(1) [of k] 2(2-4) by simp
  qed
qed simp

subsection \<open>The local particles as a list\<close>

definition local_elems :: "ParticleData \<Rightarrow> pdata_element list" where
  "local_elems pd = take (pd_nparticles pd) (pd_elems pd)"

lemma local_elems_nth: "i < pd_nparticles pd \<Longrightarrow> local_elems pd ! i = pd_elems pd ! i"
  by (simp add: local_elems_def)

lemma local_elems_length: "rank_inv pd \<Longrightarrow> length (local_elems pd) = pd_nparticles pd"
  by (auto simp: local_elems_def rank_inv_def lens_ok_def)

lemma local_tags_elems:
  assumes "pd_nparticles pd \<le> length (pd_elems pd)"
  shows "local_tags pd = pe_tag ` set (local_elems pd)"
  unfolding local_tags_def pd_tag_def local_elems_def nth_image [OF assms, symmetric]
  by (simp add: image_image atLeast0LessThan)

text \<open>The invariant of a rank without ghosts, over the list of its particles.\<close>

lemma rtag_ok_list:
  assumes "length (local_elems pd) = pd_nparticles pd" "pd_nparticles pd \<le> not_local"
  shows "rtag_ok (pd_nparticles pd) pd \<longleftrightarrow>
    distinct (map pe_tag (local_elems pd)) \<and> pe_tag ` set (local_elems pd) \<subseteq> pd_tag_set pd
    \<and> (\<forall>i<pd_nparticles pd. getRTag pd (pe_tag (local_elems pd ! i)) = i)
    \<and> (\<forall>t\<in>pd_tag_set pd - pe_tag ` set (local_elems pd). getRTag pd t = not_local)" (is "?l \<longleftrightarrow> ?r")
proof
  let ?es = "local_elems pd" and ?N = "pd_nparticles pd"
  have tg: "pd_tag pd i = pe_tag (?es ! i)" if "i < ?N" for i using that by (simp add: pd_tag_def local_elems_nth)
  have s: "pe_tag ` set ?es = pd_tag pd ` {..<?N}" using tg assms(1) by (force simp: set_conv_nth image_iff)
  show ?r if l: ?l
  proof (intro conjI allI impI ballI)
    show "distinct (map pe_tag ?es)"
      using rtag_ok_inj [OF l] tg assms(1) by (auto simp: distinct_conv_nth)
    show "pe_tag ` set ?es \<subseteq> pd_tag_set pd" using l s by (auto simp: rtag_ok_def)
    show "getRTag pd (pe_tag (?es ! i)) = i" if "i < ?N" for i using l tg [OF that] that by (auto simp: rtag_ok_def)
    show "getRTag pd t = not_local" if "t \<in> pd_tag_set pd - pe_tag ` set ?es" for t
      using l that unfolding s rtag_ok_def by (metis Diff_iff image_eqI lessThan_iff)
  qed
  show ?l if r: ?r
    unfolding rtag_ok_def
  proof (intro conjI allI impI ballI)
    show "pd_tag pd i \<in> pd_tag_set pd" "getRTag pd (pd_tag pd i) = i" if "i < ?N" for i
      using r tg [OF that] that assms(1) by auto
    show "getRTag pd t = not_local \<or> getRTag pd t < ?N \<and> pd_tag pd (getRTag pd t) = t" if "t \<in> pd_tag_set pd" for t
    proof (cases "t \<in> pe_tag ` set ?es")
      case True
      then obtain i where "i < ?N" "t = pe_tag (?es ! i)" using assms(1) by (auto simp: in_set_conv_nth)
      then show ?thesis using r tg by auto
    qed (use r that in auto)
  qed
qed


subsection \<open>Removing the flagged particles\<close>

lemma filter_kept_sent:
  assumes "length es = length fs" "distinct (map pe_tag es)"
  shows "filter (\<lambda>e. pe_tag e \<notin> pe_tag ` set (sent es fs)) es = kept es fs"
    "filter (\<lambda>e. pe_tag e \<in> pe_tag ` set (sent es fs)) es = sent es fs"
proof -
  have "filter (\<lambda>e. pe_tag e \<notin> pe_tag ` set (sent es fs)) es = kept es fs
      \<and> filter (\<lambda>e. pe_tag e \<in> pe_tag ` set (sent es fs)) es = sent es fs"
    using assms
  proof (induction es fs rule: list_induct2)
    case (Cons e es f fs)
    have e: "pe_tag e \<notin> pe_tag ` set es" using Cons.prems by auto
    then have ns: "pe_tag e \<notin> pe_tag ` set (sent es fs)" using kept_sent_set [OF Cons.hyps] by auto
    have "filter (\<lambda>x. pe_tag x \<in> pe_tag ` set (e # sent es fs)) es = filter (\<lambda>x. pe_tag x \<in> pe_tag ` set (sent es fs)) es"
      "filter (\<lambda>x. pe_tag x \<notin> pe_tag ` set (e # sent es fs)) es = filter (\<lambda>x. pe_tag x \<notin> pe_tag ` set (sent es fs)) es"
      using e by (auto intro!: filter_cong) (metis image_eqI)+
    then show ?case using Cons ns by simp
  qed simp
  then show "filter (\<lambda>e. pe_tag e \<notin> pe_tag ` set (sent es fs)) es = kept es fs"
    "filter (\<lambda>e. pe_tag e \<in> pe_tag ` set (sent es fs)) es = sent es fs" by blast+
qed

lemma removeParticles_ok:
  assumes inv: "rank_inv pd" and ng: "pd_nghosts pd = 0"
    and rem: "removeParticles pd = (out, flags, pd')"
  defines "es \<equiv> local_elems pd" and "fs \<equiv> take (pd_nparticles pd) (pd_comm_flags pd)"
  shows "out = sent es fs" "flags = filter (\<lambda>f. f \<noteq> 0) fs" "local_elems pd' = kept es fs"
    "rank_inv pd'" "replicated pd' pd" "pd_nghosts pd' = 0" "pd_type_mapping pd' = pd_type_mapping pd"
    "\<forall>i<pd_nparticles pd'. pd_comm_flags pd' ! i = 0"
proof -
  let ?N = "pd_nparticles pd" and ?k = "length (sent es fs)"
  have len: "lens_ok pd" "?N \<le> pd_max_nparticles pd" and tags: "tags_ok pd" and ok: "rtag_ok ?N pd"
    and ga: "pd_ghosts_added pd = 0" using inv ng by (auto simp: rank_inv_def)
  have NL: "?N \<le> not_local" using rank_inv_bound [OF inv] ng by simp
  have l: "length es = length fs" "length es = ?N" using len by (auto simp: es_def fs_def local_elems_def lens_ok_def)
  note L = ok [unfolded rtag_ok_list [OF local_elems_length [OF inv] NL], folded es_def]
  have d: "distinct (map pe_tag es)" using L by simp
  note ks = kept_sent_set [OF l(1)] kept_sent_distinct [OF l(1) d] kept_sent_length [OF l(1)]
  define r1 where "r1 = fst (mark_removed es fs (pd_rtag pd))"
  have k: "mark_removed es fs (pd_rtag pd) = (r1, ?k)"
    using mark_removed_eq(1) [OF l(1), of "pd_rtag pd"] by (simp add: r1_def prod_eq_iff)
  have mem: "pe_tag e < length (vec_mem (pd_rtag pd))" "pe_tag e \<in> pd_tag_set pd" if "e \<in> set es" for e
    using L that tag_set_mem [OF tags] by auto
  have r1: "vec_get t r1 = (if t \<in> pe_tag ` set (sent es fs) then not_local else getRTag pd t)"
    if "t < length (vec_mem (pd_rtag pd))" for t
    unfolding r1_def getRTag_def by (rule mark_removed_eq(2) [OF l(1) that])
  have keep: "vec_get (pe_tag e) r1 = not_local \<longleftrightarrow> pe_tag e \<in> pe_tag ` set (sent es fs)" if "e \<in> set es" for e
  proof -
    obtain i where "i < ?N" "e = es ! i" using \<open>e \<in> set es\<close> l(2) by (auto simp: in_set_conv_nth)
    then have "getRTag pd (pe_tag e) \<noteq> not_local" using L NL by auto
    then show ?thesis using r1 [OF mem(1) [OF that]] by simp
  qed
  have f: "filter (\<lambda>e. vec_get (pe_tag e) r1 \<noteq> not_local) es = kept es fs"
    "filter (\<lambda>e. vec_get (pe_tag e) r1 = not_local) es = sent es fs"
    using filter_kept_sent [OF l(1) d] keep by (auto cong: filter_cong)
  have nk: "?N - ?k = length (kept es fs)" "length (kept es fs) \<le> ?N" using ks(5) l(2) by auto
  let ?alt = "kept es fs @ drop (length (kept es fs)) (pd_alt pd)"
  have sp: "split_removed es r1 0 (pd_alt pd) [] = (?alt, sent es fs)"
    using len nk by (simp add: split_removed_eq f write_elements_eq lens_ok_def)
  let ?q = "pd\<lparr>pd_rtag := recompute_rtags (kept es fs) 0 r1, pd_nparticles := length (kept es fs),
      pd_comm_flags := replicate (length (kept es fs)) 0 @ drop (length (kept es fs)) (pd_comm_flags pd),
      pd_elems := ?alt, pd_alt := pd_elems pd\<rparr>"
  have E: "take ?N (pd_elems pd) = es" and F: "take ?N (pd_comm_flags pd) = fs"
    by (simp_all add: es_def fs_def local_elems_def)
  have rs: "pd_resize (length (kept es fs)) (pd\<lparr>pd_rtag := r1\<rparr>) = pd\<lparr>pd_rtag := r1, pd_nparticles := length (kept es fs)\<rparr>"
    using len nk(2) by (subst pd_resize_same) (auto simp: lens_ok_def)
  have all: "removeParticles pd = (sent es fs, filter (\<lambda>f. f \<noteq> 0) fs, ?q)"
    by (simp add: removeParticles_def Let_def E F k nk(1) rs sp)
  have pd': "pd' = ?q" using rem all by simp
  show "out = sent es fs" "flags = filter (\<lambda>f. f \<noteq> 0) fs" using rem all by simp_all
  show le: "local_elems pd' = kept es fs" by (simp add: pd' local_elems_def)
  show "replicated pd' pd" "pd_nghosts pd' = 0" "pd_type_mapping pd' = pd_type_mapping pd"
    using ng mark_removed_frame(2) by (simp_all add: pd' replicated_def r1_def)
  show "\<forall>i<pd_nparticles pd'. pd_comm_flags pd' ! i = 0" by (simp add: pd' nth_append)
  have lens': "lens_ok pd'" using len nk by (auto simp: pd' lens_ok_def)
  have mm: "length (vec_mem r1) = length (vec_mem (pd_rtag pd))" by (simp add: r1_def mark_removed_frame)
  have other: "getRTag pd' t = vec_get t r1" if "t \<notin> pe_tag ` set (kept es fs)" for t
    using recompute_rtags_other [OF that] by (simp add: pd' getRTag_def)
  have sub: "set (kept es fs) \<subseteq> set es"
    and im: "pe_tag ` set es = pe_tag ` set (kept es fs) \<union> pe_tag ` set (sent es fs)"
    using ks(1) by blast+
  have "rtag_ok (pd_nparticles pd') pd'"
  proof (subst rtag_ok_list)
    show "length (local_elems pd') = pd_nparticles pd'" "pd_nparticles pd' \<le> not_local" using nk NL le by (auto simp: pd')
    have "getRTag pd' (pe_tag (kept es fs ! i)) = i" if "i < length (kept es fs)" for i
      using recompute_rtags_get [OF ks(2), of r1 i 0] that mem sub mm by (auto simp: pd' getRTag_def)
    moreover have "getRTag pd' t = not_local" if "t \<in> pd_tag_set pd - pe_tag ` set (kept es fs)" for t
      using other [of t] that r1 [OF tag_set_mem [OF tags]] L im by auto
    ultimately show "distinct (map pe_tag (local_elems pd')) \<and> pe_tag ` set (local_elems pd') \<subseteq> pd_tag_set pd'
        \<and> (\<forall>i<pd_nparticles pd'. getRTag pd' (pe_tag (local_elems pd' ! i)) = i)
        \<and> (\<forall>t\<in>pd_tag_set pd' - pe_tag ` set (local_elems pd'). getRTag pd' t = not_local)"
      using ks(2) mem(2) sub unfolding le by (auto simp: pd')
  qed
  moreover have "tags_ok pd'"
  proof -
    have "getRTag pd' t = not_local" if t: "t \<in> set (pd_recycled_tags pd)" for t
    proof -
      have "t \<notin> pe_tag ` set (kept es fs)" using rank_lookup(5) [OF inv ng t] mem(2) sub by auto
      then show ?thesis using other [of t] r1 [of t] rank_lookup(5) [OF inv ng t] by simp
    qed
    then show ?thesis using tags mm mark_removed_frame(2,3) by (auto simp: tags_ok_def pd' r1_def)
  qed
  ultimately show "rank_inv pd'" using lens' nk len ng ga by (auto simp: rank_inv_def pd')
qed


subsection \<open>Appending received particles\<close>

lemma addParticles_ok:
  assumes inv: "rank_inv pd" and ng: "pd_nghosts pd = 0"
    and d: "distinct (map pe_tag inp)" and sub: "pe_tag ` set inp \<subseteq> pd_tag_set pd"
    and new: "pe_tag ` set inp \<inter> local_tags pd = {}"
  defines "pd' \<equiv> addParticles inp pd"
  shows "map clear_net (local_elems pd') = map clear_net (local_elems pd @ inp)"
    "rank_inv pd'" "replicated pd' pd" "pd_nghosts pd' = 0" "pd_type_mapping pd' = pd_type_mapping pd"
proof -
  let ?N = "pd_nparticles pd" and ?M = "pd_nparticles pd + length inp"
  have len: "lens_ok pd" "?N \<le> pd_max_nparticles pd" and tags: "tags_ok pd" and ok: "rtag_ok ?N pd"
    and ga: "pd_ghosts_added pd = 0" using inv ng by (auto simp: rank_inv_def)
  define q where "q = pd_resize ?M pd"
  note ql = pd_resize_lens [OF len(1), of ?M, folded q_def]
  have qe: "length (pd_elems q) = pd_max_nparticles q" "length (pd_comm_flags q) = pd_max_nparticles q"
    using ql(1) by (auto simp: lens_ok_def)
  have we: "write_elements inp ?N (pd_elems q) = take ?N (pd_elems q) @ inp @ drop ?M (pd_elems q)"
    using ql(2) qe by (intro write_elements_eq) simp
  define es where "es = take ?N (pd_elems q) @ inp"
  have le: "length es = ?M" using ql(2) qe by (simp add: es_def)
  have pd': "pd' = q\<lparr>pd_elems := es @ drop ?M (pd_elems q),
      pd_comm_flags := take ?N (pd_comm_flags q) @ replicate (length inp) 0 @ drop ?M (pd_comm_flags q),
      pd_rtag := recompute_rtags es 0 (pd_rtag pd)\<rparr>"
    using le by (simp add: pd'_def addParticles_def Let_def q_def [symmetric] we es_def)
  have loc: "local_elems pd' = es" using le by (simp add: pd' local_elems_def q_def)
  have old: "map clear_net (take ?N (pd_elems q)) = map clear_net (local_elems pd)"
    using pd_resize_elems [OF len(1), of _ ?M] len ql(2) qe
    by (intro nth_equalityI) (auto simp: q_def [symmetric] local_elems_def lens_ok_def)
  then show cn: "map clear_net (local_elems pd') = map clear_net (local_elems pd @ inp)"
    by (simp add: loc es_def)
  have tg: "map pe_tag es = map pe_tag (local_elems pd @ inp)"
    using arg_cong [OF cn, where f = "map pe_tag"] by (simp add: loc comp_def)
  have NL: "?N \<le> not_local" using rank_inv_bound [OF inv] ng by simp
  note L = ok [unfolded rtag_ok_list [OF local_elems_length [OF inv] NL]]
  have lt: "local_tags pd = pe_tag ` set (local_elems pd)" using len by (intro local_tags_elems) (simp add: lens_ok_def)
  have ts: "pe_tag ` set es = pe_tag ` set (local_elems pd) \<union> pe_tag ` set inp"
    using arg_cong [OF tg, where f = set] by auto
  have dist: "distinct (map pe_tag es)" unfolding tg using L d new lt by auto
  have subs: "pe_tag ` set es \<subseteq> pd_tag_set pd" using ts L sub by simp
  have mem: "\<forall>e\<in>set es. pe_tag e < length (vec_mem (pd_rtag pd))" using subs tag_set_mem [OF tags] by auto
  have Mle: "?M \<le> not_local"
  proof -
    have "?M = card (pe_tag ` set es)" using distinct_card [OF dist] le by simp
    also have "\<dots> \<le> card (pd_tag_set pd)"
      using subs tags by (intro card_mono) (auto simp: tags_ok_def pool_wf_def)
    also have "\<dots> \<le> not_local" using tags by (auto simp: tags_ok_def pool_wf_def)
    finally show ?thesis .
  qed
  have np: "pd_nparticles pd' = ?M" "pd_tag_set pd' = pd_tag_set pd" by (simp_all add: pd' q_def)
  have other: "getRTag pd' t = getRTag pd t" if "t \<notin> pe_tag ` set es" for t
    using recompute_rtags_other [OF that] by (simp add: pd' getRTag_def)
  have "rtag_ok (pd_nparticles pd') pd'"
  proof (subst rtag_ok_list)
    show "length (local_elems pd') = pd_nparticles pd'" "pd_nparticles pd' \<le> not_local" using le Mle by (auto simp: loc np)
    have "getRTag pd' (pe_tag (es ! i)) = i" if "i < ?M" for i
      using recompute_rtags_get [OF dist mem, of i 0] that le by (simp add: pd' getRTag_def)
    moreover have "getRTag pd' t = not_local" if "t \<in> pd_tag_set pd - pe_tag ` set es" for t
      using other [of t] that L ts by auto
    ultimately show "distinct (map pe_tag (local_elems pd')) \<and> pe_tag ` set (local_elems pd') \<subseteq> pd_tag_set pd'
        \<and> (\<forall>i<pd_nparticles pd'. getRTag pd' (pe_tag (local_elems pd' ! i)) = i)
        \<and> (\<forall>t\<in>pd_tag_set pd' - pe_tag ` set (local_elems pd'). getRTag pd' t = not_local)"
      using dist subs unfolding loc np by auto
  qed
  moreover have "tags_ok pd'"
  proof -
    have "getRTag pd' t = not_local" if "t \<in> set (pd_recycled_tags pd)" for t
      using other [of t] rank_lookup(5) [OF inv ng that] subs by auto
    then show ?thesis using tags by (auto simp: tags_ok_def pd' q_def)
  qed
  moreover have "lens_ok pd'" "?M \<le> pd_max_nparticles pd'" using ql qe le by (auto simp: pd' lens_ok_def)
  ultimately show "rank_inv pd'" using ng ga by (simp add: rank_inv_def np) (simp add: pd' q_def)
  show "replicated pd' pd" "pd_nghosts pd' = 0" "pd_type_mapping pd' = pd_type_mapping pd"
    using ng by (simp_all add: pd' q_def replicated_def)
qed


lemma migrate_frame [simp]:
  "pd_global_box (addParticles inp pd) = pd_global_box pd" "pd_origin (addParticles inp pd) = pd_origin pd"
  "pd_o_image (addParticles inp pd) = pd_o_image pd"
  "pd_global_box (snd (snd (removeParticles pd))) = pd_global_box pd"
  "pd_origin (snd (snd (removeParticles pd))) = pd_origin pd"
  "pd_o_image (snd (snd (removeParticles pd))) = pd_o_image pd"
  by (simp_all add: addParticles_def removeParticles_def Let_def split_beta)

text \<open>No local particle is marked to be sent.\<close>

definition flags_clear :: "ParticleData \<Rightarrow> bool" where
  "flags_clear pd \<longleftrightarrow> (\<forall>i<pd_nparticles pd. pd_comm_flags pd ! i = 0)"

lemma addParticles_flags:
  assumes "lens_ok pd" "pd_nparticles pd \<le> pd_max_nparticles pd" "flags_clear pd"
  shows "flags_clear (addParticles inp pd)"
proof -
  let ?q = "pd_resize (pd_nparticles pd + length inp) pd"
  have "pd_comm_flags ?q ! i = 0" if "i < pd_nparticles pd" for i
    using assms that grow_alloc_ge(2) [of "pd_max_nparticles pd" "pd_nparticles pd + length inp"]
    by (auto simp: pd_resize_def pd_reallocate_def lens_ok_def Let_def resized_nth flags_clear_def)
  then show ?thesis using pd_resize_lens [OF assms(1), of "pd_nparticles pd + length inp"]
    by (auto simp: flags_clear_def addParticles_def Let_def nth_append lens_ok_def)
qed

subsection \<open>Particles move, the run stays the same\<close>

definition world_elems :: "world \<Rightarrow> pdata_element list" where
  "world_elems w = concat (map local_elems w)"

lemma distinct_concat_nth:
  "distinct (concat xs) \<longleftrightarrow> (\<forall>i<length xs. distinct (xs ! i))
    \<and> (\<forall>i<length xs. \<forall>j<length xs. i \<noteq> j \<longrightarrow> set (xs ! i) \<inter> set (xs ! j) = {})"
proof (induction xs)
  case (Cons x xs)
  have "set x \<inter> set (concat xs) = {} \<longleftrightarrow> (\<forall>y\<in>set xs. set x \<inter> set y = {})" by auto
  also have "\<dots> \<longleftrightarrow> (\<forall>j<length xs. set x \<inter> set (xs ! j) = {})" by (rule all_set_conv_all_nth)
  finally have x: "set x \<inter> set (concat xs) = {} \<longleftrightarrow> (\<forall>j<length xs. set x \<inter> set (xs ! j) = {})" .
  show ?case unfolding concat.simps distinct_append x Cons.IH length_Cons All_less_Suc2 nth_Cons_0 nth_Cons_Suc
    by (simp add: Int_commute all_conj_distrib imp_conjR) blast
qed simp

lemma rank_elems:
  assumes "rank_inv pd"
  shows "local_tags pd = pe_tag ` set (local_elems pd)" "distinct (map pe_tag (local_elems pd))"
    "pe_tag ` set (local_elems pd) \<subseteq> pd_tag_set pd" "e \<in> set (local_elems pd) \<Longrightarrow> look pd (pe_tag e) = e"
proof -
  let ?N = "pd_nparticles pd"
  have le: "?N \<le> length (pd_elems pd)" and rt: "\<forall>i<?N. pd_tag pd i \<in> pd_tag_set pd \<and> getRTag pd (pd_tag pd i) = i"
    using assms by (auto simp: rank_inv_def lens_ok_def rtag_ok_def)
  show lt: "local_tags pd = pe_tag ` set (local_elems pd)" by (rule local_tags_elems [OF le])
  have "inj_on (pd_tag pd) {..<?N}" using rt by (intro inj_onI) (metis lessThan_iff)
  then have "card (local_tags pd) = ?N" by (simp add: local_tags_def card_image)
  then show "distinct (map pe_tag (local_elems pd))"
    using lt le by (intro card_distinct) (simp add: local_elems_def)
  show "pe_tag ` set (local_elems pd) \<subseteq> pd_tag_set pd" unfolding lt [symmetric] local_tags_def using rt by auto
  assume "e \<in> set (local_elems pd)"
  then obtain i where "i < ?N" "e = pd_elems pd ! i" using le by (auto simp: local_elems_def in_set_conv_nth)
  then show "look pd (pe_tag e) = e" using rt by (simp add: look_def pd_tag_def)
qed

lemma world_inv_elems:
  "world_inv w \<longleftrightarrow> w \<noteq> [] \<and> (\<forall>pd\<in>set w. rank_inv pd \<and> replicated pd (hd w))
    \<and> distinct (map pe_tag (world_elems w)) \<and> pe_tag ` set (world_elems w) = active_tags w"
    (is "_ \<longleftrightarrow> ?ne \<and> ?ranks \<and> ?d \<and> ?c")
proof -
  have m: "map pe_tag (world_elems w) = concat (map (map pe_tag \<circ> local_elems) w)" by (simp add: world_elems_def map_concat)
  have d: "?d \<longleftrightarrow> (\<forall>r<length w. \<forall>s<length w. r \<noteq> s \<longrightarrow> local_tags (w ! r) \<inter> local_tags (w ! s) = {})" if ?ranks
  proof -
    have lt: "set (map pe_tag (local_elems (w ! r))) = local_tags (w ! r)" "distinct (map pe_tag (local_elems (w ! r)))"
      if "r < length w" for r using rank_elems(1,2) [of "w ! r"] \<open>?ranks\<close> that by auto
    show ?thesis unfolding m distinct_concat_nth using lt by (simp del: set_map)
  qed
  have c: "?c \<longleftrightarrow> (\<forall>t\<in>pd_tag_set (hd w). \<exists>r<length w. t \<in> local_tags (w ! r))" if ?ranks
  proof -
    have "pe_tag ` set (world_elems w) = (\<Union>pd\<in>set w. local_tags pd)"
      using rank_elems(1) that by (simp add: world_elems_def image_UN)
    moreover have "(\<Union>pd\<in>set w. local_tags pd) \<subseteq> pd_tag_set (hd w)"
      using rank_elems(1,3) that by (fastforce simp: replicated_def)
    ultimately have "?c \<longleftrightarrow> (\<forall>t\<in>pd_tag_set (hd w). \<exists>pd\<in>set w. t \<in> local_tags pd)" by (auto simp: active_tags_def)
    moreover have "(\<exists>pd\<in>set w. P pd) \<longleftrightarrow> (\<exists>r<length w. P (w ! r))" for P using all_set_conv_all_nth [of w "\<lambda>x. \<not> P x"] by blast
    ultimately show ?thesis by simp
  qed
  have r: "?ranks \<longleftrightarrow> (\<forall>r<length w. rank_inv (w ! r) \<and> replicated (w ! r) (hd w))" by (rule all_set_conv_all_nth)
  have "?ranks \<longrightarrow> (?c \<and> ?d \<longleftrightarrow> (\<forall>t\<in>pd_tag_set (hd w). \<exists>r<length w. t \<in> local_tags (w ! r))
      \<and> (\<forall>r<length w. \<forall>s<length w. r \<noteq> s \<longrightarrow> local_tags (w ! r) \<inter> local_tags (w ! s) = {}))"
    using d c by (intro impI) (simp only:)
  then show ?thesis unfolding world_inv_def r [symmetric] by argo
qed

lemma world_look_elem:
  assumes w: "world_inv w" and e: "e \<in> set (world_elems w)"
  shows "world_look w (pe_tag e) = e"
proof -
  obtain pd where pd: "pd \<in> set w" "e \<in> set (local_elems pd)" using e by (auto simp: world_elems_def)
  then obtain r where r: "r < length w" "e \<in> set (local_elems (w ! r))" by (metis in_set_conv_nth)
  note re = rank_elems [OF world_inv_rank(1) [OF w r(1)]]
  have "pe_tag e \<in> active_tags w" using w e unfolding world_inv_elems by blast
  then show ?thesis using world_look_owner [OF w _ r(1)] re(1) re(4) [OF r(2)] r(2) by auto
qed

text \<open>
  A redistribution: every rank's store is consistent and the particles of all ranks are the same, up
  to a view \<open>v\<close> of their data that shows the tag. Then the run is consistent and every tag is
  found with the same data as before.
\<close>

lemma world_redistributed:
  assumes w: "world_inv w" and len: "length w' = length w"
    and ranks: "\<And>r. r < length w \<Longrightarrow> rank_inv (w' ! r) \<and> replicated (w' ! r) (w ! r)"
    and same: "mset (map v (world_elems w')) = mset (map v (world_elems w))"
    and v: "\<And>e. pe_tag (v e) = pe_tag e"
  shows "world_inv w'" "active_tags w' = active_tags w"
    "t \<in> active_tags w \<Longrightarrow> v (world_look w' t) = v (world_look w t)"
proof -
  have ne: "w \<noteq> []" "w' \<noteq> []" using w len by (auto simp: world_inv_def)
  then have h: "replicated (hd w') (hd w)" using ranks [of 0] by (simp add: hd_conv_nth len)
  then show act: "active_tags w' = active_tags w" by (simp add: active_tags_def replicated_def)
  have vt: "map pe_tag xs = map pe_tag (map v xs)" for xs by (simp add: v)
  have mt: "mset (map pe_tag (world_elems w')) = mset (map pe_tag (world_elems w))"
    unfolding vt mset_map [of pe_tag] same ..
  have "distinct (map pe_tag (world_elems w'))" using mt w mset_eq_imp_distinct_iff unfolding world_inv_elems by blast
  moreover have "pe_tag ` set (world_elems w') = active_tags w'"
    using mset_eq_setD [OF mt] w act unfolding world_inv_elems by simp
  moreover have "rank_inv pd \<and> replicated pd (hd w')" if pd: "pd \<in> set w'" for pd
  proof -
    obtain r where r: "r < length w" "pd = w' ! r" using pd len by (metis in_set_conv_nth)
    then show ?thesis using ranks [OF r(1)] h world_inv_rank [OF w r(1)] by (auto simp: replicated_def active_tags_def)
  qed
  ultimately show inv': "world_inv w'" unfolding world_inv_elems using ne by blast
  assume "t \<in> active_tags w"
  then obtain e where e: "e \<in> set (world_elems w')" "t = pe_tag e" using inv' act unfolding world_inv_elems by blast
  then have "v e \<in> v ` set (world_elems w)" using mset_eq_setD [OF same] by auto
  then obtain f where f: "f \<in> set (world_elems w)" "v f = v e" by auto
  have "pe_tag f = pe_tag e" using v f(2) by metis
  then show "v (world_look w' t) = v (world_look w t)"
    using world_look_elem [OF inv' e(1)] world_look_elem [OF w f(1)] e(2) f(2) by simp
qed

end
