(* ===== verification/Domain_Decomposition.thy ===== *)
theory Domain_Decomposition
  imports Index1D Box_Dim
begin

section \<open>Domain decomposition\<close>

text \<open>
  \<open>DomainDecomposition\<close> of \<^verbatim>\<open>hoomd/DomainDecomposition.cc\<close>: the choice of the grid of
  domains, the map between grid cells and ranks, the cumulative fractions that place the domain
  boundaries, the local box of a rank, the neighbours of a rank and the rank that a position belongs
  to. Grid dimensions and ranks are natural numbers, the index of a grid cell is computed by
  \<open>Index3D\<close> on 32-bit words. The constructors, with the map of cells to ranks they set up, are in
  \<open>Domain_Setup\<close>; the theorems here hold for every map of cells to ranks that is a permutation.
\<close>

subsection \<open>Choosing the grid\<close>

definition dd_surface :: "vec3 \<Rightarrow> nat \<times> nat \<times> nat \<Rightarrow> Scalar" where
  "dd_surface L = (\<lambda>(nx, ny, nz).
    if zc L = 0 then xc L * (real ny - 1) + yc L * (real nx - 1)
    else xc L * yc L * (real nz - 1) + xc L * zc L * (real ny - 1) + yc L * zc L * (real nx - 1))"

text \<open>The tests that the loops of \<open>findDecomposition\<close> skip a candidate by.\<close>

definition dd_admissible :: "nat \<Rightarrow> vec3 \<Rightarrow> nat \<times> nat \<times> nat \<Rightarrow> nat \<times> nat \<times> nat \<Rightarrow> bool" where
  "dd_admissible nranks L req = (\<lambda>(nx, ny, nz).
    (xc req \<noteq> 0 \<longrightarrow> nx = xc req) \<and> (yc req \<noteq> 0 \<longrightarrow> ny = yc req) \<and> (zc req \<noteq> 0 \<longrightarrow> nz = zc req)
    \<and> nx * ny * nz = nranks \<and> \<not> (zc L = 0 \<and> nz > 1))"

type_synonym dd_search = "(nat \<times> nat \<times> nat) \<times> Scalar \<times> bool"

definition dd_try :: "nat \<Rightarrow> vec3 \<Rightarrow> nat \<times> nat \<times> nat \<Rightarrow> nat \<times> nat \<times> nat \<Rightarrow> dd_search \<Rightarrow> dd_search" where
  "dd_try nranks L req c = (\<lambda>(best, min_surface_area, found).
    if dd_admissible nranks L req c \<and> (dd_surface L c < min_surface_area \<or> \<not> found)
    then (c, dd_surface L c, True) else (best, min_surface_area, found))"

text \<open>The triples the three nested loops run through, in their order.\<close>

definition dd_candidates :: "nat \<Rightarrow> (nat \<times> nat \<times> nat) list" where
  "dd_candidates nranks =
    concat (map (\<lambda>nx. concat (map (\<lambda>ny. map (\<lambda>nz. (nx, ny, nz))
        (takeWhile (\<lambda>nz. nx * ny * nz \<le> nranks) [1..<nranks + 2]))
      (takeWhile (\<lambda>ny. nx * ny \<le> nranks) [1..<nranks + 2]))) [1..<nranks + 1])"

definition findDecomposition :: "nat \<Rightarrow> vec3 \<Rightarrow> nat \<times> nat \<times> nat \<Rightarrow> bool \<times> (nat \<times> nat \<times> nat)" where
  "findDecomposition nranks L req =
    (let is2D = (zc L = 0);
         min_surface_area = (if is2D then xc L * (real nranks - 1) else xc L * zc L * (real nranks - 1));
         found = (req = (0, 0, 0));
         guess = (if is2D then (1, nranks, 1) else (1, 1, nranks));
         (best, area, found) = fold (dd_try nranks L req) (dd_candidates nranks) (guess, min_surface_area, found)
     in (found, best))"

subsection \<open>The decomposition\<close>

record DomainDecomposition =
  dd_nx :: nat
  dd_ny :: nat
  dd_nz :: nat
  dd_cart_ranks :: "nat list"
  dd_cart_ranks_inv :: "nat list"
  dd_frac_x :: "Scalar list"
  dd_frac_y :: "Scalar list"
  dd_frac_z :: "Scalar list"

definition dd_indexer :: "DomainDecomposition \<Rightarrow> Index3D" where
  "dd_indexer dd = \<lparr>i3_w = of_nat (dd_nx dd), i3_h = of_nat (dd_ny dd), i3_d = of_nat (dd_nz dd)\<rparr>"

definition dd_index :: "DomainDecomposition \<Rightarrow> nat \<times> nat \<times> nat \<Rightarrow> nat" where
  "dd_index dd = (\<lambda>(i, j, k). unat (Index3D_at (dd_indexer dd) (of_nat i) (of_nat j) (of_nat k)))"

definition dd_grid_pos :: "DomainDecomposition \<Rightarrow> nat \<Rightarrow> nat \<times> nat \<times> nat" where
  "dd_grid_pos dd rank =
    (let (x, y, z) = Index3D_getTriple (dd_indexer dd) (of_nat (dd_cart_ranks_inv dd ! rank))
     in (unat x, unat y, unat z))"

fun partial_sums :: "Scalar \<Rightarrow> Scalar list \<Rightarrow> Scalar list" where
  "partial_sums s [] = []"
| "partial_sums s (f # fs) = (s + f) # partial_sums (s + f) fs"

definition cumulative_fractions :: "Scalar list \<Rightarrow> Scalar list" where
  "cumulative_fractions fs = 0 # partial_sums 0 fs @ [1]"

text \<open>Uniform slices, the default.\<close>

definition uniform_fractions :: "nat \<Rightarrow> Scalar list" where
  "uniform_fractions n = cumulative_fractions (replicate (n - 1) (1 / real n))"

definition setCumulativeFractions ::
  "nat \<Rightarrow> Scalar list \<Rightarrow> DomainDecomposition \<Rightarrow> (hoomd_error option \<times> DomainDecomposition)" where
  "setCumulativeFractions dir cum dd =
    (let bad = (hd cum \<noteq> 0 \<or> last cum \<noteq> 1);
         err = (if bad then Some (InvalidArgument ''Specified fractions are invalid.'') else None)
     in if dir > 2 then (Some (InvalidArgument ''Requested direction does not exist.''), dd)
        else if dir = 0 \<and> length cum = length (dd_frac_x dd) then (err, dd\<lparr>dd_frac_x := cum\<rparr>)
        else if dir = 1 \<and> length cum = length (dd_frac_y dd) then (err, dd\<lparr>dd_frac_y := cum\<rparr>)
        else if dir = 2 \<and> length cum = length (dd_frac_z dd) then (err, dd\<lparr>dd_frac_z := cum\<rparr>)
        else (Some (InvalidArgument ''Domain decomposition cannot change topology after construction.''), dd))"

definition wrap_neigh :: "int \<Rightarrow> nat \<Rightarrow> int" where
  "wrap_neigh i n = (if i < 0 then i + int n else if i = int n then i - int n else i)"

definition dir_adj :: "nat \<Rightarrow> int \<times> int \<times> int" where
  "dir_adj dir = [(1, 0, 0), (-1, 0, 0), (0, 1, 0), (0, -1, 0), (0, 0, 1), (0, 0, -1)] ! dir"

definition getNeighborRank :: "DomainDecomposition \<Rightarrow> nat \<Rightarrow> nat \<Rightarrow> nat" where
  "getNeighborRank dd rank dir =
    (let (x, y, z) = dd_grid_pos dd rank; (ax, ay, az) = dir_adj dir;
         i = wrap_neigh (int x + ax) (dd_nx dd);
         j = wrap_neigh (int y + ay) (dd_ny dd);
         k = wrap_neigh (int z + az) (dd_nz dd)
     in dd_cart_ranks dd ! dd_index dd (nat i, nat j, nat k))"

definition isAtBoundary :: "DomainDecomposition \<Rightarrow> nat \<Rightarrow> nat \<Rightarrow> bool" where
  "isAtBoundary dd rank dir =
    (let (x, y, z) = dd_grid_pos dd rank in
     dir = 0 \<and> x = dd_nx dd - 1 \<or> dir = 1 \<and> x = 0 \<or> dir = 2 \<and> y = dd_ny dd - 1 \<or> dir = 3 \<and> y = 0
     \<or> dir = 4 \<and> z = dd_nz dd - 1 \<or> dir = 5 \<and> z = 0)"

definition calculateLocalBox :: "DomainDecomposition \<Rightarrow> nat \<Rightarrow> BoxDim \<Rightarrow> BoxDim" where
  "calculateLocalBox dd rank b =
    (let (x, y, z) = dd_grid_pos dd rank;
         lo = (xc (box_lo b) + dd_frac_x dd ! x * xc (box_L b), yc (box_lo b) + dd_frac_y dd ! y * yc (box_L b),
               zc (box_lo b) + dd_frac_z dd ! z * zc (box_L b));
         hi = (xc (box_lo b) + dd_frac_x dd ! (x + 1) * xc (box_L b),
               yc (box_lo b) + dd_frac_y dd ! (y + 1) * yc (box_L b),
               zc (box_lo b) + dd_frac_z dd ! (z + 1) * zc (box_L b))
     in (setLoHi lo hi b)\<lparr>box_periodic := (dd_nx dd = 1, dd_ny dd = 1, dd_nz dd = 1)\<rparr>)"

definition lower_bound :: "Scalar list \<Rightarrow> Scalar \<Rightarrow> nat" where
  "lower_bound xs f = length (takeWhile (\<lambda>x. x < f) xs)"

definition place_index :: "Scalar list \<Rightarrow> nat \<Rightarrow> Scalar \<Rightarrow> int" where
  "place_index cum n f =
    (let i = int (lower_bound cum f) - 1 in if i < 0 then i + 1 else if i \<ge> int n then i - 1 else i)"

definition placeParticle :: "DomainDecomposition \<Rightarrow> BoxDim \<Rightarrow> vec3 \<Rightarrow> nat result" where
  "placeParticle dd b pos =
    (let (fx, fy, fz) = makeFraction b pos (0, 0, 0); tol = 1 / 100000 in
     if fx < - tol \<or> fx \<ge> 1 + tol \<or> fy < - tol \<or> fy \<ge> 1 + tol \<or> fz < - tol \<or> fz \<ge> 1 + tol
     then Inl (RuntimeError ''Particle coordinates outside global box.'')
     else Inr (dd_cart_ranks dd ! dd_index dd
       (nat (place_index (dd_frac_x dd) (dd_nx dd) fx), nat (place_index (dd_frac_y dd) (dd_ny dd) fy),
        nat (place_index (dd_frac_z dd) (dd_nz dd) fz))))"

subsection \<open>The search finds a grid\<close>

lemma takeWhile_upt:
  assumes "\<And>x y. x \<le> y \<Longrightarrow> P y \<Longrightarrow> P x"
  shows "takeWhile P [a..<b] = filter P [a..<b]"
proof (induction "b - a" arbitrary: a)
  case (Suc n)
  then have u: "[a..<b] = a # [Suc a..<b]" by (simp add: upt_conv_Cons)
  show ?case
  proof (cases "P a")
    case True
    then show ?thesis using Suc(1) [of "Suc a"] Suc(2) u by simp
  next
    case False
    then have "\<not> P x" if "x \<in> set [a..<b]" for x using assms [of a x] that by auto
    then show ?thesis using False u by (simp add: filter_empty_conv)
  qed
qed simp

lemma loop_range:
  fixes a y n :: nat
  assumes "0 < y" "y \<le> n" "a * y \<le> n"
  shows "y \<in> set (takeWhile (\<lambda>y. a * y \<le> n) [1..<n + 2])"
proof -
  have "takeWhile (\<lambda>y. a * y \<le> n) [1..<n + 2] = filter (\<lambda>y. a * y \<le> n) [1..<n + 2]"
    by (rule takeWhile_upt) (meson le_trans mult_le_mono2)
  moreover have "y \<in> set (filter (\<lambda>y. a * y \<le> n) [1..<n + 2])"
    using assms by (simp only: set_filter set_upt atLeastLessThan_iff mem_Collect_eq) auto
  ultimately show ?thesis by simp
qed

lemma concat_mapI: "y \<in> set ys \<Longrightarrow> x \<in> set (f y) \<Longrightarrow> x \<in> set (concat (map f ys))"
  by auto

lemma map_memI: "y \<in> set ys \<Longrightarrow> f y \<in> set (map f ys)"
  by simp

lemma dd_candidates_set:
  assumes "nx * ny * nz = nranks" "0 < nranks"
  shows "(nx, ny, nz) \<in> set (dd_candidates nranks)"
proof -
  have pos: "0 < nx" "0 < ny" "0 < nz" using assms by (auto intro: Nat.gr0I)
  have le: "nx * ny \<le> nranks" "nx \<le> nranks" "ny \<le> nranks" "nz \<le> nranks"
    using assms(1) pos by auto
  have z: "nz \<in> set (takeWhile (\<lambda>nz. nx * ny * nz \<le> nranks) [1..<nranks + 2])"
    using loop_range [OF pos(3) le(4), of "nx * ny"] assms(1) by simp
  have y: "ny \<in> set (takeWhile (\<lambda>ny. nx * ny \<le> nranks) [1..<nranks + 2])" by (rule loop_range [OF pos(2) le(3,1)])
  have x: "nx \<in> set [1..<nranks + 1]" using pos le by auto
  show ?thesis unfolding dd_candidates_def
    by (rule concat_mapI [OF x], rule concat_mapI [OF y], rule map_memI [OF z])
qed

lemma dd_search_inv:
  assumes "fold (dd_try n L req) cs (b0, m0, f0) = (b, m, f)"
  shows "(f \<longleftrightarrow> f0 \<or> (\<exists>c\<in>set cs. dd_admissible n L req c))
    \<and> (f \<longrightarrow> (\<forall>c\<in>set cs. dd_admissible n L req c \<longrightarrow> m \<le> dd_surface L c))
    \<and> ((b, m) = (b0, m0) \<and> (f \<longrightarrow> f0) \<or> dd_admissible n L req b \<and> m = dd_surface L b) \<and> (f0 \<longrightarrow> m \<le> m0)"
  using assms
proof (induction cs arbitrary: b0 m0 f0)
  case (Cons c cs)
  show ?case
  proof (cases "dd_admissible n L req c \<and> (dd_surface L c < m0 \<or> \<not> f0)")
    case True
    then have "dd_try n L req c (b0, m0, f0) = (c, dd_surface L c, True)" by (simp add: dd_try_def)
    then have "fold (dd_try n L req) cs (c, dd_surface L c, True) = (b, m, f)" using Cons.prems by simp
    from Cons.IH [OF this] show ?thesis using True by auto
  next
    case False
    then have "dd_try n L req c (b0, m0, f0) = (b0, m0, f0)" by (auto simp: dd_try_def)
    then have "fold (dd_try n L req) cs (b0, m0, f0) = (b, m, f)" using Cons.prems by simp
    from Cons.IH [OF this] show ?thesis using False by (auto simp: not_less)
  qed
qed auto


lemma findDecomposition_search:
  assumes n: "0 < nranks" and r: "findDecomposition nranks L req = (found, grid)"
  defines "guess \<equiv> if zc L = 0 then (1, nranks, 1) else (1, 1, nranks)"
    and "m0 \<equiv> if zc L = 0 then xc L * (real nranks - 1) else xc L * zc L * (real nranks - 1)"
  shows "\<exists>m. (found \<longleftrightarrow> (\<exists>c. dd_admissible nranks L req c)) \<and> (found \<longrightarrow> dd_admissible nranks L req grid)
    \<and> (found \<longrightarrow> (\<forall>c. dd_admissible nranks L req c \<longrightarrow> m \<le> dd_surface L c))
    \<and> (found \<longrightarrow> m = dd_surface L grid \<or> (grid = guess \<and> m = m0 \<and> req = (0, 0, 0)))"
proof -
  obtain b m fd where F: "fold (dd_try nranks L req) (dd_candidates nranks) (guess, m0, req = (0, 0, 0)) = (b, m, fd)"
    by (rule prod_cases3)
  have f: "fold (dd_try nranks L req) (dd_candidates nranks) (guess, m0, req = (0, 0, 0)) = (grid, m, found)"
    using r unfolding findDecomposition_def Let_def guess_def [symmetric] m0_def [symmetric] F by simp
  note inv = dd_search_inv [OF f]
  have all: "c \<in> set (dd_candidates nranks)" if "dd_admissible nranks L req c" for c
    using that dd_candidates_set [OF _ n] by (cases c) (auto simp: dd_admissible_def)
  have g: "dd_admissible nranks L req guess" if "req = (0, 0, 0)" using that by (simp add: guess_def dd_admissible_def)
  show ?thesis
  proof (intro exI [of _ m] conjI impI)
    show "found \<longleftrightarrow> (\<exists>c. dd_admissible nranks L req c)" using inv all g by blast
    show "found \<Longrightarrow> dd_admissible nranks L req grid" using inv g by blast
    show "found \<Longrightarrow> \<forall>c. dd_admissible nranks L req c \<longrightarrow> m \<le> dd_surface L c" using inv all by blast
    show "found \<Longrightarrow> m = dd_surface L grid \<or> (grid = guess \<and> m = m0 \<and> req = (0, 0, 0))" using inv by blast
  qed
qed

lemma findDecomposition_adm:
  assumes "0 < nranks" "findDecomposition nranks L req = (found, grid)"
  shows "if found then dd_admissible nranks L req grid else \<forall>c. \<not> dd_admissible nranks L req c"
  using findDecomposition_search [OF assms] by (elim exE conjE) simp


lemma dd_candidates_2: "dd_candidates 2 = [(1, 1, 1), (1, 1, 2), (1, 2, 1), (2, 1, 1)]"
  by code_simp


text \<open>
  Without a request and with \<open>Lz < Ly\<close> the grid need not have the smallest surface: the initial
  guess divides along z, but the search starts from the surface of a division along y. For two
  ranks in a box of lengths 1, 10, 1 the result is the division along z with surface 10, while the
  division along y has surface 1.
\<close>

theorem findDecomposition_not_minimal:
  "findDecomposition 2 (1, 10, 1) (0, 0, 0) = (True, (1, 1, 2)) \<and> dd_surface (1, 10, 1) (1, 1, 2) = 10
   \<and> dd_admissible 2 (1, 10, 1) (0, 0, 0) (1, 2, 1) \<and> dd_surface (1, 10, 1) (1, 2, 1) = 1"
  by (simp add: findDecomposition_def dd_candidates_2 dd_try_def dd_admissible_def dd_surface_def)


subsection \<open>Well-formed decompositions\<close>

definition cum_wf :: "Scalar list \<Rightarrow> nat \<Rightarrow> bool" where
  "cum_wf cs n \<longleftrightarrow> length cs = n + 1 \<and> cs ! 0 = 0 \<and> cs ! n = 1 \<and> (\<forall>i<n. cs ! i < cs ! (i + 1))"

definition dd_nranks :: "DomainDecomposition \<Rightarrow> nat" where
  "dd_nranks dd = dd_nx dd * dd_ny dd * dd_nz dd"

definition dd_wf :: "DomainDecomposition \<Rightarrow> bool" where
  "dd_wf dd \<longleftrightarrow>
    0 < dd_nx dd \<and> 0 < dd_ny dd \<and> 0 < dd_nz dd \<and> dd_nranks dd < 4294967296
    \<and> (\<forall>g<dd_nranks dd. dd_cart_ranks dd ! g < dd_nranks dd \<and> dd_cart_ranks_inv dd ! (dd_cart_ranks dd ! g) = g)
    \<and> (\<forall>r<dd_nranks dd. dd_cart_ranks_inv dd ! r < dd_nranks dd \<and> dd_cart_ranks dd ! (dd_cart_ranks_inv dd ! r) = r)
    \<and> cum_wf (dd_frac_x dd) (dd_nx dd) \<and> cum_wf (dd_frac_y dd) (dd_ny dd) \<and> cum_wf (dd_frac_z dd) (dd_nz dd)"

definition dd_cell :: "DomainDecomposition \<Rightarrow> nat \<times> nat \<times> nat \<Rightarrow> bool" where
  "dd_cell dd c \<longleftrightarrow> xc c < dd_nx dd \<and> yc c < dd_ny dd \<and> zc c < dd_nz dd"

lemma dd_dim_bounds:
  assumes "dd_wf dd"
  shows "dd_nx dd < 4294967296" "dd_ny dd < 4294967296" "dd_nz dd < 4294967296"
proof -
  have p: "0 < dd_nx dd" "0 < dd_ny dd" "0 < dd_nz dd" "dd_nranks dd < 4294967296" using assms by (auto simp: dd_wf_def)
  have "dd_nx dd \<le> dd_nranks dd" "dd_ny dd \<le> dd_nranks dd" "dd_nz dd \<le> dd_nranks dd"
    using p(1-3) by (auto simp: dd_nranks_def)
  then show "dd_nx dd < 4294967296" "dd_ny dd < 4294967296" "dd_nz dd < 4294967296" using p(4) by linarith+
qed

lemma unat_of_nat_u32: "n < 4294967296 \<Longrightarrow> unat (of_nat n :: u32) = n"
  by (simp add: unat_of_nat take_bit_nat_eq_self)

lemma dd_indexer_wf:
  assumes "dd_wf dd"
  shows "Index3D_wf (dd_indexer dd)" "unat (Index3D_getNumElements (dd_indexer dd)) = dd_nranks dd"
proof -
  note b = dd_dim_bounds [OF assms]
  show wf: "Index3D_wf (dd_indexer dd)"
    using assms b by (simp add: Index3D_wf_def dd_indexer_def dd_wf_def dd_nranks_def word_less_nat_alt unat_of_nat_u32)
  show "unat (Index3D_getNumElements (dd_indexer dd)) = dd_nranks dd"
    using Index3D_num_nat [OF wf] b by (simp add: dd_indexer_def dd_nranks_def unat_of_nat_u32)
qed

lemma dd_cell_dom:
  assumes "dd_wf dd" "dd_cell dd (i, j, k)"
  shows "Index3D_dom (dd_indexer dd) (of_nat i, of_nat j, of_nat k)"
  using assms(2) dd_dim_bounds [OF assms(1)]
  by (simp add: dd_cell_def Index3D_dom_def dd_indexer_def word_less_nat_alt unat_of_nat_u32)

text \<open>The position of a rank in the grid, and the rank of a grid cell, are inverse to each other.\<close>

lemma dd_index_less:
  assumes "dd_wf dd" "dd_cell dd c"
  shows "dd_index dd c < dd_nranks dd"
proof -
  obtain i j k where c: "c = (i, j, k)" by (cases c)
  note dom = dd_cell_dom [OF assms(1), of i j k, OF assms(2) [unfolded c]]
  have "Index3D_at (dd_indexer dd) (of_nat i) (of_nat j) (of_nat k) < Index3D_getNumElements (dd_indexer dd)"
    using i3d.in_range [OF dd_indexer_wf(1) [OF assms(1)] dom] by simp
  then show ?thesis using dd_indexer_wf(2) [OF assms(1)] by (simp add: dd_index_def c word_less_nat_alt)
qed

lemma dd_grid_pos_cart:
  assumes wf: "dd_wf dd" and c: "dd_cell dd c"
  shows "dd_grid_pos dd (dd_cart_ranks dd ! dd_index dd c) = c"
proof -
  obtain i j k where ijk: "c = (i, j, k)" by (cases c)
  note dom = dd_cell_dom [OF wf, of i j k, OF c [unfolded ijk]]
  have "dd_cart_ranks_inv dd ! (dd_cart_ranks dd ! dd_index dd c) = dd_index dd c"
    using wf dd_index_less [OF wf c] by (simp add: dd_wf_def)
  moreover have "Index3D_getTriple (dd_indexer dd) (of_nat (dd_index dd c)) = (of_nat i, of_nat j, of_nat k)"
    using Index3D_getTriple_at [OF dd_indexer_wf(1) [OF wf] dom] by (simp add: dd_index_def ijk)
  ultimately show ?thesis using c dd_dim_bounds [OF wf]
    by (simp add: dd_grid_pos_def ijk dd_cell_def unat_of_nat_u32)
qed

lemma dd_grid_pos_cell:
  assumes wf: "dd_wf dd" and r: "r < dd_nranks dd"
  shows "dd_cell dd (dd_grid_pos dd r)" "dd_cart_ranks dd ! dd_index dd (dd_grid_pos dd r) = r"
proof -
  let ?g = "dd_cart_ranks_inv dd ! r"
  have g: "?g < dd_nranks dd" "dd_cart_ranks dd ! ?g = r" "dd_nranks dd < 4294967296" using wf r by (auto simp: dd_wf_def)
  obtain x y z where t: "Index3D_getTriple (dd_indexer dd) (of_nat ?g) = (x, y, z)" by (rule prod_cases3)
  have "of_nat ?g < Index3D_getNumElements (dd_indexer dd)"
    using g dd_indexer_wf(2) [OF wf] by (simp add: word_less_nat_alt unat_of_nat_u32)
  from Index3D_coord [OF dd_indexer_wf(1) [OF wf] this]
  have d: "Index3D_dom (dd_indexer dd) (x, y, z)" and at: "Index3D_at (dd_indexer dd) x y z = of_nat ?g" by (simp_all add: t)
  have "dd_grid_pos dd r = (unat x, unat y, unat z)" by (simp add: dd_grid_pos_def t)
  then show "dd_cell dd (dd_grid_pos dd r)" using d dd_dim_bounds [OF wf]
    by (simp add: dd_cell_def Index3D_dom_def dd_indexer_def word_less_nat_alt unat_of_nat_u32)
  have "unat (of_nat ?g :: u32) = ?g" using g by (intro unat_of_nat_u32) simp
  then show "dd_cart_ranks dd ! dd_index dd (dd_grid_pos dd r) = r"
    using at g(2) by (simp add: dd_grid_pos_def t dd_index_def)
qed

subsection \<open>Neighbours\<close>

definition opposite :: "nat \<Rightarrow> nat" where
  "opposite dir = (if dir mod 2 = 0 then dir + 1 else dir - 1)"

lemma wrap_neigh_range: "x < n \<Longrightarrow> a \<in> {-1, 0, 1} \<Longrightarrow> 0 \<le> wrap_neigh (int x + a) n \<and> wrap_neigh (int x + a) n < int n"
  by (auto simp: wrap_neigh_def)

lemma wrap_neigh_back:
  "x < n \<Longrightarrow> a \<in> {-1, 0, 1} \<Longrightarrow> wrap_neigh (wrap_neigh (int x + a) n - a) n = int x"
  by (auto simp: wrap_neigh_def)

lemma dir_cases: "dir < 6 \<Longrightarrow> dir \<in> {0, 1, 2, 3, 4, 5 :: nat}"
  by auto

lemma dir_adj_range: "dir < 6 \<Longrightarrow> xc (dir_adj dir) \<in> {-1, 0, 1} \<and> yc (dir_adj dir) \<in> {-1, 0, 1} \<and> zc (dir_adj dir) \<in> {-1, 0, 1}"
  by (drule dir_cases) (auto simp: dir_adj_def)

lemma dir_adj_opposite:
  "dir < 6 \<Longrightarrow> opposite dir < 6 \<and> dir_adj (opposite dir) = (- xc (dir_adj dir), - yc (dir_adj dir), - zc (dir_adj dir))"
  by (drule dir_cases) (auto simp: dir_adj_def opposite_def)

lemma getNeighborRank_ok:
  assumes wf: "dd_wf dd" and r: "r < dd_nranks dd" and d: "dir < 6"
  shows "getNeighborRank dd r dir < dd_nranks dd"
    "dd_grid_pos dd (getNeighborRank dd r dir) =
      (nat (wrap_neigh (int (xc (dd_grid_pos dd r)) + xc (dir_adj dir)) (dd_nx dd)),
       nat (wrap_neigh (int (yc (dd_grid_pos dd r)) + yc (dir_adj dir)) (dd_ny dd)),
       nat (wrap_neigh (int (zc (dd_grid_pos dd r)) + zc (dir_adj dir)) (dd_nz dd)))"
proof -
  let ?p = "dd_grid_pos dd r" and ?a = "dir_adj dir"
  let ?c = "(nat (wrap_neigh (int (xc ?p) + xc ?a) (dd_nx dd)), nat (wrap_neigh (int (yc ?p) + yc ?a) (dd_ny dd)),
       nat (wrap_neigh (int (zc ?p) + zc ?a) (dd_nz dd)))"
  have n: "getNeighborRank dd r dir = dd_cart_ranks dd ! dd_index dd ?c"
    by (simp add: getNeighborRank_def split_beta)
  have c: "dd_cell dd ?c"
    using dd_grid_pos_cell(1) [OF wf r] dir_adj_range [OF d] wrap_neigh_range
    by (simp add: dd_cell_def nat_less_iff del: insert_iff)
  show "getNeighborRank dd r dir < dd_nranks dd" using wf dd_index_less [OF wf c] unfolding n dd_wf_def by blast
  show "dd_grid_pos dd (getNeighborRank dd r dir) = ?c" unfolding n by (rule dd_grid_pos_cart [OF wf c])
qed

text \<open>
  C30: The neighbours of the domain grid are symmetric: the neighbour of a rank in one of the six
  directions is a rank whose neighbour in the opposite direction is the first one, across the
  periodic boundary as well. So what one rank sends east is what its neighbour expects from the west.
\<close>

theorem getNeighborRank_symmetric:
  assumes wf: "dd_wf dd" and r: "r < dd_nranks dd" and d: "dir < 6"
  shows "getNeighborRank dd r dir < dd_nranks dd \<and> getNeighborRank dd (getNeighborRank dd r dir) (opposite dir) = r"
proof -
  let ?s = "getNeighborRank dd r dir"
  note s = getNeighborRank_ok [OF wf r d] and o = dir_adj_opposite [OF d]
  have p: "dd_cell dd (dd_grid_pos dd r)" by (rule dd_grid_pos_cell(1) [OF wf r])
  have b: "nat (wrap_neigh (int (nat (wrap_neigh (int x + a) n)) + - a) n) = x" if "x < n" "a \<in> {-1, 0, 1}" for x n a
    using wrap_neigh_back [OF that] wrap_neigh_range [OF that] by simp
  have "dd_grid_pos dd (getNeighborRank dd ?s (opposite dir)) = dd_grid_pos dd r"
    using p b dir_adj_range [OF d] conjunct2 [OF o]
    unfolding getNeighborRank_ok(2) [OF wf s(1) conjunct1 [OF o]] s(2) dd_cell_def
    by (simp only: fst_conv snd_conv prod.collapse)
  then have "getNeighborRank dd ?s (opposite dir) = r"
    using dd_grid_pos_cell(2) [OF wf getNeighborRank_ok(1) [OF wf s(1) conjunct1 [OF o]]] dd_grid_pos_cell(2) [OF wf r]
    by simp
  then show ?thesis using s(1) by simp
qed


subsection \<open>The constructed decomposition\<close>

lemma partial_sums_replicate: "partial_sums s (replicate m f) = map (\<lambda>i. s + real (i + 1) * f) [0..<m]"
proof (induction m arbitrary: s)
  case (Suc m)
  have "[0..<Suc m] = 0 # map Suc [0..<m]" by (simp add: upt_conv_Cons map_Suc_upt)
  then show ?case by (simp add: Suc algebra_simps comp_def del: upt_Suc)
qed simp

lemma uniform_fractions_nth:
  assumes "0 < n"
  shows "length (uniform_fractions n) = n + 1" "i \<le> n \<Longrightarrow> uniform_fractions n ! i = real i / real n"
  using assms
  by (auto simp: uniform_fractions_def cumulative_fractions_def partial_sums_replicate nth_append nth_Cons'
      divide_simps)

lemma uniform_fractions_wf: "0 < n \<Longrightarrow> cum_wf (uniform_fractions n) n"
  by (simp add: cum_wf_def uniform_fractions_nth divide_strict_right_mono)

definition dd_example :: DomainDecomposition where
  "dd_example = \<lparr>dd_nx = 3, dd_ny = 2, dd_nz = 1, dd_cart_ranks = [0..<6], dd_cart_ranks_inv = [0..<6],
     dd_frac_x = uniform_fractions 3, dd_frac_y = uniform_fractions 2, dd_frac_z = uniform_fractions 1\<rparr>"

lemma dd_example_wf: "dd_wf dd_example" "dd_nranks dd_example = 6"
  by (simp_all add: dd_wf_def dd_example_def dd_nranks_def uniform_fractions_wf)

theorem getNeighborRank_symmetric_witness:
  "getNeighborRank dd_example 2 0 < 6 \<and> getNeighborRank dd_example (getNeighborRank dd_example 2 0) 1 = 2"
  using getNeighborRank_symmetric [OF dd_example_wf(1), of 2 0] dd_example_wf(2) by (simp add: opposite_def)

subsection \<open>The local boxes tile the global box\<close>

lemma cum_mono:
  assumes "cum_wf cs n" "i < j" "j \<le> n"
  shows "cs ! i < cs ! j"
proof -
  have "i < k \<Longrightarrow> k \<le> n \<Longrightarrow> cs ! i < cs ! k" for k
  proof (induction k)
    case (Suc k)
    have "cs ! k < cs ! Suc k" using assms(1) Suc.prems(2) by (simp add: cum_wf_def)
    then show ?case using Suc by (cases "i = k") auto
  qed simp
  then show ?thesis using assms by blast
qed

lemma cum_slot:
  assumes wf: "cum_wf cs n" and f: "0 \<le> f" "f < 1"
  shows "\<exists>!i. i < n \<and> cs ! i \<le> f \<and> f < cs ! (i + 1)"
proof -
  let ?P = "\<lambda>i. i \<le> n \<and> f < cs ! i"
  define k where "k = (LEAST i. ?P i)"
  have n: "?P n" using wf f by (simp add: cum_wf_def)
  have k: "?P k" unfolding k_def using n by (rule LeastI)
  have k0: "k \<noteq> 0" using k wf f by (auto simp: cum_wf_def intro: ccontr)
  have "\<not> ?P (k - 1)" using not_less_Least [of "k - 1" ?P] k0 by (simp add: k_def)
  then have "k - 1 < n \<and> cs ! (k - 1) \<le> f \<and> f < cs ! (k - 1 + 1)" using k k0 by auto
  moreover have "i = j" if i: "i < n" "cs ! i \<le> f" "f < cs ! (i + 1)" and j: "j < n" "cs ! j \<le> f" "f < cs ! (j + 1)" for i j
  proof (rule ccontr)
    assume "i \<noteq> j"
    then consider "i + 1 \<le> j" | "j + 1 \<le> i" by linarith
    then show False
    proof cases
      case 1
      then have "cs ! (i + 1) \<le> cs ! j" using cum_mono [OF wf, of "i + 1" j] j(1) by (cases "i + 1 = j") auto
      then show False using i j by simp
    next
      case 2
      then have "cs ! (j + 1) \<le> cs ! i" using cum_mono [OF wf, of "j + 1" i] i(1) by (cases "j + 1 = i") auto
      then show False using i j by simp
    qed
  qed
  ultimately show ?thesis by blast
qed

lemma slice_fraction:
  fixes X :: real
  assumes "L \<noteq> 0" "a0 < a1"
  shows "(X - (lo + a0 * L)) * (1 / ((lo + a1 * L) - (lo + a0 * L))) = ((X - lo) * (1 / L) - a0) / (a1 - a0)"
proof -
  have "(lo + a1 * L) - (lo + a0 * L) = (a1 - a0) * L" by (simp add: algebra_simps)
  moreover have "X - (lo + a0 * L) = ((X - lo) * (1 / L) - a0) * L" using assms(1) by (simp add: field_simps)
  ultimately show ?thesis using assms by simp
qed

lemma fraction_lo:
  "fraction b (x, y, z) =
    ((x - ((box_xz b - box_yz b * box_xy b) * z + box_xy b * y) - xc (box_lo b)) * xc (box_Linv b),
     (y - box_yz b * z - yc (box_lo b)) * yc (box_Linv b), (z - zc (box_lo b)) * zc (box_Linv b))"
  by (simp add: fraction_def makeFraction_def Let_def algebra_simps)

lemma local_fraction:
  assumes b: "box_wf b" and c: "dd_grid_pos dd r = (i, j, k)"
    and lt: "dd_frac_x dd ! i < dd_frac_x dd ! (i + 1)" "dd_frac_y dd ! j < dd_frac_y dd ! (j + 1)"
      "dd_frac_z dd ! k < dd_frac_z dd ! (k + 1)"
  shows "fraction (calculateLocalBox dd r b) v =
    ((xc (fraction b v) - dd_frac_x dd ! i) / (dd_frac_x dd ! (i + 1) - dd_frac_x dd ! i),
     (yc (fraction b v) - dd_frac_y dd ! j) / (dd_frac_y dd ! (j + 1) - dd_frac_y dd ! j),
     (zc (fraction b v) - dd_frac_z dd ! k) / (dd_frac_z dd ! (k + 1) - dd_frac_z dd ! k))"
proof -
  let ?l = "calculateLocalBox dd r b"
  obtain Lx Ly Lz where L: "Lx > 0" "Ly > 0" "Lz > 0" "box_L b = (Lx, Ly, Lz)"
    "box_Linv b = (1 / Lx, 1 / Ly, 1 / Lz)" using b by (rule box_wfE)
  obtain x y z where v: "v = (x, y, z)" by (cases v)
  obtain lx ly lz where lo: "box_lo b = (lx, ly, lz)" by (cases "box_lo b")
  have "(lz + dd_frac_z dd ! (k + 1) * Lz) - (lz + dd_frac_z dd ! k * Lz) \<noteq> 0" using lt(3) L(3) by simp
  then have "\<not> (lz + dd_frac_z dd ! (k + 1) * Lz = 0 \<and> lz + dd_frac_z dd ! k * Lz = 0)" by linarith
  then have l: "box_lo ?l = (lx + dd_frac_x dd ! i * Lx, ly + dd_frac_y dd ! j * Ly, lz + dd_frac_z dd ! k * Lz)"
    "box_Linv ?l = (1 / ((lx + dd_frac_x dd ! (i + 1) * Lx) - (lx + dd_frac_x dd ! i * Lx)),
      1 / ((ly + dd_frac_y dd ! (j + 1) * Ly) - (ly + dd_frac_y dd ! j * Ly)),
      1 / ((lz + dd_frac_z dd ! (k + 1) * Lz) - (lz + dd_frac_z dd ! k * Lz)))"
    "box_xy ?l = box_xy b" "box_xz ?l = box_xz b" "box_yz ?l = box_yz b"
    by (auto simp: calculateLocalBox_def setLoHi_def Let_def c lo L(4))
  have ne: "Lx \<noteq> 0" "Ly \<noteq> 0" "Lz \<noteq> 0" using L by auto
  show ?thesis
    unfolding v fraction_lo [of ?l] fraction_lo [of b] l L(5) lo fst_conv snd_conv
      slice_fraction [OF ne(1) lt(1)] slice_fraction [OF ne(2) lt(2)] slice_fraction [OF ne(3) lt(3)] ..
qed


lemma slot_iff:
  fixes f :: real
  assumes "a < b"
  shows "0 \<le> (f - a) / (b - a) \<and> (f - a) / (b - a) < 1 \<longleftrightarrow> a \<le> f \<and> f < b"
  using assms by (auto simp: divide_simps)

lemma cum_wf_lt: "cum_wf cs n \<Longrightarrow> i < n \<Longrightarrow> cs ! i < cs ! (i + 1)"
  by (simp add: cum_wf_def)

lemma local_inside_iff:
  assumes wf: "dd_wf dd" and b: "box_wf b" and r: "r < dd_nranks dd" and c: "dd_grid_pos dd r = (i, j, k)"
  shows "inside_box (calculateLocalBox dd r b) v \<longleftrightarrow>
    (dd_frac_x dd ! i \<le> xc (fraction b v) \<and> xc (fraction b v) < dd_frac_x dd ! (i + 1))
    \<and> (dd_frac_y dd ! j \<le> yc (fraction b v) \<and> yc (fraction b v) < dd_frac_y dd ! (j + 1))
    \<and> (dd_frac_z dd ! k \<le> zc (fraction b v) \<and> zc (fraction b v) < dd_frac_z dd ! (k + 1))"
proof -
  have cell: "i < dd_nx dd" "j < dd_ny dd" "k < dd_nz dd" using dd_grid_pos_cell(1) [OF wf r] c by (auto simp: dd_cell_def)
  have lt: "dd_frac_x dd ! i < dd_frac_x dd ! (i + 1)" "dd_frac_y dd ! j < dd_frac_y dd ! (j + 1)"
    "dd_frac_z dd ! k < dd_frac_z dd ! (k + 1)" using wf cell by (auto simp: dd_wf_def intro!: cum_wf_lt [simplified])
  show ?thesis
    unfolding inside_box_def local_fraction [OF b c lt] fst_conv snd_conv
    using slot_iff [OF lt(1), of "xc (fraction b v)"] slot_iff [OF lt(2), of "yc (fraction b v)"]
      slot_iff [OF lt(3), of "zc (fraction b v)"] by blast
qed

text \<open>
  C20: The local boxes of the ranks tile the global box, for every tilt and every choice of the domain
  boundaries: each position inside the global box lies inside the local box of exactly one rank.
\<close>

theorem local_boxes_partition:
  assumes wf: "dd_wf dd" and b: "box_wf b" and v: "inside_box b v"
  shows "\<exists>!r. r < dd_nranks dd \<and> inside_box (calculateLocalBox dd r b) v"
proof -
  obtain fx fy fz where f: "fraction b v = (fx, fy, fz)" by (cases "fraction b v")
  have fr: "0 \<le> fx" "fx < 1" "0 \<le> fy" "fy < 1" "0 \<le> fz" "fz < 1" using v by (auto simp: inside_box_def f)
  note slots = wf [unfolded dd_wf_def]
  have ux: "\<exists>!i. i < dd_nx dd \<and> dd_frac_x dd ! i \<le> fx \<and> fx < dd_frac_x dd ! (i + 1)" using slots fr by (intro cum_slot) auto
  have uy: "\<exists>!i. i < dd_ny dd \<and> dd_frac_y dd ! i \<le> fy \<and> fy < dd_frac_y dd ! (i + 1)" using slots fr by (intro cum_slot) auto
  have uz: "\<exists>!i. i < dd_nz dd \<and> dd_frac_z dd ! i \<le> fz \<and> fz < dd_frac_z dd ! (i + 1)" using slots fr by (intro cum_slot) auto
  from ux obtain i where i: "i < dd_nx dd" "dd_frac_x dd ! i \<le> fx" "fx < dd_frac_x dd ! (i + 1)" by blast
  from uy obtain j where j: "j < dd_ny dd" "dd_frac_y dd ! j \<le> fy" "fy < dd_frac_y dd ! (j + 1)" by blast
  from uz obtain k where k: "k < dd_nz dd" "dd_frac_z dd ! k \<le> fz" "fz < dd_frac_z dd ! (k + 1)" by blast
  have cell: "dd_cell dd (i, j, k)" using i j k by (simp add: dd_cell_def)
  let ?r = "dd_cart_ranks dd ! dd_index dd (i, j, k)"
  have r: "?r < dd_nranks dd" using slots dd_index_less [OF wf cell] by blast
  show ?thesis
  proof (rule ex1I [of _ ?r])
    show "?r < dd_nranks dd \<and> inside_box (calculateLocalBox dd ?r b) v"
      using local_inside_iff [OF wf b r dd_grid_pos_cart [OF wf cell]] r i j k by (simp add: f)
    fix s assume s: "s < dd_nranks dd \<and> inside_box (calculateLocalBox dd s b) v"
    obtain i' j' k' where g: "dd_grid_pos dd s = (i', j', k')" by (cases "dd_grid_pos dd s")
    have "dd_cell dd (i', j', k')" using dd_grid_pos_cell(1) [OF wf, of s] s g by simp
    then have "i' = i" "j' = j" "k' = k"
      using local_inside_iff [OF wf b _ g, of v] s ux uy uz i j k unfolding f dd_cell_def fst_conv snd_conv by blast+
    then show "s = ?r" using dd_grid_pos_cell(2) [OF wf, of s] s g by simp
  qed
qed

theorem local_boxes_partition_witness:
  "inside_box tilted10 (1, 2, 3) \<and> (\<exists>!r. r < 6 \<and> inside_box (calculateLocalBox dd_example r tilted10) (1, 2, 3))"
proof -
  have v: "inside_box tilted10 (1, 2, 3)"
    by (simp add: inside_box_def fraction_def makeFraction_def Let_def tilted10_def
        BoxDim_tilted_def setTiltFactors_def BoxDim_of_L_def setL_def)
  with local_boxes_partition [OF dd_example_wf(1) tilted10_wf v] show ?thesis by (simp add: dd_example_wf(2))
qed

subsection \<open>Placing a particle\<close>

lemma lower_bound_split:
  assumes "cum_wf cs n" "lower_bound cs f = m"
  shows "\<And>i. i < m \<Longrightarrow> cs ! i < f" "m \<le> n \<Longrightarrow> f \<le> cs ! m" "m \<le> n + 1"
proof -
  have len: "length cs = n + 1" using assms(1) by (simp add: cum_wf_def)
  have m: "m = length (takeWhile (\<lambda>x. x < f) cs)" using assms(2) by (simp add: lower_bound_def)
  show "cs ! i < f" if "i < m" for i
  proof -
    have "i < length (takeWhile (\<lambda>x. x < f) cs)" using that m by simp
    then have "takeWhile (\<lambda>x. x < f) cs ! i < f" "takeWhile (\<lambda>x. x < f) cs ! i = cs ! i"
      using set_takeWhileD [OF nth_mem] takeWhile_nth by fastforce+
    then show ?thesis by simp
  qed
  show "f \<le> cs ! m" if "m \<le> n" using nth_length_takeWhile [of "\<lambda>x. x < f" cs] that len m by simp
  show "m \<le> n + 1" using length_takeWhile_le [of "\<lambda>x. x < f" cs] len m by simp
qed

lemma place_index_slot:
  assumes wf: "cum_wf cs n" and n: "0 < n"
  shows "0 \<le> place_index cs n f" "place_index cs n f < int n"
    "0 \<le> f \<Longrightarrow> f \<le> 1 \<Longrightarrow> cs ! nat (place_index cs n f) \<le> f \<and> f \<le> cs ! (nat (place_index cs n f) + 1)"
proof -
  define m where "m = lower_bound cs f"
  note sp = lower_bound_split [OF wf m_def [symmetric]]
  have p: "place_index cs n f = (if m = 0 then 0 else if m = n + 1 then int n - 1 else int m - 1)"
    using sp(3) by (auto simp: place_index_def m_def [symmetric] Let_def)
  show "0 \<le> place_index cs n f" "place_index cs n f < int n" using p sp(3) n by auto
  assume f: "0 \<le> f" "f \<le> 1"
  have e: "cs ! 0 = 0" "cs ! n = 1" "cs ! 0 < cs ! 1" using wf n by (auto simp: cum_wf_def)
  have "m \<noteq> n + 1" using sp(1) [of n] e f by auto
  moreover have "cs ! nat (place_index cs n f) \<le> f \<and> f \<le> cs ! (nat (place_index cs n f) + 1)" if "m = 0"
    using p that sp(2) e f by auto
  moreover have "cs ! nat (place_index cs n f) \<le> f \<and> f \<le> cs ! (nat (place_index cs n f) + 1)" if "m \<noteq> 0" "m \<noteq> n + 1"
  proof -
    have "nat (int m - 1) = m - 1" by simp
    then show ?thesis using p that sp(1) [of "m - 1"] sp(2,3) by auto
  qed
  ultimately show "cs ! nat (place_index cs n f) \<le> f \<and> f \<le> cs ! (nat (place_index cs n f) + 1)" by blast
qed

lemma placeParticle_slot:
  assumes wf: "dd_wf dd" and f: "fraction b pos = (fx, fy, fz)"
    and in01: "0 \<le> fx \<and> fx \<le> 1 \<and> 0 \<le> fy \<and> fy \<le> 1 \<and> 0 \<le> fz \<and> fz \<le> 1"
  shows "\<exists>r i j k. placeParticle dd b pos = Inr r \<and> r < dd_nranks dd \<and> dd_grid_pos dd r = (i, j, k)
        \<and> dd_frac_x dd ! i \<le> fx \<and> fx \<le> dd_frac_x dd ! (i + 1) \<and> dd_frac_y dd ! j \<le> fy \<and> fy \<le> dd_frac_y dd ! (j + 1)
        \<and> dd_frac_z dd ! k \<le> fz \<and> fz \<le> dd_frac_z dd ! (k + 1)"
proof -
  have F: "makeFraction b pos (0, 0, 0) = (fx, fy, fz)" using f by (simp add: fraction_def)
  note w = wf [unfolded dd_wf_def]
  have sx: "cum_wf (dd_frac_x dd) (dd_nx dd)" "0 < dd_nx dd" and sy: "cum_wf (dd_frac_y dd) (dd_ny dd)" "0 < dd_ny dd"
    and sz: "cum_wf (dd_frac_z dd) (dd_nz dd)" "0 < dd_nz dd" using w by blast+
  define i j k where ijk: "i = nat (place_index (dd_frac_x dd) (dd_nx dd) fx)"
    "j = nat (place_index (dd_frac_y dd) (dd_ny dd) fy)" "k = nat (place_index (dd_frac_z dd) (dd_nz dd) fz)"
  have cell: "dd_cell dd (i, j, k)"
    using place_index_slot(1,2) [OF sx, of fx] place_index_slot(1,2) [OF sy, of fy] place_index_slot(1,2) [OF sz, of fz]
    by (simp add: ijk dd_cell_def nat_less_iff)
  let ?r = "dd_cart_ranks dd ! dd_index dd (i, j, k)"
  have "placeParticle dd b pos = Inr ?r" using in01 by (simp add: placeParticle_def F Let_def ijk)
  moreover have "?r < dd_nranks dd" using w dd_index_less [OF wf cell] by blast
  moreover have "dd_grid_pos dd ?r = (i, j, k)" by (rule dd_grid_pos_cart [OF wf cell])
  ultimately show "\<exists>r i j k. placeParticle dd b pos = Inr r \<and> r < dd_nranks dd \<and> dd_grid_pos dd r = (i, j, k)
        \<and> dd_frac_x dd ! i \<le> fx \<and> fx \<le> dd_frac_x dd ! (i + 1) \<and> dd_frac_y dd ! j \<le> fy \<and> fy \<le> dd_frac_y dd ! (j + 1)
        \<and> dd_frac_z dd ! k \<le> fz \<and> fz \<le> dd_frac_z dd ! (k + 1)"
    using place_index_slot(3) [OF sx, of fx] place_index_slot(3) [OF sy, of fy] place_index_slot(3) [OF sz, of fz] in01
    unfolding ijk [symmetric] by blast
qed

text \<open>
  C28: \<open>placeParticle\<close> accepts every position inside the global box (and rejects one that is more than
  the tolerance outside of it) and returns a rank whose domain, boundaries included, contains the
  position. A position on a boundary between two domains goes to the lower one.
\<close>

theorem placeParticle_correct:
  assumes wf: "dd_wf dd" and f: "fraction b pos = (fx, fy, fz)"
  shows "(0 \<le> fx \<and> fx \<le> 1 \<and> 0 \<le> fy \<and> fy \<le> 1 \<and> 0 \<le> fz \<and> fz \<le> 1 \<longrightarrow>
      (\<exists>r i j k. placeParticle dd b pos = Inr r \<and> r < dd_nranks dd \<and> dd_grid_pos dd r = (i, j, k)
        \<and> dd_frac_x dd ! i \<le> fx \<and> fx \<le> dd_frac_x dd ! (i + 1) \<and> dd_frac_y dd ! j \<le> fy \<and> fy \<le> dd_frac_y dd ! (j + 1)
        \<and> dd_frac_z dd ! k \<le> fz \<and> fz \<le> dd_frac_z dd ! (k + 1)))
    \<and> (fx < - 1 / 100000 \<or> fx \<ge> 1 + 1 / 100000 \<or> fy < - 1 / 100000 \<or> fy \<ge> 1 + 1 / 100000
        \<or> fz < - 1 / 100000 \<or> fz \<ge> 1 + 1 / 100000 \<longrightarrow>
        placeParticle dd b pos = Inl (RuntimeError ''Particle coordinates outside global box.''))"
proof (intro conjI impI)
  have F: "makeFraction b pos (0, 0, 0) = (fx, fy, fz)" using f by (simp add: fraction_def)
  show "placeParticle dd b pos = Inl (RuntimeError ''Particle coordinates outside global box.'')"
    if "fx < - 1 / 100000 \<or> fx \<ge> 1 + 1 / 100000 \<or> fy < - 1 / 100000 \<or> fy \<ge> 1 + 1 / 100000
        \<or> fz < - 1 / 100000 \<or> fz \<ge> 1 + 1 / 100000" using that by (auto simp: placeParticle_def F Let_def)
qed (rule placeParticle_slot [OF assms])

theorem placeParticle_correct_witness:
  "\<exists>r i j k. placeParticle dd_example tilted10 (1, 2, 3) = Inr r \<and> r < 6 \<and> dd_grid_pos dd_example r = (i, j, k)"
proof -
  obtain fx fy fz where f: "fraction tilted10 (1, 2, 3) = (fx, fy, fz)" by (cases "fraction tilted10 (1, 2, 3)")
  have "0 \<le> fx \<and> fx \<le> 1 \<and> 0 \<le> fy \<and> fy \<le> 1 \<and> 0 \<le> fz \<and> fz \<le> 1"
    using f by (auto simp: fraction_def makeFraction_def Let_def tilted10_def BoxDim_tilted_def setTiltFactors_def
        BoxDim_of_L_def setL_def)
  with placeParticle_correct [OF dd_example_wf(1) f] dd_example_wf(2) show ?thesis by auto
qed

end
