(* ===== verification/Domain_Setup.thy ===== *)
theory Domain_Setup
  imports Domain_Decomposition "HOL-Library.List_Lexorder" "HOL-Library.Char_ord"
begin

section \<open>Setting up the domain decomposition\<close>

text \<open>
  The constructors of \<open>DomainDecomposition\<close> (\<^verbatim>\<open>hoomd/DomainDecomposition.cc\<close>): the grid is searched on
  rank 0, the grid cells are given to the ranks in order or, with the two-level scheme, so that the
  ranks of one node form a block of the grid. \<open>names\<close> lists the processor name of every rank
  (\<open>MPI_Get_processor_name\<close>, gathered by \<open>findCommonNodes\<close>); \<open>std::set\<close> and \<open>std::multimap\<close> iterate in
  the order of the names.
\<close>

subsection \<open>Nodes\<close>

definition m_nodes :: "string list \<Rightarrow> string list" where
  "m_nodes names = sorted_list_of_set (set names)"

text \<open>The ranks of a node in ascending order, as the ordered set of the source has them.\<close>

definition node_ranks :: "string list \<Rightarrow> string \<Rightarrow> nat list" where
  "node_ranks names node = filter (\<lambda>r. names ! r = node) [0..<length names]"

definition two_level_step :: "string list \<Rightarrow> string \<Rightarrow> bool \<times> nat \<Rightarrow> bool \<times> nat" where
  "two_level_step names node = (\<lambda>(twolevel, max_n_node).
    let n_node = length (node_ranks names node) in
    (if max_n_node \<noteq> 0 \<and> n_node \<noteq> max_n_node then False else twolevel,
     if n_node > max_n_node then n_node else max_n_node))"

definition initializeTwoLevel :: "string list \<Rightarrow> bool \<times> nat" where
  "initializeTwoLevel names = fold (two_level_step names) (m_nodes names) (True, 0)"

definition subdivide_step :: "nat \<Rightarrow> nat \<times> nat \<times> nat \<Rightarrow> nat \<times> nat \<times> nat \<Rightarrow> nat \<times> nat \<times> nat \<Rightarrow> nat \<times> nat \<times> nat" where
  "subdivide_step n grid c best =
    (if xc c * yc c * zc c \<noteq> n then best
     else if xc grid mod xc c \<noteq> 0 \<or> yc grid mod yc c \<noteq> 0 \<or> zc grid mod zc c \<noteq> 0 then best
     else c)"

definition subdivide :: "nat \<Rightarrow> nat \<times> nat \<times> nat \<Rightarrow> nat \<times> nat \<times> nat" where
  "subdivide n_node_ranks grid = fold (subdivide_step n_node_ranks grid) (dd_candidates n_node_ranks) (1, 1, n_node_ranks)"

subsection \<open>The map of cells to ranks\<close>

text \<open>The cells of a grid in the order of the nested loops.\<close>

definition grid_cells :: "nat \<times> nat \<times> nat \<Rightarrow> (nat \<times> nat \<times> nat) list" where
  "grid_cells n = List.product [0..<xc n] (List.product [0..<yc n] [0..<zc n])"

definition grid_index :: "nat \<times> nat \<times> nat \<Rightarrow> nat \<times> nat \<times> nat \<Rightarrow> nat" where
  "grid_index n c =
    unat (Index3D_at \<lparr>i3_w = of_nat (xc n), i3_h = of_nat (yc n), i3_d = of_nat (zc n)\<rparr> (of_nat (xc c)) (of_nat (yc c)) (of_nat (zc c)))"

definition global_cell :: "nat \<times> nat \<times> nat \<Rightarrow> nat \<times> nat \<times> nat \<Rightarrow> nat \<times> nat \<times> nat \<Rightarrow> nat \<times> nat \<times> nat" where
  "global_cell intra N I = (xc N * xc intra + xc I, yc N * yc intra + yc I, zc N * zc intra + zc I)"

text \<open>The pairs \<open>(iglob, rank)\<close> in the order in which the loops over nodes and local cells write them.\<close>

definition two_level_entries ::
  "string list \<Rightarrow> nat \<times> nat \<times> nat \<Rightarrow> nat \<times> nat \<times> nat \<Rightarrow> nat \<times> nat \<times> nat \<Rightarrow> (nat \<times> nat) list" where
  "two_level_entries names grid nodes intra =
    map (\<lambda>((N, node), I). (grid_index grid (global_cell intra N I), node_ranks names node ! grid_index intra I))
      (List.product (zip (grid_cells nodes) (m_nodes names)) (grid_cells intra))"

definition write_entry :: "nat \<times> nat \<Rightarrow> nat list \<times> nat list \<Rightarrow> nat list \<times> nat list" where
  "write_entry e tables = ((fst tables)[fst e := snd e], (snd tables)[snd e := fst e])"

definition write_entries :: "(nat \<times> nat) list \<Rightarrow> nat \<Rightarrow> nat list \<times> nat list" where
  "write_entries es nranks = fold write_entry es (replicate nranks 0, replicate nranks 0)"

text \<open>The grid, the ranks of its cells and the inverse map.\<close>

definition initializeDomainGrid ::
  "string list \<Rightarrow> vec3 \<Rightarrow> nat \<times> nat \<times> nat \<Rightarrow> bool \<Rightarrow> ((nat \<times> nat \<times> nat) \<times> nat list \<times> nat list) result" where
  "initializeDomainGrid names L req twolevel =
    (let nranks = length names;
         two = (if twolevel then fst (initializeTwoLevel names) else False);
         two = (if req \<noteq> (0, 0, 0) then False else two)
     in if two then
          let n_nodes = length (m_nodes names);
              grid = snd (findDecomposition nranks L req);
              intra = subdivide (nranks div n_nodes) grid;
              node_grid = (xc grid div xc intra, yc grid div yc intra, zc grid div zc intra)
          in Inr (grid, write_entries (two_level_entries names grid node_grid intra) nranks)
        else
          let (found, grid) = findDecomposition nranks L req in
          if \<not> found then Inl (InvalidArgument ''Unable to find a decomposition with the requested dimensions.'')
          else Inr (grid, [0..<nranks], [0..<nranks]))"

subsection \<open>The constructors\<close>

definition make_DomainDecomposition ::
  "string list \<Rightarrow> vec3 \<Rightarrow> nat \<times> nat \<times> nat \<Rightarrow> bool \<Rightarrow> DomainDecomposition result" where
  "make_DomainDecomposition names L req twolevel =
    bind_result (initializeDomainGrid names L req twolevel) (\<lambda>((nx, ny, nz), cart, inv).
      Inr \<lparr>dd_nx = nx, dd_ny = ny, dd_nz = nz, dd_cart_ranks = cart, dd_cart_ranks_inv = inv,
           dd_frac_x = uniform_fractions nx, dd_frac_y = uniform_fractions ny,
           dd_frac_z = uniform_fractions nz\<rparr>)"

definition requested_cells :: "Scalar list \<Rightarrow> nat" where
  "requested_cells fs = (if length fs > 0 then length fs + 1 else 0)"

definition fill_fractions :: "nat \<Rightarrow> Scalar list \<Rightarrow> Scalar list" where
  "fill_fractions n fs = (if n > 1 \<and> fs = [] then replicate (n - 1) (1 / real n) else fs)"

definition make_DomainDecomposition_fractions ::
  "string list \<Rightarrow> vec3 \<Rightarrow> Scalar list \<Rightarrow> Scalar list \<Rightarrow> Scalar list \<Rightarrow> DomainDecomposition result" where
  "make_DomainDecomposition_fractions names L fxs fys fzs =
    (let rx = requested_cells fxs; ry = requested_cells fys; rz = requested_cells fzs in
     bind_result (initializeDomainGrid names L (rx, ry, rz) False) (\<lambda>((nx, ny, nz), cart, inv).
       if (rx > 0 \<and> length fxs \<noteq> nx - 1) \<or> (ry > 0 \<and> length fys \<noteq> ny - 1) \<or> (rz > 0 \<and> length fzs \<noteq> nz - 1)
       then Inl (InvalidArgument ''Domain decomposition grid does not match specification'')
       else Inr \<lparr>dd_nx = nx, dd_ny = ny, dd_nz = nz, dd_cart_ranks = cart, dd_cart_ranks_inv = inv,
           dd_frac_x = cumulative_fractions (fill_fractions nx fxs), dd_frac_y = cumulative_fractions (fill_fractions ny fys),
           dd_frac_z = cumulative_fractions (fill_fractions nz fzs)\<rparr>))"

subsection \<open>The local grid divides the global one\<close>

lemma fold_last_match:
  assumes "\<And>c best. f c best = (if P c then c else best)" "\<exists>c\<in>set xs. P c"
  shows "P (fold f xs b)"
  using assms(2)
proof (induction xs rule: rev_induct)
  case (snoc x xs)
  then show ?case by (cases "P x") (auto simp: assms(1))
qed simp

lemma factor_grid:
  fixes n a b c :: nat
  assumes "n dvd a * b * c"
  shows "\<exists>x y z. x * y * z = n \<and> x dvd a \<and> y dvd b \<and> z dvd c"
proof -
  obtain m z where 1: "n = m * z" "m dvd a * b" "z dvd c" using division_decomp [OF assms] by blast
  obtain x y where 2: "m = x * y" "x dvd a" "y dvd b" using division_decomp [OF 1(2)] by blast
  show ?thesis using 1 2 by blast
qed

lemma subdivide_ok:
  assumes n: "0 < n" "n dvd xc g * yc g * zc g"
  shows "let s = subdivide n g in xc s * yc s * zc s = n \<and> xc s dvd xc g \<and> yc s dvd yc g \<and> zc s dvd zc g"
proof -
  let ?P = "\<lambda>s. xc s * yc s * zc s = n \<and> xc s dvd xc g \<and> yc s dvd yc g \<and> zc s dvd zc g"
  obtain x y z where f: "x * y * z = n" "x dvd xc g" "y dvd yc g" "z dvd zc g" using factor_grid [OF n(2)] by blast
  have "(x, y, z) \<in> set (dd_candidates n)" using f(1) n(1) by (rule dd_candidates_set)
  then have "\<exists>c\<in>set (dd_candidates n). ?P c" using f by (intro bexI [of _ "(x, y, z)"]) simp
  then have "?P (subdivide n g)"
    unfolding subdivide_def by (rule fold_last_match [rotated]) (auto simp: subdivide_step_def mod_eq_0_iff_dvd)
  then show ?thesis by (simp add: Let_def)
qed


subsection \<open>The two-level map is a permutation\<close>

definition cells :: "nat \<times> nat \<times> nat \<Rightarrow> nat" where
  "cells n = xc n * yc n * zc n"

definition grid_ok :: "nat \<times> nat \<times> nat \<Rightarrow> bool" where
  "grid_ok n \<longleftrightarrow> 0 < xc n \<and> 0 < yc n \<and> 0 < zc n \<and> cells n < 4294967296"

lemma grid_cells_mem [simp]: "c \<in> set (grid_cells n) \<longleftrightarrow> xc c < xc n \<and> yc c < yc n \<and> zc c < zc n"
  by (cases c) (simp add: grid_cells_def)

lemma grid_cells_distinct: "distinct (grid_cells n)" "length (grid_cells n) = cells n"
  by (simp_all add: grid_cells_def distinct_product cells_def)

lemma grid_index_ok:
  assumes n: "grid_ok n" and c: "c \<in> set (grid_cells n)"
  shows "grid_index n c < cells n" "d \<in> set (grid_cells n) \<Longrightarrow> grid_index n c = grid_index n d \<Longrightarrow> c = d"
proof -
  let ?ix = "\<lparr>i3_w = of_nat (xc n), i3_h = of_nat (yc n), i3_d = of_nat (zc n)\<rparr> :: Index3D"
  have le: "xc n \<le> cells n" "yc n \<le> cells n" "zc n \<le> cells n" using n by (auto simp: grid_ok_def cells_def)
  then have b: "xc n < 4294967296" "yc n < 4294967296" "zc n < 4294967296" using n unfolding grid_ok_def by linarith+
  have wf: "Index3D_wf ?ix" using n b by (simp add: Index3D_wf_def grid_ok_def cells_def word_less_nat_alt unat_of_nat_u32)
  have dom: "Index3D_dom ?ix (of_nat (xc e), of_nat (yc e), of_nat (zc e))" if "e \<in> set (grid_cells n)" for e
    using that b by (simp add: Index3D_dom_def word_less_nat_alt unat_of_nat_u32)
  show "grid_index n c < cells n"
    using i3d.in_range [OF wf dom [OF c]] Index3D_num_nat [OF wf] b by (simp add: grid_index_def cells_def word_less_nat_alt unat_of_nat_u32)
  assume d: "d \<in> set (grid_cells n)" "grid_index n c = grid_index n d"
  then have "Index3D_at ?ix (of_nat (xc c)) (of_nat (yc c)) (of_nat (zc c)) = Index3D_at ?ix (of_nat (xc d)) (of_nat (yc d)) (of_nat (zc d))"
    by (intro unsigned_word_eqI [where 'a = nat]) (simp add: grid_index_def)
  then have "(of_nat (xc c) :: u32, of_nat (yc c) :: u32, of_nat (zc c) :: u32) = (of_nat (xc d), of_nat (yc d), of_nat (zc d))"
    using Index3D_getTriple_at [OF wf dom [OF c]] Index3D_getTriple_at [OF wf dom [OF d(1)]] by metis
  then have "unat (of_nat (xc c) :: u32) = unat (of_nat (xc d) :: u32)" "unat (of_nat (yc c) :: u32) = unat (of_nat (yc d) :: u32)"
    "unat (of_nat (zc c) :: u32) = unat (of_nat (zc d) :: u32)" by (simp_all only: prod.inject)
  moreover have "unat (of_nat (xc e) :: u32) = xc e" "unat (of_nat (yc e) :: u32) = yc e" "unat (of_nat (zc e) :: u32) = zc e"
    if "e \<in> set (grid_cells n)" for e using that b by (auto intro!: unat_of_nat_u32)
  ultimately have "xc c = xc d" "yc c = yc d" "zc c = zc d" using c d(1) by metis+
  then show "c = d" by (simp add: prod_eq_iff)
qed

lemma global_cell_inj:
  assumes "I \<in> set (grid_cells intra)" "J \<in> set (grid_cells intra)" "global_cell intra N I = global_cell intra M J"
  shows "N = M" "I = J"
proof -
  have d: "a = b \<and> x = y" if "a * m + x = b * m + y" "x < m" "y < m" for a b x y m :: nat
  proof -
    have "(a * m + x) div m = a" "(b * m + y) div m = b" using that(2,3) by simp_all
    then have "a = b" using that(1) by simp
    then show ?thesis using that(1) by simp
  qed
  show "N = M" "I = J"
    using assms d [of "xc N" "xc intra" "xc I" "xc M" "xc J"] d [of "yc N" "yc intra" "yc I" "yc M" "yc J"]
      d [of "zc N" "zc intra" "zc I" "zc M" "zc J"] by (auto simp: global_cell_def prod_eq_iff)
qed

lemma global_cell_mem:
  assumes "N \<in> set (grid_cells nodes)" "I \<in> set (grid_cells intra)"
  shows "global_cell intra N I \<in> set (grid_cells (xc nodes * xc intra, yc nodes * yc intra, zc nodes * zc intra))"
proof -
  have "a * m + x < n * m" if "a < n" "x < m" for a m x n :: nat
  proof -
    have "a * m + x < (a + 1) * m" using that by simp
    also have "\<dots> \<le> n * m" using that by (intro mult_le_mono1) simp
    finally show ?thesis .
  qed
  then show ?thesis using assms by (simp add: global_cell_def)
qed

lemma write_entry_pair: "write_entry (g, r) t = ((fst t)[g := r], (snd t)[r := g])"
  by (simp add: write_entry_def)

lemma write_entries_get:
  assumes "distinct (map fst es)" "distinct (map snd es)" "\<forall>(a, r)\<in>set es. a < n \<and> r < n" "(a, r) \<in> set es"
  shows "fst (write_entries es n) ! a = r \<and> snd (write_entries es n) ! r = a"
proof -
  have "length (fst (fold write_entry es s)) = length (fst s) \<and> length (snd (fold write_entry es s)) = length (snd s)" for es s
    by (induction es arbitrary: s) (auto simp: write_entry_def)
  then have len: "length (fst (fold write_entry es (replicate n 0, replicate n 0))) = n"
    "length (snd (fold write_entry es (replicate n 0, replicate n 0))) = n" for es
    by simp_all
  show ?thesis using assms unfolding write_entries_def
  proof (induction es rule: rev_induct)
    case (snoc e es)
    obtain b s where e: "e = (b, s)" by (cases e)
    show ?case
    proof (cases "(a, r) = e")
      case True
      then show ?thesis using snoc.prems(3) len [of es] by (auto simp: e write_entry_pair)
    next
      case False
      then have "(a, r) \<in> set es" "a \<noteq> b" "r \<noteq> s" using snoc.prems by (auto simp: e image_iff)
      then show ?thesis using snoc by (auto simp: e write_entry_pair)
    qed
  qed simp
qed

lemma write_entries_perm:
  assumes es: "distinct (map fst es)" "distinct (map snd es)" "\<forall>(a, r)\<in>set es. a < n \<and> r < n" "length es = n"
  defines "cart \<equiv> fst (write_entries es n)" and "cinv \<equiv> snd (write_entries es n)"
  shows "g < n \<Longrightarrow> cart ! g < n \<and> cinv ! (cart ! g) = g" "r < n \<Longrightarrow> cinv ! r < n \<and> cart ! (cinv ! r) = r"
proof -
  have all: "fst ` set es = {..<n}" "snd ` set es = {..<n}"
  proof -
    have "card (fst ` set es) = n" "card (snd ` set es) = n"
      using es(4) distinct_card [OF es(1)] distinct_card [OF es(2)] by simp_all
    moreover have "fst ` set es \<subseteq> {..<n}" "snd ` set es \<subseteq> {..<n}" using es(3) by auto
    ultimately show "fst ` set es = {..<n}" "snd ` set es = {..<n}"
      using card_subset_eq [of "{..<n}" "fst ` set es"] card_subset_eq [of "{..<n}" "snd ` set es"] by simp_all
  qed
  note get = write_entries_get [OF es(1-3), folded cart_def cinv_def]
  show "cart ! g < n \<and> cinv ! (cart ! g) = g" if "g < n"
  proof -
    have "g \<in> fst ` set es" using all(1) that by simp
    then obtain r where "(g, r) \<in> set es" by force
    then show ?thesis using get es(3) by fastforce
  qed
  show "cinv ! r < n \<and> cart ! (cinv ! r) = r" if "r < n"
  proof -
    have "r \<in> snd ` set es" using all(2) that by simp
    then obtain g where "(g, r) \<in> set es" by force
    then show ?thesis using get es(3) by fastforce
  qed
qed


lemma node_ranks_count: "length (node_ranks names node) = count_list names node"
proof -
  have "count_list names node = length (filter ((=) node) (map ((!) names) [0..<length names]))"
    by (simp only: map_nth count_list_eq_length_filter)
  also have "\<dots> = length (filter (\<lambda>r. node = names ! r) [0..<length names])" by (simp add: filter_map comp_def)
  also have "(\<lambda>r. node = names ! r) = (\<lambda>r. names ! r = node)" by auto
  finally show ?thesis by (simp only: node_ranks_def)
qed

lemma node_ranks_mem:
  assumes "i < length (node_ranks names node)"
  shows "node_ranks names node ! i < length names" "names ! (node_ranks names node ! i) = node"
  using nth_mem [OF assms] by (auto simp: node_ranks_def)

lemma m_nodes_props: "distinct (m_nodes names)" "set (m_nodes names) = set names"
  by (simp_all add: m_nodes_def)

lemma two_level_step_pair:
  "two_level_step names node (t, m) =
    (t \<and> (m = 0 \<or> length (node_ranks names node) = m), max m (length (node_ranks names node)))"
  by (auto simp: two_level_step_def Let_def)

lemma two_level_uniform:
  assumes "initializeTwoLevel names = (True, k)"
  shows "\<forall>node\<in>set names. length (node_ranks names node) = k" "length names = length (m_nodes names) * k"
proof -
  let ?n = "\<lambda>node. length (node_ranks names node)"
  have rest: "t \<and> mx = m \<and> (\<forall>node\<in>set ns. ?n node = m)"
    if "fold (two_level_step names) ns (t, m) = (True, mx)" "0 < m" for ns t m mx
    using that
  proof (induction ns arbitrary: t m)
    case (Cons node ns)
    have "fold (two_level_step names) ns (t \<and> (m = 0 \<or> ?n node = m), max m (?n node)) = (True, mx)" "0 < max m (?n node)"
      using Cons.prems by (simp_all add: two_level_step_pair)
    from Cons.IH [OF this] show ?case using Cons.prems(2) by auto
  qed simp
  show all: "\<forall>node\<in>set names. ?n node = k"
  proof (cases "m_nodes names")
    case Nil
    then show ?thesis using m_nodes_props(2) [of names] by auto
  next
    case (Cons node ns)
    then have "node \<in> set names" using m_nodes_props(2) [of names] by (metis list.set_intros(1))
    then have pos: "0 < ?n node" unfolding node_ranks_count using count_list_0_iff [of names node] by auto
    have "fold (two_level_step names) ns (True, ?n node) = (True, k)"
      using assms Cons by (simp add: initializeTwoLevel_def two_level_step_pair)
    then show ?thesis using rest [of ns True "?n node" k] pos Cons m_nodes_props(2) [of names] by (metis set_ConsD)
  qed
  have "length names = sum (count_list names) (set names)" by (simp add: sum_count_set)
  also have "\<dots> = card (set names) * k" using all by (simp add: node_ranks_count)
  also have "card (set names) = length (m_nodes names)" by (simp add: m_nodes_def)
  finally show "length names = length (m_nodes names) * k" .
qed

lemma zip_distinct_eq:
  assumes "distinct xs" "distinct ys" "(a, b) \<in> set (zip xs ys)" "(c, d) \<in> set (zip xs ys)"
  shows "a = c \<longleftrightarrow> b = d"
  using assms by (auto simp: set_zip nth_eq_iff_index_eq)

lemma two_level_entries_ok:
  assumes k: "\<forall>node\<in>set names. length (node_ranks names node) = k" "cells intra = k"
    and g: "grid = (xc nodes * xc intra, yc nodes * yc intra, zc nodes * zc intra)"
    and c: "cells nodes = length (m_nodes names)" "length names = length (m_nodes names) * k"
    and ok: "grid_ok grid" "grid_ok intra" "cells grid = length names"
  defines "es \<equiv> two_level_entries names grid nodes intra"
  shows "distinct (map fst es)" "distinct (map snd es)" "\<forall>(a, r)\<in>set es. a < length names \<and> r < length names"
    "length es = length names"
proof -
  let ?Z = "zip (grid_cells nodes) (m_nodes names)" and ?n = "length names"
  let ?P = "List.product ?Z (grid_cells intra)"
  have dz: "distinct ?P" using grid_cells_distinct(1) by (intro distinct_product) (simp_all add: distinct_zipI1)
  have zm: "N \<in> set (grid_cells nodes)" "node \<in> set names" if "(N, node) \<in> set ?Z" for N node
    using set_zip_leftD [OF that] set_zip_rightD [OF that] m_nodes_props(2) by auto
  note zeq = zip_distinct_eq [OF grid_cells_distinct(1) m_nodes_props(1)]
  let ?a = "\<lambda>((N, node), I). grid_index grid (global_cell intra N I)"
  let ?r = "\<lambda>((N, node), I). node_ranks names node ! grid_index intra I"
  have m: "map fst es = map ?a ?P" "map snd es = map ?r ?P"
    by (simp_all add: es_def two_level_entries_def split_beta comp_def)
  have li: "grid_index intra I < length (node_ranks names node)" if "(N, node) \<in> set ?Z" "I \<in> set (grid_cells intra)" for N node I
    using grid_index_ok(1) [OF ok(2) that(2)] k zm(2) [OF that(1)] by simp
  have gm: "global_cell intra N I \<in> set (grid_cells grid)" if "(N, node) \<in> set ?Z" "I \<in> set (grid_cells intra)" for N node I
    unfolding g by (rule global_cell_mem [OF zm(1) [OF that(1)] that(2)])
  have "inj_on ?a (set ?P)"
  proof (rule inj_onI)
    fix p q assume pq: "p \<in> set ?P" "q \<in> set ?P" "?a p = ?a q"
    obtain N node I M node' J where e: "p = ((N, node), I)" "q = ((M, node'), J)" by (metis prod.exhaust)
    have h: "(N, node) \<in> set ?Z" "I \<in> set (grid_cells intra)" "(M, node') \<in> set ?Z" "J \<in> set (grid_cells intra)"
      "grid_index grid (global_cell intra N I) = grid_index grid (global_cell intra M J)"
      using pq unfolding e by (simp_all del: grid_cells_mem)
    have "global_cell intra N I = global_cell intra M J"
      by (rule grid_index_ok(2) [OF ok(1) gm [OF h(1,2)] gm [OF h(3,4)] h(5)])
    from global_cell_inj [OF h(2,4) this] zeq [OF h(1,3)] show "p = q" by (simp add: e)
  qed
  then show "distinct (map fst es)" unfolding m distinct_map using dz by simp
  have "inj_on ?r (set ?P)"
  proof (rule inj_onI)
    fix p q assume pq: "p \<in> set ?P" "q \<in> set ?P" "?r p = ?r q"
    obtain N node I M node' J where e: "p = ((N, node), I)" "q = ((M, node'), J)" by (metis prod.exhaust)
    have h: "(N, node) \<in> set ?Z" "I \<in> set (grid_cells intra)" "(M, node') \<in> set ?Z" "J \<in> set (grid_cells intra)"
      "node_ranks names node ! grid_index intra I = node_ranks names node' ! grid_index intra J"
      using pq unfolding e by (simp_all del: grid_cells_mem)
    have n: "node = node'" using node_ranks_mem(2) [OF li [OF h(1,2)]] node_ranks_mem(2) [OF li [OF h(3,4)]] h(5) by simp
    have "distinct (node_ranks names node)" by (simp add: node_ranks_def)
    then have "grid_index intra I = grid_index intra J"
      using h(5) li [OF h(1,2)] li [OF h(3,4)] n nth_eq_iff_index_eq by metis
    then show "p = q" using grid_index_ok(2) [OF ok(2) h(2,4)] zeq [OF h(1,3)] n by (simp add: e)
  qed
  then show "distinct (map snd es)" unfolding m distinct_map using dz by simp
  show "\<forall>(a, r)\<in>set es. a < ?n \<and> r < ?n"
    unfolding es_def two_level_entries_def using grid_index_ok(1) [OF ok(1) gm] ok(3) node_ranks_mem(1) [OF li] by auto
  show "length es = ?n"
    using c k(2) grid_cells_distinct(2) by (simp add: es_def two_level_entries_def)
qed


subsection \<open>The constructors give well-formed decompositions\<close>

definition inverse_tables :: "nat list \<Rightarrow> nat list \<Rightarrow> nat \<Rightarrow> bool" where
  "inverse_tables cart cinv n \<longleftrightarrow>
    (\<forall>g<n. cart ! g < n \<and> cinv ! (cart ! g) = g) \<and> (\<forall>r<n. cinv ! r < n \<and> cart ! (cinv ! r) = r)"

lemma admissible_grid_ok:
  "dd_admissible n L req grid \<Longrightarrow> 0 < n \<Longrightarrow> n < 4294967296 \<Longrightarrow> grid_ok grid \<and> cells grid = n"
  by (cases grid) (auto simp: dd_admissible_def grid_ok_def cells_def)

lemma two_level_ok:
  assumes n: "0 < length names" "length names < 4294967296" and tl: "initializeTwoLevel names = (True, k)"
    and g: "dd_admissible (length names) L req grid"
  defines "intra \<equiv> subdivide (length names div length (m_nodes names)) grid"
  shows "case_prod inverse_tables
    (write_entries (two_level_entries names grid (xc grid div xc intra, yc grid div yc intra, zc grid div zc intra) intra) (length names))
    (length names)"
proof -
  let ?n = "length names" and ?m = "length (m_nodes names)"
  let ?nodes = "(xc grid div xc intra, yc grid div yc intra, zc grid div zc intra)"
  note u = two_level_uniform [OF tl]
  have gok: "grid_ok grid" "cells grid = ?n" using admissible_grid_ok [OF g n] by simp_all
  have k: "0 < k" "?n div ?m = k" "0 < ?m" using u(2) n(1) by auto
  have s: "xc intra * yc intra * zc intra = k" "xc intra dvd xc grid" "yc intra dvd yc grid" "zc intra dvd zc grid"
    using subdivide_ok [OF k(1), of grid] u(2) gok(2) k(2) by (simp_all add: intra_def cells_def Let_def)
  have pos: "0 < xc intra" "0 < yc intra" "0 < zc intra" using s(1) k(1) by (auto intro: Nat.gr0I)
  have geq: "grid = (xc ?nodes * xc intra, yc ?nodes * yc intra, zc ?nodes * zc intra)" using s by (simp add: prod_eq_iff)
  have "k \<le> ?n" using u(2) k(3) by (cases ?m) auto
  then have iok: "grid_ok intra" "cells intra = k" using s(1) pos n by (auto simp: grid_ok_def cells_def)
  have "cells grid = cells ?nodes * cells intra" unfolding cells_def by (subst (1 2 3) geq) (simp add: ac_simps)
  then have "cells ?nodes * k = ?m * k" using gok(2) iok(2) u(2) by metis
  then have nodes: "cells ?nodes = ?m" using k(1) by simp
  note es = two_level_entries_ok [OF u(1) iok(2) geq nodes u(2) gok(1) iok(1) gok(2)]
  show ?thesis using write_entries_perm [OF es] by (simp add: inverse_tables_def split_beta)
qed

lemma initializeDomainGrid_ok:
  assumes n: "0 < length names" "length names < 4294967296"
  shows "case initializeDomainGrid names L req two of
      Inr (grid, cart, cinv) \<Rightarrow> dd_admissible (length names) L req grid \<and> inverse_tables cart cinv (length names)
    | Inl e \<Rightarrow> \<forall>c. \<not> dd_admissible (length names) L req c"
proof -
  obtain found grid where f: "findDecomposition (length names) L req = (found, grid)" by (rule prod.exhaust)
  note adm = findDecomposition_adm [OF n(1) f]
  show ?thesis
  proof (cases "two \<and> fst (initializeTwoLevel names) \<and> req = (0, 0, 0)")
    case True
    then obtain k where k: "initializeTwoLevel names = (True, k)" by (metis (full_types) prod.collapse)
    have "dd_admissible (length names) L (0, 0, 0) (1, length names, 1)" by (simp add: dd_admissible_def)
    then have "dd_admissible (length names) L req grid" using adm True by (auto split: if_splits)
    with two_level_ok [OF n k this] show ?thesis using True f
      by (simp add: initializeDomainGrid_def Let_def split_beta)
  next
    case False
    then have "initializeDomainGrid names L req two =
        (if \<not> found then Inl (InvalidArgument ''Unable to find a decomposition with the requested dimensions.'')
         else Inr (grid, [0..<length names], [0..<length names]))"
      using f by (auto simp: initializeDomainGrid_def Let_def)
    then show ?thesis using adm by (simp add: inverse_tables_def split: if_splits)
  qed
qed

text \<open>
  C31: The constructor gives a well-formed decomposition, with or without the two-level scheme: as many
  grid cells as ranks, each rank in one cell, and cumulative fractions that rise from 0 to 1 in every
  direction. It fails exactly when no grid has the requested dimensions.
\<close>

theorem make_DomainDecomposition_wf:
  assumes n: "0 < length names" "length names < 4294967296"
  shows "case make_DomainDecomposition names L req twolevel of
      Inr dd \<Rightarrow> dd_wf dd \<and> dd_nranks dd = length names \<and> dd_admissible (length names) L req (dd_nx dd, dd_ny dd, dd_nz dd)
    | Inl e \<Rightarrow> \<forall>c. \<not> dd_admissible (length names) L req c"
proof (cases "initializeDomainGrid names L req twolevel")
  case (Inl e)
  then show ?thesis using initializeDomainGrid_ok [OF n, of L req twolevel] by (simp add: make_DomainDecomposition_def)
next
  case (Inr r)
  obtain nx ny nz cart cinv where r: "r = ((nx, ny, nz), cart, cinv)" by (metis prod.exhaust)
  have a: "dd_admissible (length names) L req (nx, ny, nz)" "inverse_tables cart cinv (length names)"
    using initializeDomainGrid_ok [OF n, of L req twolevel] Inr r by simp_all
  then have "grid_ok (nx, ny, nz)" "cells (nx, ny, nz) = length names" using admissible_grid_ok [OF a(1) n] by simp_all
  then show ?thesis using a Inr r n
    by (simp add: make_DomainDecomposition_def dd_wf_def dd_nranks_def grid_ok_def cells_def uniform_fractions_wf inverse_tables_def)
qed

theorem make_DomainDecomposition_wf_witness:
  "\<exists>dd. make_DomainDecomposition [''n1'', ''n0'', ''n1'', ''n0''] (10, 10, 10) (0, 0, 0) True = Inr dd
    \<and> dd_wf dd \<and> dd_nranks dd = 4"
proof -
  have a: "\<exists>c. dd_admissible (length [''n1'', ''n0'', ''n1'', ''n0'']) (10, 10, 10) (0, 0, 0) c"
    by (intro exI [of _ "(1, 2, 2)"]) (simp add: dd_admissible_def)
  have n: "0 < length [''n1'', ''n0'', ''n1'', ''n0'']" "length [''n1'', ''n0'', ''n1'', ''n0''] < 4294967296" by simp_all
  show ?thesis
  proof (cases "make_DomainDecomposition [''n1'', ''n0'', ''n1'', ''n0''] (10, 10, 10) (0, 0, 0) True")
    case (Inl e)
    then show ?thesis using make_DomainDecomposition_wf [OF n, of "(10, 10, 10)" "(0, 0, 0)" True] a by (simp only: sum.case) blast
  next
    case (Inr dd)
    then show ?thesis using make_DomainDecomposition_wf [OF n, of "(10, 10, 10)" "(0, 0, 0)" True] by simp
  qed
qed

lemma cumulative_fractions_wf:
  assumes "\<forall>f\<in>set fs. 0 < f" "sum_list fs < 1"
  shows "cum_wf (cumulative_fractions fs) (length fs + 1)"
proof -
  have len: "length (partial_sums s fs) = length fs" for s fs by (induction fs arbitrary: s) auto
  have sums: "i < length fs \<Longrightarrow> partial_sums s fs ! i = s + sum_list (take (Suc i) fs)" for s fs i
  proof (induction fs arbitrary: s i)
    case (Cons f fs)
    then show ?case by (cases i) simp_all
  qed simp
  have pos: "0 \<le> sum_list (drop i fs)" for i
    using assms(1) by (intro sum_list_nonneg) (auto dest: in_set_dropD intro: less_imp_le)
  have "sum_list (take i fs) + sum_list (drop i fs) = sum_list fs" for i by (simp flip: sum_list_append)
  then have lt1: "sum_list (take i fs) < 1" for i using pos [of i] assms(2) by (smt (verit))
  have nth: "cumulative_fractions fs ! i = (if i \<le> length fs then sum_list (take i fs) else 1)" if "i \<le> length fs + 1" for i
    using that by (cases i) (auto simp: cumulative_fractions_def nth_append len sums)
  show ?thesis unfolding cum_wf_def
  proof (intro conjI allI impI)
    show "length (cumulative_fractions fs) = length fs + 1 + 1" by (simp add: cumulative_fractions_def len)
    show "cumulative_fractions fs ! 0 = 0" "cumulative_fractions fs ! (length fs + 1) = 1" using nth [of 0] nth [of "length fs + 1"] by auto
    fix i assume i: "i < length fs + 1"
    show "cumulative_fractions fs ! i < cumulative_fractions fs ! (i + 1)"
      using i nth [of i] nth [of "i + 1"] lt1 [of i] assms(1) by (auto simp: take_Suc_conv_app_nth less_Suc_eq)
  qed
qed

lemma fill_fractions_wf:
  assumes "\<forall>f\<in>set fs. 0 < f" "sum_list fs < 1" "0 < n" "fs = [] \<or> length fs = n - 1"
  shows "cum_wf (cumulative_fractions (fill_fractions n fs)) n"
proof (cases "fs = []")
  case True
  then have "cumulative_fractions (fill_fractions n fs) = uniform_fractions n" using assms(3)
    by (cases "n = 1") (auto simp: fill_fractions_def uniform_fractions_def)
  then show ?thesis using uniform_fractions_wf [OF assms(3)] by simp
next
  case False
  then have "fill_fractions n fs = fs" "length fs + 1 = n" using assms(3,4) by (auto simp: fill_fractions_def)
  then show ?thesis using cumulative_fractions_wf [OF assms(1,2)] by simp
qed

lemma make_DomainDecomposition_fractions_wf:
  assumes n: "0 < length names" "length names < 4294967296"
    and f: "\<forall>fs\<in>{fxs, fys, fzs}. (\<forall>f\<in>set fs. 0 < f) \<and> sum_list fs < 1"
    and r: "make_DomainDecomposition_fractions names L fxs fys fzs = Inr dd"
  shows "dd_wf dd" "dd_nranks dd = length names"
proof -
  let ?req = "(requested_cells fxs, requested_cells fys, requested_cells fzs)"
  obtain nx ny nz cart cinv where i: "initializeDomainGrid names L ?req False = Inr ((nx, ny, nz), cart, cinv)"
    using r by (cases "initializeDomainGrid names L ?req False") (auto simp: make_DomainDecomposition_fractions_def Let_def)
  have a: "dd_admissible (length names) L ?req (nx, ny, nz)" "inverse_tables cart cinv (length names)"
    using initializeDomainGrid_ok [OF n, of L ?req False] i by simp_all
  have g: "grid_ok (nx, ny, nz)" "cells (nx, ny, nz) = length names" using admissible_grid_ok [OF a(1) n] by simp_all
  have dd: "dd = \<lparr>dd_nx = nx, dd_ny = ny, dd_nz = nz, dd_cart_ranks = cart, dd_cart_ranks_inv = cinv,
      dd_frac_x = cumulative_fractions (fill_fractions nx fxs), dd_frac_y = cumulative_fractions (fill_fractions ny fys),
      dd_frac_z = cumulative_fractions (fill_fractions nz fzs)\<rparr>"
    and l: "fxs = [] \<or> length fxs = nx - 1" "fys = [] \<or> length fys = ny - 1" "fzs = [] \<or> length fzs = nz - 1"
    using r i by (auto simp: make_DomainDecomposition_fractions_def Let_def requested_cells_def split: if_splits)
  have "cum_wf (dd_frac_x dd) nx" "cum_wf (dd_frac_y dd) ny" "cum_wf (dd_frac_z dd) nz"
    using fill_fractions_wf [OF _ _ _ l(1)] fill_fractions_wf [OF _ _ _ l(2)] fill_fractions_wf [OF _ _ _ l(3)] f g(1)
    by (simp_all add: dd grid_ok_def)
  then show "dd_wf dd" "dd_nranks dd = length names"
    using g a(2) n by (simp_all add: dd dd_wf_def dd_nranks_def grid_ok_def cells_def inverse_tables_def)
qed

end
