(* ===== verification/Particle_Access.thy ===== *)
theory Particle_Access
  imports Particle_World Particle_Migrate Domain_Decomposition
begin

section \<open>Reading and writing the properties of one particle\<close>

text \<open>
  The \<open>get\<close> and \<open>set\<close> methods of \<open>ParticleData\<close> (\<^verbatim>\<open>hoomd/ParticleData.cc\<close>), which address a
  particle by its tag, and the origin that the grid shift moves. They are collective: every rank
  calls them. The owner of the particle reads or writes its arrays, with a domain decomposition
  (\<open>dec\<close>) \<open>getOwnerRank\<close> first makes sure that exactly one rank has the particle and a getter
  broadcasts the owner's value. The locale \<open>particle_field\<close> is the contract of a getter and setter
  of the same property; it is interpreted for every property that is stored as it is given.
  \<open>setPosition\<close> wraps the position into the global box and moves the particle to another rank.
  \<open>assert\<close>s are not modelled: a getter called without decomposition on a tag that is not local gives
  the initial value of its result.
\<close>

subsection \<open>Access by tag\<close>

definition local_value :: "(ParticleData \<Rightarrow> pdata_element \<Rightarrow> 'a) \<Rightarrow> 'a \<Rightarrow> nat \<Rightarrow> ParticleData \<Rightarrow> 'a" where
  "local_value f init tag pd =
    (let idx = getRTag pd tag in if idx < pd_nparticles pd then f pd (pd_elems pd ! idx) else init)"

definition get_particle ::
  "(ParticleData \<Rightarrow> pdata_element \<Rightarrow> 'a) \<Rightarrow> 'a \<Rightarrow> bool \<Rightarrow> nat \<Rightarrow> world \<Rightarrow> 'a result" where
  "get_particle f init dec tag w =
    (if dec then bind_result (getOwnerRank tag w) (\<lambda>r. Inr (local_value f init tag (w ! r)))
     else Inr (local_value f init tag (hd w)))"

definition set_local :: "(ParticleData \<Rightarrow> pdata_element \<Rightarrow> pdata_element) \<Rightarrow> nat \<Rightarrow> ParticleData \<Rightarrow> ParticleData" where
  "set_local u tag pd =
    (let idx = getRTag pd tag
     in if idx < pd_nparticles pd then pd\<lparr>pd_elems := (pd_elems pd)[idx := u pd (pd_elems pd ! idx)]\<rparr> else pd)"

definition set_particle ::
  "(ParticleData \<Rightarrow> pdata_element \<Rightarrow> pdata_element) \<Rightarrow> bool \<Rightarrow> nat \<Rightarrow> world \<Rightarrow> world result" where
  "set_particle u dec tag w =
    (if dec then bind_result (getOwnerRank tag w) (\<lambda>_. Inr (map (set_local u tag) w))
     else Inr (map (set_local u tag) w))"

subsection \<open>The accessors\<close>

definition getPosition :: "bool \<Rightarrow> nat \<Rightarrow> world \<Rightarrow> vec3 result" where
  "getPosition dec tag w =
    bind_result
      (get_particle (\<lambda>pd e. (vsub (pe_pos e) (pd_origin pd), sub_int3 (pe_image e) (pd_o_image pd)))
         ((0, 0, 0), (0, 0, 0)) dec tag w)
      (\<lambda>(pos, img). Inr (fst (wrap (pd_global_box (hd w)) pos img)))"

definition getVelocity :: "bool \<Rightarrow> nat \<Rightarrow> world \<Rightarrow> vec3 result" where
  "getVelocity = get_particle (\<lambda>_. pe_vel) (0, 0, 0)"

definition getAcceleration :: "bool \<Rightarrow> nat \<Rightarrow> world \<Rightarrow> vec3 result" where
  "getAcceleration = get_particle (\<lambda>_. pe_accel) (0, 0, 0)"

definition getParticleImage :: "bool \<Rightarrow> nat \<Rightarrow> world \<Rightarrow> int3 result" where
  "getParticleImage dec tag w =
    bind_result
      (get_particle (\<lambda>pd e. (vsub (pe_pos e) (pd_origin pd), pe_image e)) ((0, 0, 0), (0, 0, 0)) dec tag w)
      (\<lambda>(pos, img). Inr (snd (wrap (pd_global_box (hd w)) pos (sub_int3 img (pd_o_image (hd w))))))"

definition getCharge :: "bool \<Rightarrow> nat \<Rightarrow> world \<Rightarrow> Scalar result" where
  "getCharge = get_particle (\<lambda>_. pe_charge) 0"

definition getMass :: "bool \<Rightarrow> nat \<Rightarrow> world \<Rightarrow> Scalar result" where
  "getMass = get_particle (\<lambda>_. pe_mass) 0"

definition getDiameter :: "bool \<Rightarrow> nat \<Rightarrow> world \<Rightarrow> Scalar result" where
  "getDiameter = get_particle (\<lambda>_. pe_diameter) 0"

definition getBody :: "bool \<Rightarrow> nat \<Rightarrow> world \<Rightarrow> nat result" where
  "getBody = get_particle (\<lambda>_. pe_body) 0"

definition getType :: "bool \<Rightarrow> nat \<Rightarrow> world \<Rightarrow> nat result" where
  "getType = get_particle (\<lambda>_. pe_type) 0"

definition getOrientation :: "bool \<Rightarrow> nat \<Rightarrow> world \<Rightarrow> vec4 result" where
  "getOrientation = get_particle (\<lambda>_. pe_orientation) (0, 0, 0, 0)"

definition getAngularMomentum :: "bool \<Rightarrow> nat \<Rightarrow> world \<Rightarrow> vec4 result" where
  "getAngularMomentum = get_particle (\<lambda>_. pe_angmom) (0, 0, 0, 0)"

definition getMomentsOfInertia :: "bool \<Rightarrow> nat \<Rightarrow> world \<Rightarrow> vec3 result" where
  "getMomentsOfInertia = get_particle (\<lambda>_. pe_inertia) (0, 0, 0)"

definition getPNetForce :: "bool \<Rightarrow> nat \<Rightarrow> world \<Rightarrow> vec4 result" where
  "getPNetForce = get_particle (\<lambda>_. pe_net_force) (0, 0, 0, 0)"

definition getNetTorque :: "bool \<Rightarrow> nat \<Rightarrow> world \<Rightarrow> vec4 result" where
  "getNetTorque = get_particle (\<lambda>_. pe_net_torque) (0, 0, 0, 0)"

definition getPNetVirial :: "nat \<Rightarrow> bool \<Rightarrow> nat \<Rightarrow> world \<Rightarrow> Scalar result" where
  "getPNetVirial component = get_particle (\<lambda>_ e. pe_net_virial e ! component) 0"

definition setVelocity :: "bool \<Rightarrow> nat \<Rightarrow> vec3 \<Rightarrow> world \<Rightarrow> world result" where
  "setVelocity dec tag vel = set_particle (\<lambda>_ e. e\<lparr>pe_vel := vel\<rparr>) dec tag"

definition setImage :: "bool \<Rightarrow> nat \<Rightarrow> int3 \<Rightarrow> world \<Rightarrow> world result" where
  "setImage dec tag img = set_particle (\<lambda>pd e. e\<lparr>pe_image := add_int3 img (pd_o_image pd)\<rparr>) dec tag"

definition setCharge :: "bool \<Rightarrow> nat \<Rightarrow> Scalar \<Rightarrow> world \<Rightarrow> world result" where
  "setCharge dec tag charge = set_particle (\<lambda>_ e. e\<lparr>pe_charge := charge\<rparr>) dec tag"

definition setMass :: "bool \<Rightarrow> nat \<Rightarrow> Scalar \<Rightarrow> world \<Rightarrow> world result" where
  "setMass dec tag mass = set_particle (\<lambda>_ e. e\<lparr>pe_mass := mass\<rparr>) dec tag"

definition setDiameter :: "bool \<Rightarrow> nat \<Rightarrow> Scalar \<Rightarrow> world \<Rightarrow> world result" where
  "setDiameter dec tag diameter = set_particle (\<lambda>_ e. e\<lparr>pe_diameter := diameter\<rparr>) dec tag"

text \<open>The \<open>int\<close> argument is stored as \<open>unsigned int\<close>.\<close>

definition setBody :: "bool \<Rightarrow> nat \<Rightarrow> int \<Rightarrow> world \<Rightarrow> world result" where
  "setBody dec tag body = set_particle (\<lambda>_ e. e\<lparr>pe_body := nat (body mod 4294967296)\<rparr>) dec tag"

definition setType :: "bool \<Rightarrow> nat \<Rightarrow> nat \<Rightarrow> world \<Rightarrow> world result" where
  "setType dec tag typ = set_particle (\<lambda>_ e. e\<lparr>pe_type := typ\<rparr>) dec tag"

definition setOrientation :: "bool \<Rightarrow> nat \<Rightarrow> vec4 \<Rightarrow> world \<Rightarrow> world result" where
  "setOrientation dec tag orientation = set_particle (\<lambda>_ e. e\<lparr>pe_orientation := orientation\<rparr>) dec tag"

definition setAngularMomentum :: "bool \<Rightarrow> nat \<Rightarrow> vec4 \<Rightarrow> world \<Rightarrow> world result" where
  "setAngularMomentum dec tag angmom = set_particle (\<lambda>_ e. e\<lparr>pe_angmom := angmom\<rparr>) dec tag"

definition setMomentsOfInertia :: "bool \<Rightarrow> nat \<Rightarrow> vec3 \<Rightarrow> world \<Rightarrow> world result" where
  "setMomentsOfInertia dec tag inertia = set_particle (\<lambda>_ e. e\<lparr>pe_inertia := inertia\<rparr>) dec tag"

definition translateOrigin :: "vec3 \<Rightarrow> ParticleData \<Rightarrow> ParticleData" where
  "translateOrigin a pd =
    (let (origin, o_image) = wrap (pd_global_box pd) (vadd (pd_origin pd) a) (pd_o_image pd)
     in pd\<lparr>pd_origin := origin, pd_o_image := o_image\<rparr>)"

definition setOrigin :: "vec3 \<Rightarrow> int3 \<Rightarrow> ParticleData \<Rightarrow> ParticleData" where
  "setOrigin origin img pd = pd\<lparr>pd_origin := origin, pd_o_image := img\<rparr>"

definition resetOrigin :: "ParticleData \<Rightarrow> ParticleData" where
  "resetOrigin pd = pd\<lparr>pd_origin := (0, 0, 0), pd_o_image := (0, 0, 0)\<rparr>"


text \<open>
  \<open>setPosition\<close>: the owner stores the wrapped position; with a decomposition the particle is sent to the
  rank that \<open>placeParticle\<close> names. Every rank computes the position and the rank (each may throw), the
  rank of rank 0 is broadcast.
\<close>

definition wrapped_position :: "vec3 \<Rightarrow> nat \<Rightarrow> ParticleData \<Rightarrow> vec3 \<times> int3" where
  "wrapped_position pos tag pd =
    wrap (pd_global_box pd) (vadd pos (pd_origin pd)) (local_value (\<lambda>_. pe_image) (0, 0, 0) tag pd)"

definition store_position :: "vec3 \<Rightarrow> nat \<Rightarrow> ParticleData \<Rightarrow> ParticleData" where
  "store_position pos tag pd =
    set_local (\<lambda>_ e. e\<lparr>pe_pos := fst (wrapped_position pos tag pd), pe_image := snd (wrapped_position pos tag pd)\<rparr>) tag pd"

definition mark_for_sending :: "nat \<Rightarrow> ParticleData \<Rightarrow> ParticleData" where
  "mark_for_sending idx pd = pd\<lparr>pd_comm_flags := (pd_comm_flags pd)[idx := 1]\<rparr>"

definition transfer_particle :: "nat \<Rightarrow> nat \<Rightarrow> nat \<Rightarrow> world \<Rightarrow> world result" where
  "transfer_particle tag owner new w =
    (let idx = getRTag (w ! owner) tag;
         w = map removeAllGhostParticles w;
         (buf, flags, pd) = removeParticles (mark_for_sending idx (w ! owner))
     in if length buf \<noteq> 1 then Inl (RuntimeError ''More than one particle marked for sending.'')
        else Inr (w[owner := pd, new := addParticles buf (w ! new)]))"

fun all_results :: "'a result list \<Rightarrow> 'a list result" where
  "all_results [] = Inr []"
| "all_results (r # rs) = bind_result r (\<lambda>x. bind_result (all_results rs) (\<lambda>xs. Inr (x # xs)))"

definition setPosition :: "DomainDecomposition option \<Rightarrow> nat \<Rightarrow> vec3 \<Rightarrow> bool \<Rightarrow> world \<Rightarrow> world result" where
  "setPosition m_decomposition tag pos move w =
    (case m_decomposition of
       None \<Rightarrow> Inr (map (store_position pos tag) w)
     | Some dd \<Rightarrow>
         bind_result (getOwnerRank tag w) (\<lambda>owner_rank.
           let tmp_pos = map (\<lambda>pd. fst (wrapped_position pos tag pd)) w;
               w = map (store_position pos tag) w
           in if \<not> move then Inr w
              else bind_result (all_results (map (\<lambda>(pd, p). placeParticle dd (pd_global_box pd) p) (zip w tmp_pos)))
                (\<lambda>new_ranks.
                   if hd new_ranks \<noteq> owner_rank then transfer_particle tag owner_rank (hd new_ranks) w
                   else Inr w)))"

subsection \<open>Updating an element in place\<close>

lemma set_local_frame [simp]:
  "pd_nparticles (set_local u tag pd) = pd_nparticles pd" "pd_nghosts (set_local u tag pd) = pd_nghosts pd"
  "pd_rtag (set_local u tag pd) = pd_rtag pd" "pd_tag_set (set_local u tag pd) = pd_tag_set pd"
  "pd_recycled_tags (set_local u tag pd) = pd_recycled_tags pd" "pd_nglobal (set_local u tag pd) = pd_nglobal pd"
  "pd_global_box (set_local u tag pd) = pd_global_box pd" "pd_origin (set_local u tag pd) = pd_origin pd"
  "pd_o_image (set_local u tag pd) = pd_o_image pd" "pd_comm_flags (set_local u tag pd) = pd_comm_flags pd"
  "getRTag (set_local u tag pd) t = getRTag pd t" "isParticleLocal (set_local u tag pd) t = isParticleLocal pd t"
  by (simp_all add: set_local_def Let_def getRTag_def isParticleLocal_def)

lemma set_local_tag:
  assumes "\<And>pd e. pe_tag (u pd e) = pe_tag e"
  shows "pd_tag (set_local u tag pd) i = pd_tag pd i"
  using assms by (simp add: set_local_def pd_tag_def Let_def nth_update_iff)

lemma set_local_inv:
  assumes u: "\<And>pd e. pe_tag (u pd e) = pe_tag e" and pd: "rank_inv pd"
  shows "rank_inv (set_local u tag pd)" "local_tags (set_local u tag pd) = local_tags pd"
    "replicated (set_local u tag pd) pd"
proof -
  have f: "lens_ok (set_local u tag pd) = lens_ok pd" "tags_ok (set_local u tag pd) = tags_ok pd"
    "pd_max_nparticles (set_local u tag pd) = pd_max_nparticles pd"
    "pd_ghosts_added (set_local u tag pd) = pd_ghosts_added pd"
    by (simp_all add: set_local_def Let_def lens_ok_def tags_ok_def getRTag_def)
  show "rank_inv (set_local u tag pd)" "local_tags (set_local u tag pd) = local_tags pd"
    "replicated (set_local u tag pd) pd"
    using pd by (simp_all add: rank_inv_def f rtag_ok_def set_local_tag [OF u] local_tags_def replicated_def)
qed

lemma set_local_look:
  assumes pd: "rank_inv pd" and tag: "tag \<in> pd_tag_set pd" and t: "t \<in> local_tags pd"
  shows "look (set_local u tag pd) t = (if t = tag then u pd (look pd t) else look pd t)"
proof -
  have lt: "getRTag pd t < pd_nparticles pd" "pd_tag pd (getRTag pd t) = t"
    using pd t by (auto simp: rank_inv_def local_tags_def rtag_ok_def)
  have len: "pd_nparticles pd \<le> length (pd_elems pd)" using pd by (simp add: rank_inv_def lens_ok_def)
  have "getRTag pd tag = getRTag pd t \<longleftrightarrow> tag = t" if "getRTag pd tag < pd_nparticles pd"
  proof -
    have "getRTag pd tag = not_local \<or> pd_tag pd (getRTag pd tag) = tag"
      using pd tag unfolding rank_inv_def rtag_ok_def by blast
    then have "pd_tag pd (getRTag pd tag) = tag" using that rank_inv_bound [OF pd] by auto
    then show ?thesis using lt(2) by metis
  qed
  then show ?thesis using lt(1) len
    by (cases "getRTag pd tag < pd_nparticles pd") (auto simp: look_def set_local_def Let_def nth_update_iff getRTag_def)
qed


subsection \<open>All ranks\<close>

text \<open>Every rank has the same box and the same origin; without decomposition there is one rank.\<close>

definition run_ok :: "bool \<Rightarrow> world \<Rightarrow> bool" where
  "run_ok dec w \<longleftrightarrow> world_inv w \<and> (dec \<or> length w = 1)"

lemma run_owner:
  assumes w: "run_ok dec w" and tag: "tag \<in> active_tags w"
  obtains r where "r < length w" "tag \<in> local_tags (w ! r)" "getOwnerRank tag w = Inr r"
    "world_look w tag = look (w ! r) tag" "getRTag (w ! r) tag < pd_nparticles (w ! r)"
    "dec \<or> w ! r = hd w"
proof -
  have inv: "world_inv w" and ne: "w \<noteq> []" using w by (auto simp: run_ok_def world_inv_def)
  obtain r where r: "r < length w" "tag \<in> local_tags (w ! r)" using world_owner [OF inv tag] by metis
  have "getRTag (w ! r) tag < pd_nparticles (w ! r)"
    using r(2) world_inv_rank(1) [OF inv r(1)] by (auto simp: rank_inv_def local_tags_def rtag_ok_def)
  moreover have "dec \<or> w ! r = hd w" using w r(1) ne by (auto simp: run_ok_def hd_conv_nth)
  ultimately show ?thesis
    using that r getOwnerRank_found [OF inv tag r] world_look_owner [OF inv tag r] by blast
qed

lemma get_particle_ok:
  assumes "run_ok dec w" "tag \<in> active_tags w" "r < length w" "tag \<in> local_tags (w ! r)"
  shows "get_particle f init dec tag w = Inr (f (w ! r) (world_look w tag))"
proof -
  obtain s where s: "s < length w" "tag \<in> local_tags (w ! s)" "getOwnerRank tag w = Inr s"
    "world_look w tag = look (w ! s) tag" "getRTag (w ! s) tag < pd_nparticles (w ! s)"
    "dec \<or> w ! s = hd w" by (rule run_owner [OF assms(1,2)])
  have "s = r" using world_disjoint assms s by (auto simp: run_ok_def)
  then show ?thesis using s by (auto simp: get_particle_def local_value_def look_def)
qed

lemma get_particle_elem:
  assumes w: "run_ok dec w" and tag: "tag \<in> active_tags w"
  shows "get_particle (\<lambda>_. f) init dec tag w = Inr (f (world_look w tag))"
proof -
  obtain r where "r < length w" "tag \<in> local_tags (w ! r)" by (rule run_owner [OF assms])
  then show ?thesis using get_particle_ok [OF assms, of r "\<lambda>_. f"] by simp
qed

lemma set_particle_ok:
  assumes w: "run_ok dec w" and tag: "tag \<in> active_tags w" and u: "\<And>pd e. pe_tag (u pd e) = pe_tag e"
  defines "w' \<equiv> map (set_local u tag) w"
  shows "set_particle u dec tag w = Inr w'" "run_ok dec w'" "active_tags w' = active_tags w"
    "t \<in> active_tags w \<Longrightarrow> r < length w \<Longrightarrow> t \<in> local_tags (w ! r) \<Longrightarrow>
      world_look w' t = (if t = tag then u (w ! r) (world_look w t) else world_look w t)"
proof -
  have inv: "world_inv w" using w by (simp add: run_ok_def)
  show "set_particle u dec tag w = Inr w'"
    by (rule run_owner [OF w tag]) (simp add: set_particle_def w'_def)
  have f: "rank_inv (set_local u tag pd) \<and> local_tags (set_local u tag pd) = local_tags pd - {}
      \<and> pd_tag_set (set_local u tag pd) = pd_tag_set pd - {}" if "pd \<in> set w" for pd
    using set_local_inv [OF u world_inv_mem(1) [OF inv that]] by simp
  have inv': "world_inv w'" and act: "active_tags w' = active_tags w"
    using map_world_inv(1) [OF inv f] map_world_inv(2) [OF inv f] by (simp_all add: w'_def replicated_def)
  then show "run_ok dec w'" "active_tags w' = active_tags w" using w by (simp_all add: run_ok_def w'_def)
  assume t: "t \<in> active_tags w" and r: "r < length w" "t \<in> local_tags (w ! r)"
  note m = world_inv_rank(1,2) [OF inv r(1)]
  have "world_look w' t = look (set_local u tag (w ! r)) t"
    using world_look_owner [OF inv', of t r] act t r set_local_inv(2) [OF u m(1)] by (simp add: w'_def)
  then show "world_look w' t = (if t = tag then u (w ! r) (world_look w t) else world_look w t)"
    using set_local_look [OF m(1) _ r(2)] tag m(2) world_look_owner [OF inv t r]
    by (cases "t = tag") simp_all
qed

subsection \<open>The contract of a property\<close>

locale particle_field =
  fixes get :: "bool \<Rightarrow> nat \<Rightarrow> world \<Rightarrow> 'a result"
    and put :: "bool \<Rightarrow> nat \<Rightarrow> 'a \<Rightarrow> world \<Rightarrow> world result"
    and sel :: "pdata_element \<Rightarrow> 'a"
    and upd :: "'a \<Rightarrow> pdata_element \<Rightarrow> pdata_element"
  assumes get_sel: "run_ok dec w \<Longrightarrow> tag \<in> active_tags w \<Longrightarrow> get dec tag w = Inr (sel (world_look w tag))"
    and put_ok: "run_ok dec w \<Longrightarrow> tag \<in> active_tags w \<Longrightarrow>
      \<exists>w'. put dec tag x w = Inr w' \<and> run_ok dec w' \<and> active_tags w' = active_tags w
        \<and> (\<forall>t\<in>active_tags w. world_look w' t = (if t = tag then upd x (world_look w t) else world_look w t))"
    and sel_upd: "sel (upd x e) = x"
    and upd_upd: "upd y (upd x e) = upd y e"
begin

lemma put_get:
  assumes "run_ok dec w" "tag \<in> active_tags w"
  shows "\<exists>w'. put dec tag x w = Inr w' \<and> run_ok dec w' \<and> active_tags w' = active_tags w \<and> get dec tag w' = Inr x
    \<and> (\<forall>t\<in>active_tags w - {tag}. world_look w' t = world_look w t \<and> get dec t w' = get dec t w)"
proof -
  obtain w' where w': "put dec tag x w = Inr w'" "run_ok dec w'" "active_tags w' = active_tags w"
    "\<forall>t\<in>active_tags w. world_look w' t = (if t = tag then upd x (world_look w t) else world_look w t)"
    using put_ok [OF assms] by blast
  have "get dec tag w' = Inr x" using get_sel [OF w'(2), of tag] w'(3,4) assms(2) sel_upd by simp
  moreover have "world_look w' t = world_look w t \<and> get dec t w' = get dec t w" if "t \<in> active_tags w - {tag}" for t
    using get_sel [OF w'(2), of t] get_sel [OF assms(1), of t] w'(3,4) that by simp
  ultimately show ?thesis using w' by blast
qed

lemma put_put:
  assumes w: "run_ok dec w" "tag \<in> active_tags w" and p: "put dec tag x w = Inr w1" "put dec tag y w1 = Inr w2"
    "put dec tag y w = Inr w3" and t: "t \<in> active_tags w"
  shows "world_look w2 t = world_look w3 t"
proof -
  have 1: "run_ok dec w1" "active_tags w1 = active_tags w"
    "world_look w1 t = (if t = tag then upd x (world_look w t) else world_look w t)"
    using put_ok [OF w, of x] p(1) t by auto
  then have "world_look w2 t = (if t = tag then upd y (world_look w1 t) else world_look w1 t)"
    using put_ok [OF 1(1), of tag y] w(2) p(2) t by auto
  moreover have "world_look w3 t = (if t = tag then upd y (world_look w t) else world_look w t)"
    using put_ok [OF w, of y] p(3) t by auto
  ultimately show ?thesis using 1(3) upd_upd by (cases "t = tag") simp_all
qed

end

lemma set_particle_field:
  assumes w: "run_ok dec w" and tag: "tag \<in> active_tags w" and u: "\<And>e. pe_tag (u e) = pe_tag e"
  shows "\<exists>w'. set_particle (\<lambda>_. u) dec tag w = Inr w' \<and> run_ok dec w' \<and> active_tags w' = active_tags w
    \<and> (\<forall>t\<in>active_tags w. world_look w' t = (if t = tag then u (world_look w t) else world_look w t))"
proof -
  note s = set_particle_ok [OF w tag, of "\<lambda>_. u", OF u]
  have "\<exists>r<length w. t \<in> local_tags (w ! r)" if "t \<in> active_tags w" for t
    using world_owner [of w t] w that by (auto simp: run_ok_def)
  then show ?thesis using s by blast
qed

interpretation velocity: particle_field getVelocity setVelocity pe_vel "\<lambda>x e. e\<lparr>pe_vel := x\<rparr>"
  by unfold_locales (simp_all add: getVelocity_def setVelocity_def get_particle_elem set_particle_field)

interpretation mass: particle_field getMass setMass pe_mass "\<lambda>x e. e\<lparr>pe_mass := x\<rparr>"
  by unfold_locales (simp_all add: getMass_def setMass_def get_particle_elem set_particle_field)

interpretation charge: particle_field getCharge setCharge pe_charge "\<lambda>x e. e\<lparr>pe_charge := x\<rparr>"
  by unfold_locales (simp_all add: getCharge_def setCharge_def get_particle_elem set_particle_field)

interpretation diameter: particle_field getDiameter setDiameter pe_diameter "\<lambda>x e. e\<lparr>pe_diameter := x\<rparr>"
  by unfold_locales (simp_all add: getDiameter_def setDiameter_def get_particle_elem set_particle_field)

interpretation ptype: particle_field getType setType pe_type "\<lambda>x e. e\<lparr>pe_type := x\<rparr>"
  by unfold_locales (simp_all add: getType_def setType_def get_particle_elem set_particle_field)

interpretation orientation: particle_field getOrientation setOrientation pe_orientation "\<lambda>x e. e\<lparr>pe_orientation := x\<rparr>"
  by unfold_locales (simp_all add: getOrientation_def setOrientation_def get_particle_elem set_particle_field)

interpretation angmom: particle_field getAngularMomentum setAngularMomentum pe_angmom "\<lambda>x e. e\<lparr>pe_angmom := x\<rparr>"
  by unfold_locales (simp_all add: getAngularMomentum_def setAngularMomentum_def get_particle_elem set_particle_field)

interpretation inertia: particle_field getMomentsOfInertia setMomentsOfInertia pe_inertia "\<lambda>x e. e\<lparr>pe_inertia := x\<rparr>"
  by unfold_locales (simp_all add: getMomentsOfInertia_def setMomentsOfInertia_def get_particle_elem set_particle_field)


subsection \<open>Moving one particle to another rank\<close>

lemma sent_one:
  assumes "k < length es"
  shows "sent es ((replicate (length es) 0)[k := 1]) = [es ! k]"
    "mset (kept es ((replicate (length es) 0)[k := 1])) + {#es ! k#} = mset es"
proof -
  have none: "sent es (replicate (length es) 0) = [] \<and> kept es (replicate (length es) 0) = es" for es
    by (induction es) simp_all
  have "sent es ((replicate (length es) 0)[k := 1]) = [es ! k]
      \<and> mset (kept es ((replicate (length es) 0)[k := 1])) + {#es ! k#} = mset es"
    using assms
  proof (induction es arbitrary: k)
    case (Cons e es)
    then show ?case using none [of es] by (cases k) auto
  qed simp
  then show "sent es ((replicate (length es) 0)[k := 1]) = [es ! k]"
    "mset (kept es ((replicate (length es) 0)[k := 1])) + {#es ! k#} = mset es" by simp_all
qed

lemma world_elems_update:
  "r < length w \<Longrightarrow> mset (world_elems (w[r := p])) + mset (local_elems (w ! r)) = mset (world_elems w) + mset (local_elems p)"
proof (induction w arbitrary: r)
  case (Cons q w)
  then show ?case by (cases r) (auto simp: world_elems_def ac_simps)
qed simp

lemma world_elems_transfer:
  assumes own: "owner < length w" "new < length w" "new \<noteq> owner"
    and p: "mset (local_elems p) + {#e#} = mset (local_elems (w ! owner))"
    and q: "map clear_net (local_elems q) = map clear_net (local_elems (w ! new) @ [e])"
  shows "mset (map clear_net (world_elems (w[owner := p, new := q]))) = mset (map clear_net (world_elems w))"
proof -
  let ?C = "\<lambda>es. image_mset clear_net (mset es)" and ?u = "w[owner := p]"
  have "mset (world_elems ?u) + {#e#} + mset (local_elems p) = mset (world_elems w) + mset (local_elems p)"
    using world_elems_update [OF own(1), of p, folded p] by (simp add: ac_simps)
  then have "image_mset clear_net (mset (world_elems ?u) + {#e#}) = ?C (world_elems w)" by simp
  then have "?C (world_elems ?u) + {#clear_net e#} = ?C (world_elems w)" by (simp only: image_mset_union image_mset_single)
  moreover have "?C (world_elems (?u[new := q])) + ?C (local_elems (w ! new)) = ?C (world_elems ?u) + ?C (local_elems q)"
    using arg_cong [OF world_elems_update [of new ?u q], of "image_mset clear_net"] own by simp
  moreover have "?C (local_elems q) = ?C (local_elems (w ! new)) + {#clear_net e#}"
    using arg_cong [OF q, of mset] by simp
  ultimately show ?thesis
    by (simp add: ac_simps)
qed

lemma mark_for_sending_ok:
  assumes inv: "rank_inv pd" and ng: "pd_nghosts pd = 0" and fl: "flags_clear pd" and k: "k < pd_nparticles pd"
    and rm: "removeParticles (mark_for_sending k pd) = (buf, flags, pd')"
  shows "buf = [local_elems pd ! k]" "mset (local_elems pd') + {#local_elems pd ! k#} = mset (local_elems pd)"
    "rank_inv pd'" "replicated pd' pd" "pd_nghosts pd' = 0" "flags_clear pd'"
proof -
  let ?m = "mark_for_sending k pd"
  have m: "rank_inv ?m" "pd_nghosts ?m = 0" "local_elems ?m = local_elems pd" "replicated ?m pd"
    using inv ng by (simp_all add: mark_for_sending_def rank_inv_def lens_ok_def tags_ok_def rtag_ok_def getRTag_def
        pd_tag_def local_elems_def replicated_def)
  have len: "pd_nparticles pd \<le> length (pd_comm_flags pd)" using inv by (simp add: rank_inv_def lens_ok_def)
  have z: "take (pd_nparticles pd) (pd_comm_flags pd) = replicate (pd_nparticles pd) 0"
    using fl len by (intro nth_equalityI) (auto simp: flags_clear_def)
  have f: "take (pd_nparticles ?m) (pd_comm_flags ?m) = (replicate (length (local_elems pd)) 0)[k := 1]"
    using local_elems_length [OF inv] by (simp add: mark_for_sending_def take_update_swap z)
  have kl: "k < length (local_elems pd)" using k local_elems_length [OF inv] by simp
  note r = removeParticles_ok [OF m(1,2) rm, unfolded f m(3)]
  show "buf = [local_elems pd ! k]" "mset (local_elems pd') + {#local_elems pd ! k#} = mset (local_elems pd)"
    "rank_inv pd'" "replicated pd' pd" "pd_nghosts pd' = 0" "flags_clear pd'"
    using r sent_one [OF kl] m(4) by (simp_all add: replicated_def flags_clear_def)
qed

lemma transfer_particle_ok:
  assumes w: "world_inv w" and tag: "tag \<in> local_tags (w ! owner)"
    and own: "owner < length w" "new < length w" "new \<noteq> owner" and fl: "flags_clear (w ! owner)"
  shows "\<exists>w'. transfer_particle tag owner new w = Inr w' \<and> length w' = length w \<and> world_inv w'
    \<and> active_tags w' = active_tags w \<and> tag \<in> local_tags (w' ! new)
    \<and> (\<forall>t\<in>active_tags w. clear_net (world_look w' t) = clear_net (world_look w t))
    \<and> map pd_global_box w' = map pd_global_box w \<and> map pd_origin w' = map pd_origin w \<and> map pd_o_image w' = map pd_o_image w"
proof -
  let ?g = "map removeAllGhostParticles w" and ?k = "getRTag (w ! owner) tag"
  note gw = remove_ghosts_world [OF w]
  have gi: "rank_inv (?g ! r)" "pd_nghosts (?g ! r) = 0" "local_elems (?g ! r) = local_elems (w ! r)" "local_tags (?g ! r) = local_tags (w ! r)" "replicated (?g ! r) (w ! r)"
    if "r < length w" for r
    using removeAllGhostParticles_inv [OF world_inv_rank(1) [OF w that]] that
    by (simp_all add: local_elems_def replicated_def)
  have k: "?k < pd_nparticles (w ! owner)" "pd_tag (w ! owner) ?k = tag"
    using tag world_inv_rank(1) [OF w own(1)] by (auto simp: rank_inv_def local_tags_def rtag_ok_def)
  obtain buf flags p where rm: "removeParticles (mark_for_sending ?k (?g ! owner)) = (buf, flags, p)" by (rule prod_cases3)
  have fl': "flags_clear (?g ! owner)" "?k < pd_nparticles (?g ! owner)" using fl own(1) k by (simp_all add: flags_clear_def)
  note mk = mark_for_sending_ok [OF gi(1,2) [OF own(1)] fl' rm]
  define e where "e = local_elems (w ! owner) ! ?k"
  have buf: "buf = [e]" and p: "mset (local_elems p) + {#e#} = mset (local_elems (w ! owner))"
    using mk(1,2) gi(3) [OF own(1)] by (simp_all add: e_def)
  have et: "pe_tag e = tag" using k by (simp add: e_def local_elems_nth pd_tag_def)
  let ?q = "addParticles [e] (?g ! new)"
  have tact: "tag \<in> pd_tag_set (?g ! new)" "tag \<notin> local_tags (?g ! new)"
    using tag rank_elems(1,3) [OF world_inv_rank(1) [OF w own(1)]] world_inv_rank(2) [OF w] gi(4,5) own
      world_disjoint [OF w own(1,2) tag] by (auto simp: replicated_def)
  note ad = addParticles_ok [OF gi(1,2) [OF own(2)], of "[e]"]
  have q: "map clear_net (local_elems ?q) = map clear_net (local_elems (w ! new) @ [e])" "rank_inv ?q" "replicated ?q (?g ! new)"
    using ad(1-3) et tact gi(3) [OF own(2)] by simp_all
  define w' where "w' = ?g[owner := p, new := ?q]"
  have tr: "transfer_particle tag owner new w = Inr w'"
    using rm own by (simp add: transfer_particle_def Let_def buf w'_def)
  have len: "length w' = length w" by (simp add: w'_def)
  have ranks: "rank_inv (w' ! r) \<and> replicated (w' ! r) (w ! r)" if "r < length w" for r
    using that own mk(3,4) q(2,3) gi [OF that] gi(5) [OF own(1)] gi(5) [OF own(2)]
    by (auto simp: w'_def nth_list_update replicated_def)
  have "world_elems ?g = world_elems w" by (simp add: world_elems_def comp_def local_elems_def [abs_def])
  then have same: "mset (map clear_net (world_elems w')) = mset (map clear_net (world_elems w))"
    using world_elems_transfer [of owner ?g new p e ?q] own p q(1) gi(3) [OF own(1)] gi(3) [OF own(2)] by (simp add: w'_def)
  note red = world_redistributed [OF w len ranks same clear_net_simps(1)]
  have "tag \<in> local_tags (w' ! new)"
    using arg_cong [OF q(1), of "\<lambda>l. pe_tag ` set l"] own et rank_elems(1) [OF q(2)]
    by (simp add: w'_def image_image insert_commute)
  moreover have "map pd_global_box w' = map pd_global_box w \<and> map pd_origin w' = map pd_origin w \<and> map pd_o_image w' = map pd_o_image w"
  proof -
    have "p = snd (snd (removeParticles (mark_for_sending ?k (?g ! owner))))" using rm by simp
    then have "pd_global_box p = pd_global_box (w ! owner)" "pd_origin p = pd_origin (w ! owner)" "pd_o_image p = pd_o_image (w ! owner)"
      using own(1) by (simp_all only: migrate_frame) (simp_all add: mark_for_sending_def removeAllGhostParticles_def slotGhostParticlesRemoved_def)
    then show ?thesis using own
      by (intro conjI nth_equalityI) (auto simp: w'_def nth_list_update removeAllGhostParticles_def slotGhostParticlesRemoved_def)
  qed
  ultimately show ?thesis using tr len red by blast
qed


subsection \<open>Setting the position\<close>

definition place_elem :: "vec3 \<Rightarrow> ParticleData \<Rightarrow> pdata_element \<Rightarrow> pdata_element" where
  "place_elem pos pd e =
    (let (p, i) = wrap (pd_global_box pd) (vadd pos (pd_origin pd)) (pe_image e) in e\<lparr>pe_pos := p, pe_image := i\<rparr>)"

lemma place_elem_tag: "pe_tag (place_elem pos pd e) = pe_tag e"
  by (simp add: place_elem_def split_beta)

lemma store_position_alt: "store_position pos tag pd = set_local (place_elem pos) tag pd"
  by (simp add: store_position_def set_local_def wrapped_position_def local_value_def place_elem_def Let_def split_beta)

lemma all_results_same: "all_results (replicate n (Inr x)) = Inr (replicate n x)"
  by (induction n) simp_all

text \<open>All ranks agree on the box and on the origin, and no particle is marked to be sent.\<close>

definition frame_ok :: "BoxDim \<Rightarrow> vec3 \<Rightarrow> int3 \<Rightarrow> world \<Rightarrow> bool" where
  "frame_ok b u oi w \<longleftrightarrow> (\<forall>pd\<in>set w. pd_global_box pd = b \<and> pd_origin pd = u \<and> pd_o_image pd = oi)"

lemma frame_ok_maps:
  assumes "frame_ok b u oi w" "map pd_global_box w' = map pd_global_box w" "map pd_origin w' = map pd_origin w"
    "map pd_o_image w' = map pd_o_image w"
  shows "frame_ok b u oi w'"
proof -
  have "length w' = length w" using assms(2) map_eq_imp_length_eq by blast
  moreover have "pd_global_box (w' ! r) = pd_global_box (w ! r) \<and> pd_origin (w' ! r) = pd_origin (w ! r)
      \<and> pd_o_image (w' ! r) = pd_o_image (w ! r)" if "r < length w" for r
    using assms(2-4) that calculation by (metis nth_map)
  ultimately show ?thesis using assms(1) unfolding frame_ok_def all_set_conv_all_nth by metis
qed


lemma clear_net_fields: "pe_pos (clear_net e) = pe_pos e" "pe_image (clear_net e) = pe_image e"
  by (simp_all add: clear_net_def)

lemma get_placed:
  assumes w: "run_ok dec w" and tag: "tag \<in> active_tags w" and fr: "frame_ok b u oi w"
    and b: "box_wf b" "inside_box b pos" "inside_box b u"
    and e: "pe_pos (world_look w tag) = fst (wrap b (vadd pos u) img)" "pe_image (world_look w tag) = snd (wrap b (vadd pos u) img)"
  shows "getPosition dec tag w = Inr pos" "getParticleImage dec tag w = Inr (sub_int3 img oi)"
proof -
  obtain r where r: "r < length w" "tag \<in> local_tags (w ! r)" by (rule run_owner [OF w tag])
  have f: "pd_global_box (w ! r) = b" "pd_origin (w ! r) = u" "pd_o_image (w ! r) = oi"
    using fr nth_mem [OF r(1)] by (simp_all add: frame_ok_def)
  have h: "pd_global_box (hd w) = b" "pd_o_image (hd w) = oi"
    using fr w by (auto simp: frame_ok_def run_ok_def world_inv_def)
  have bk: "wrap b (vsub (pe_pos (world_look w tag)) u) (sub_int3 (pe_image (world_look w tag)) oi) = (pos, sub_int3 img oi)"
    unfolding e by (rule wrap_shift_back [OF b]) simp
  show "getPosition dec tag w = Inr pos" "getParticleImage dec tag w = Inr (sub_int3 img oi)"
    by (simp_all add: getPosition_def getParticleImage_def get_particle_ok [OF w tag r] f h bk)
qed

lemma setPosition_stored:
  fixes pos :: vec3
  assumes w: "run_ok dec w" and tag: "tag \<in> active_tags w" and fr: "frame_ok b u oi w"
  defines "w1 \<equiv> map (store_position pos tag) w"
  shows "run_ok dec w1" "active_tags w1 = active_tags w" "frame_ok b u oi w1"
    "t \<in> active_tags w \<Longrightarrow> t \<noteq> tag \<Longrightarrow> world_look w1 t = world_look w t"
    "pe_pos (world_look w1 tag) = fst (wrap b (vadd pos u) (pe_image (world_look w tag)))"
    "pe_image (world_look w1 tag) = snd (wrap b (vadd pos u) (pe_image (world_look w tag)))"
proof -
  have w1: "w1 = map (set_local (place_elem pos) tag) w" by (simp add: w1_def store_position_alt)
  note s = set_particle_ok [OF w tag, where u = "place_elem pos", OF place_elem_tag, folded w1]
  show "run_ok dec w1" "active_tags w1 = active_tags w" by (rule s)+
  show "frame_ok b u oi w1" using fr by (simp add: frame_ok_def w1)
  show "world_look w1 t = world_look w t" if t: "t \<in> active_tags w" "t \<noteq> tag"
    using s(4) [OF t(1)] t(2) by (rule_tac run_owner [OF w t(1)]) simp
  obtain r where r: "r < length w" "tag \<in> local_tags (w ! r)" by (rule run_owner [OF w tag])
  then have "pd_global_box (w ! r) = b" "pd_origin (w ! r) = u" using fr by (simp_all add: frame_ok_def)
  then show "pe_pos (world_look w1 tag) = fst (wrap b (vadd pos u) (pe_image (world_look w tag)))"
    "pe_image (world_look w1 tag) = snd (wrap b (vadd pos u) (pe_image (world_look w tag)))"
    using s(4) [OF tag r] by (simp_all add: place_elem_def split_beta)
qed

lemma setPosition_ok:
  assumes w: "run_ok True w" and tag: "tag \<in> active_tags w" and fr: "frame_ok b u oi w"
    and fl: "\<forall>pd\<in>set w. flags_clear pd" and dd: "dd_wf dd" "dd_nranks dd = length w"
    and b: "box_wf b" "inside_box b pos" "inside_box b u"
  shows "\<exists>w' n. setPosition (Some dd) tag pos True w = Inr w' \<and> run_ok True w' \<and> active_tags w' = active_tags w
    \<and> frame_ok b u oi w' \<and> placeParticle dd b (fst (wrap b (vadd pos u) (0, 0, 0))) = Inr n
    \<and> n < length w' \<and> tag \<in> local_tags (w' ! n)
    \<and> (\<forall>t\<in>active_tags w. clear_net (world_look w' t) = clear_net (world_look (map (store_position pos tag) w) t))"
proof -
  let ?P = "fst (wrap b (vadd pos u) (0, 0, 0))" and ?w1 = "map (store_position pos tag) w"
  note st = setPosition_stored [OF w tag fr, where pos = pos]
  have inv1: "world_inv ?w1" using st(1) by (simp add: run_ok_def)
  obtain f1 f2 f3 where f: "fraction b ?P = (f1, f2, f3)" by (rule prod_cases3)
  have "inside_box b ?P" by (rule wrap_inside(1) [OF b])
  then obtain n where n: "placeParticle dd b ?P = Inr n" "n < length w"
    using placeParticle_slot [OF dd(1) f] dd(2) by (auto simp: inside_box_def f)
  have pl: "map (\<lambda>(pd, p). placeParticle dd (pd_global_box pd) p) (zip ?w1 (map (\<lambda>pd. fst (wrapped_position pos tag pd)) w))
      = replicate (length w) (Inr n)"
  proof (rule nth_equalityI)
    fix i assume "i < length (map (\<lambda>(pd, p). placeParticle dd (pd_global_box pd) p) (zip ?w1 (map (\<lambda>pd. fst (wrapped_position pos tag pd)) w)))"
    then have i: "i < length w" by simp
    then have f: "pd_global_box (w ! i) = b" "pd_origin (w ! i) = u" using fr by (simp_all add: frame_ok_def)
    then have "fst (wrapped_position pos tag (w ! i)) = ?P"
      unfolding wrapped_position_def by (simp only:) (rule wrap_pos_img)
    then show "map (\<lambda>(pd, p). placeParticle dd (pd_global_box pd) p) (zip ?w1 (map (\<lambda>pd. fst (wrapped_position pos tag pd)) w)) ! i
        = replicate (length w) (Inr n) ! i"
      using i n(1) f by (simp add: store_position_alt)
  qed simp
  obtain r where r: "r < length w" "tag \<in> local_tags (w ! r)" "getOwnerRank tag w = Inr r" by (rule run_owner [OF w tag])
  have r1: "tag \<in> local_tags (?w1 ! r)"
    using set_local_inv(2) [OF place_elem_tag world_inv_rank(1) [OF _ r(1)]] w r by (simp add: store_position_alt run_ok_def)
  have "length w > 0" using r by auto
  then have sp: "setPosition (Some dd) tag pos True w = (if n \<noteq> r then transfer_particle tag r n ?w1 else Inr ?w1)"
    unfolding setPosition_def option.case Let_def r(3) bind_result_simps pl all_results_same by simp
  show ?thesis
  proof (cases "n = r")
    case True
    then show ?thesis using sp st(1-3) n r r1 by auto
  next
    case False
    have "flags_clear (?w1 ! r)" using fl r(1) by (simp add: flags_clear_def store_position_alt)
    from transfer_particle_ok [OF inv1 r1 _ _ False this] obtain w' where "transfer_particle tag r n ?w1 = Inr w'"
      "length w' = length w" "world_inv w'" "active_tags w' = active_tags w" "tag \<in> local_tags (w' ! n)"
      "\<forall>t\<in>active_tags w. clear_net (world_look w' t) = clear_net (world_look ?w1 t)"
      "map pd_global_box w' = map pd_global_box ?w1" "map pd_origin w' = map pd_origin ?w1" "map pd_o_image w' = map pd_o_image ?w1"
      using r(1) n(2) st(2) by auto
    then show ?thesis using sp False n frame_ok_maps [OF st(3)] by (auto simp: run_ok_def)
  qed
qed

text \<open>
  C11: \<open>setPosition\<close> in a run with a domain decomposition, for a position inside the global box and any
  shifted origin: the call succeeds, the run stays consistent, \<open>getPosition\<close> returns the position that
  was set, the image flags of the particle are the stored ones corrected by the image of the origin,
  the particle is owned by the rank that \<open>placeParticle\<close> names, and no other particle's data changes
  (net forces apart).
\<close>

theorem setPosition_correct:
  assumes w: "run_ok True w" and tag: "tag \<in> active_tags w" and fr: "frame_ok b u oi w"
    and fl: "\<forall>pd\<in>set w. flags_clear pd" and dd: "dd_wf dd" "dd_nranks dd = length w"
    and b: "box_wf b" "inside_box b pos" "inside_box b u"
  shows "\<exists>w'. setPosition (Some dd) tag pos True w = Inr w' \<and> run_ok True w' \<and> active_tags w' = active_tags w
    \<and> getPosition True tag w' = Inr pos
    \<and> getParticleImage True tag w' = Inr (sub_int3 (pe_image (world_look w tag)) oi)
    \<and> getOwnerRank tag w' = placeParticle dd b (fst (wrap b (vadd pos u) (0, 0, 0)))
    \<and> (\<forall>t\<in>active_tags w - {tag}. clear_net (world_look w' t) = clear_net (world_look w t))"
proof -
  let ?w1 = "map (store_position pos tag) w"
  note st = setPosition_stored [OF w tag fr, where pos = pos]
  obtain w' n where w': "setPosition (Some dd) tag pos True w = Inr w'" "run_ok True w'" "active_tags w' = active_tags w"
    "frame_ok b u oi w'" "placeParticle dd b (fst (wrap b (vadd pos u) (0, 0, 0))) = Inr n"
    "n < length w'" "tag \<in> local_tags (w' ! n)"
    "\<forall>t\<in>active_tags w. clear_net (world_look w' t) = clear_net (world_look ?w1 t)"
    using setPosition_ok [OF assms] by blast
  have "clear_net (world_look w' tag) = clear_net (world_look ?w1 tag)" using w'(8) tag by blast
  then have e: "pe_pos (world_look w' tag) = fst (wrap b (vadd pos u) (pe_image (world_look w tag)))"
    "pe_image (world_look w' tag) = snd (wrap b (vadd pos u) (pe_image (world_look w tag)))"
    using st(5,6) clear_net_fields by metis+
  have tag': "tag \<in> active_tags w'" using tag w'(3) by simp
  note g = get_placed [OF w'(2) tag' w'(4) b e]
  have "getOwnerRank tag w' = Inr n" using getOwnerRank_found [OF _ tag' w'(6,7)] w'(2) by (simp add: run_ok_def)
  then show ?thesis using w' g st(4) by (intro exI [of _ w']) auto
qed


subsection \<open>Properties of the accessors\<close>

definition field_roundtrip ::
  "(bool \<Rightarrow> nat \<Rightarrow> world \<Rightarrow> 'a result) \<Rightarrow> (bool \<Rightarrow> nat \<Rightarrow> 'a \<Rightarrow> world \<Rightarrow> world result) \<Rightarrow> bool \<Rightarrow> nat \<Rightarrow> 'a \<Rightarrow> world \<Rightarrow> bool" where
  "field_roundtrip get put dec tag x w \<longleftrightarrow>
    (\<exists>w'. put dec tag x w = Inr w' \<and> run_ok dec w' \<and> active_tags w' = active_tags w \<and> get dec tag w' = Inr x
      \<and> (\<forall>t\<in>active_tags w - {tag}. world_look w' t = world_look w t \<and> get dec t w' = get dec t w))"




lemma wrap_fixed_iff:
  assumes "box_wf b"
  shows "snd (wrap b v i) = i \<longleftrightarrow> inside_box b v"
proof -
  have s: "box_shift b (fst (wrap b v i)) (snd (wrap b v i)) = box_shift b v i" by (rule wrap_shift)
  have "snd (wrap b v i) = i \<longleftrightarrow> fst (wrap b v i) = v"
  proof
    assume "snd (wrap b v i) = i"
    then have "box_shift b (fst (wrap b v i)) i = box_shift b v i" using s by simp
    then show "fst (wrap b v i) = v" by (simp add: box_shift_def vadd_def prod_eq_iff)
  qed (use s box_shift_img_inj [OF assms] in metis)
  also have "\<dots> \<longleftrightarrow> fraction b (fst (wrap b v i)) = fraction b v" using fraction_inj [OF assms] by metis
  also have "\<dots> \<longleftrightarrow> inside_box b v"
    unfolding wrap_fraction [OF assms] inside_box_def by (auto simp: prod_eq_iff wrap_frac_def split: if_splits)
  finally show ?thesis .
qed

text \<open>
  C40: \<open>setImage\<close> is read back by \<open>getImage\<close> exactly when the stored position, moved back by the
  shifted origin, still lies inside the box: \<open>getImage\<close> wraps the position and counts the crossing,
  \<open>setImage\<close> corrects for the image of the origin only.
\<close>

theorem setImage_reads_back_iff:
  assumes w: "run_ok dec w" and tag: "tag \<in> active_tags w" and fr: "frame_ok b u oi w" and b: "box_wf b"
  shows "\<exists>w'. setImage dec tag img w = Inr w' \<and> run_ok dec w'
    \<and> (getParticleImage dec tag w' = Inr img \<longleftrightarrow> inside_box b (vsub (pe_pos (world_look w tag)) u))"
proof -
  let ?u = "\<lambda>pd e. e\<lparr>pe_image := add_int3 img (pd_o_image pd)\<rparr>" and ?w' = "map (set_local (\<lambda>pd e. e\<lparr>pe_image := add_int3 img (pd_o_image pd)\<rparr>) tag) w"
  note s = set_particle_ok [OF w tag, where u = ?u]
  have t: "pe_tag (?u pd e) = pe_tag e" for pd e by simp
  obtain r where r: "r < length w" "tag \<in> local_tags (w ! r)" by (rule run_owner [OF w tag])
  have f: "pd_global_box (w ! r) = b" "pd_origin (w ! r) = u" "pd_o_image (w ! r) = oi"
    using fr nth_mem [OF r(1)] by (simp_all add: frame_ok_def)
  have ne: "w \<noteq> []" using r by auto
  have h: "pd_global_box (hd ?w') = b" "pd_o_image (hd ?w') = oi" using fr ne by (simp_all add: frame_ok_def hd_map)
  have l: "world_look ?w' tag = ?u (w ! r) (world_look w tag)" using s(4) [OF t tag r] by simp
  have r': "r < length ?w'" "tag \<in> local_tags (?w' ! r)" "tag \<in> active_tags ?w'"
    using r tag s(3) [OF t] set_local_inv(2) [where u = ?u, OF t world_inv_rank(1) [OF _ r(1)]] w by (simp_all add: run_ok_def)
  have bk: "sub_int3 (add_int3 img oi) oi = img" by (simp add: sub_int3_def add_int3_def)
  have "getParticleImage dec tag ?w' = Inr (snd (wrap b (vsub (pe_pos (world_look w tag)) u) img))"
    using r(1) f unfolding getParticleImage_def get_particle_ok [OF s(2) [OF t] r'(3,1,2)] l
    by (simp add: h bk)
  then have "getParticleImage dec tag ?w' = Inr img \<longleftrightarrow> inside_box b (vsub (pe_pos (world_look w tag)) u)"
    using wrap_fixed_iff [OF b] by simp
  then show ?thesis using s(1,2) [OF t] by (auto simp: setImage_def)
qed


lemma translateOrigin_frame [simp]:
  "pd_elems (translateOrigin a pd) = pd_elems pd" "pd_nparticles (translateOrigin a pd) = pd_nparticles pd"
  "pd_rtag (translateOrigin a pd) = pd_rtag pd" "pd_global_box (translateOrigin a pd) = pd_global_box pd"
  "pd_tag_set (translateOrigin a pd) = pd_tag_set pd" "rank_inv (translateOrigin a pd) = rank_inv pd"
  "local_tags (translateOrigin a pd) = local_tags pd" "replicated (translateOrigin a p) (translateOrigin a q) = replicated p q"
  by (simp_all add: translateOrigin_def split_beta rank_inv_def lens_ok_def tags_ok_def rtag_ok_def getRTag_def pd_tag_def
      local_tags_def replicated_def)

lemma translateOrigin_world:
  assumes "world_inv w"
  shows "world_inv (map (translateOrigin a) w)" "active_tags (map (translateOrigin a) w) = active_tags w"
    "world_look (map (translateOrigin a) w) t = world_look w t"
proof -
  show "world_inv (map (translateOrigin a) w)" "active_tags (map (translateOrigin a) w) = active_tags w"
    using map_world_inv [OF assms, of "translateOrigin a" "{}"] world_inv_mem(1) [OF assms] by simp_all
  show "world_look (map (translateOrigin a) w) t = world_look w t"
    by (induction w) (simp_all add: isParticleLocal_def look_def getRTag_def)
qed

lemma run2_frame: "frame_ok tilted10 (0, 0, 0) (0, 0, 0) run2" "\<forall>pd\<in>set run2. flags_clear pd" "length run2 = 2" "run_ok True run2"
proof -
  obtain p q where r: "run2 = [p, q]" using run2_eval(1) by (auto simp: Cons_eq_map_conv)
  have z: "flags_clear pd" if "take (pd_nparticles pd) (pd_comm_flags pd) = replicate n 0" "pd_nparticles pd \<le> length (pd_comm_flags pd)" for pd n
    unfolding flags_clear_def using that by (metis length_replicate length_take min.absorb2 nth_replicate nth_take)
  show "frame_ok tilted10 (0, 0, 0) (0, 0, 0) run2" "length run2 = 2" "run_ok True run2"
    using run2_eval(1) run2_inv by (simp_all add: r frame_ok_def run_ok_def)
  have "pd_nparticles pd \<le> length (pd_comm_flags pd)" if "pd \<in> set run2" for pd
    using world_inv_mem(1) [OF run2_inv(1) that] by (simp add: rank_inv_def lens_ok_def)
  then show "\<forall>pd\<in>set run2. flags_clear pd" using run2_eval(1) z [of p 2] z [of q 0] by (simp add: r numeral_2_eq_2)
qed

definition dd_pair :: DomainDecomposition where
  "dd_pair = \<lparr>dd_nx = 2, dd_ny = 1, dd_nz = 1, dd_cart_ranks = [0, 1], dd_cart_ranks_inv = [0, 1],
     dd_frac_x = uniform_fractions 2, dd_frac_y = uniform_fractions 1, dd_frac_z = uniform_fractions 1\<rparr>"

lemma dd_pair_wf: "dd_wf dd_pair" "dd_nranks dd_pair = 2"
  by (simp_all add: dd_wf_def dd_pair_def dd_nranks_def uniform_fractions_wf less_Suc_eq numeral_2_eq_2)

lemma inside_tilted10: "inside_box tilted10 (0, 0, 0)" "inside_box tilted10 (3, 1, 2)" "inside_box tilted10 (-5, 0, 0)"
  "\<not> inside_box tilted10 (5, 0, 0)"
  by (simp_all add: inside_box_def fraction_def makeFraction_def Let_def tilted10_def
        BoxDim_tilted_def setTiltFactors_def BoxDim_of_L_def setL_def)

theorem setPosition_correct_witness:
  "\<exists>w'. setPosition (Some dd_pair) 1 (3, 1, 2) True run2 = Inr w' \<and> run_ok True w' \<and> getPosition True 1 w' = Inr (3, 1, 2)"
proof -
  have 1: "1 \<in> active_tags run2" "dd_nranks dd_pair = length run2" using run2_inv run2_frame(3) dd_pair_wf by simp_all
  from setPosition_correct [OF run2_frame(4) 1(1) run2_frame(1,2) dd_pair_wf(1) 1(2) tilted10_wf inside_tilted10(2,1)]
  show ?thesis by blast
qed


theorem setImage_reads_back_iff_witness:
  "\<exists>w'. setImage True 0 (0, 0, 0) (map (translateOrigin (-5, 0, 0)) run2) = Inr w'
    \<and> getParticleImage True 0 w' \<noteq> Inr (0, 0, 0)"
proof -
  let ?w = "map (translateOrigin (-5, 0, 0)) run2"
  note t = translateOrigin_world [OF run2_inv(1), of "(-5, 0, 0)"]
  have "wrap tilted10 (-5, 0, 0) (0, 0, 0) = ((-5, 0, 0), (0, 0, 0))"
    by (simp add: wrap_def wrap_flags_def wrap_x_def wrap_y_def wrap_z_def wrap_origin_def Let_def tilted10_def
        BoxDim_tilted_def setTiltFactors_def BoxDim_of_L_def setL_def BoxDim_empty_def)
  then have f: "frame_ok tilted10 (-5, 0, 0) (0, 0, 0) ?w"
    using run2_frame(1) by (auto simp: frame_ok_def translateOrigin_def vadd_def)
  have "run_ok True ?w" "0 \<in> active_tags ?w" using t(1,2) run2_inv(2) by (simp_all add: run_ok_def)
  from setImage_reads_back_iff [OF this f tilted10_wf, of "(0, 0, 0)"] show ?thesis
    using inside_tilted10(4) run2_eval(2) by (auto simp: t(3) vsub_def)
qed

subsection \<open>Removing a particle moves another one\<close>

text \<open>
  The particle that \<open>removeParticle\<close> moves into the gap does not keep its angular momentum and its
  moments of inertia: the arrays \<open>m_angmom\<close> and \<open>m_inertia\<close> are not among those that are moved, so
  it takes over the values of the particle that was removed.
\<close>

theorem removeParticle_mixes_angmom:
  assumes w: "world_inv [pd]" and ng: "pd_nghosts pd = 0" and tag: "tag \<in> active_tags [pd]"
    and idx: "getRTag pd tag < pd_nparticles pd - 1"
  shows "pe_angmom (world_look (snd (removeParticle tag [pd])) (pd_tag pd (pd_nparticles pd - 1))) = pe_angmom (look pd tag)
    \<and> pe_inertia (world_look (snd (removeParticle tag [pd])) (pd_tag pd (pd_nparticles pd - 1))) = pe_inertia (look pd tag)"
proof -
  let ?q = "removeAllGhostParticles pd" and ?N = "pd_nparticles pd"
  let ?last = "pd_tag pd (?N - 1)" and ?k = "getRTag pd tag"
  have inv: "rank_inv pd" and q: "rank_inv ?q" using w removeAllGhostParticles_inv by (auto simp: world_inv_def)
  note lk = rank_lookup [OF q removeAllGhostParticles_frame(1), simplified]
  have tg: "tag \<in> pd_tag_set pd" using tag by (simp add: active_tags_def)
  have tags: "tags_ok ?q" "tags_ok pd" and len: "lens_ok ?q" "?N \<le> pd_max_nparticles pd" "lens_ok pd"
    using q inv by (auto simp: rank_inv_def)
  have k: "getRTag ?q tag = ?k"
    using removeAllGhostParticles_rtag [OF inv tag_set_mem [OF tags(2) tg] tg] idx by auto
  have loc: "isParticleLocal ?q tag" using k idx by (auto simp: isParticleLocal_def getRTag_def)
  have last: "?last \<in> pd_tag_set pd" "getRTag ?q ?last = ?N - 1" using lk(1) [of "?N - 1"] idx by auto
  have f: "lens_ok (forget_tag tag ?q)" using len(1) by simp
  let ?r = "without_particle tag ?q"
  have r: "?r = close_gap ?k (forget_tag tag ?q)" using loc k by (simp add: without_particle_def)
  have el: "pd_elems ?r ! ?k = move_element (pd_elems pd ! (?N - 1)) (pd_elems pd ! ?k)"
    unfolding r using close_gap_element [OF f, of ?k] idx len(2) by simp
  have rt: "getRTag ?r ?last = ?k"
    unfolding r using close_gap_fields(15) [OF f, of ?k ?last] idx len(2) tag_set_mem [OF tags(1)] last(1) by simp
  have w': "snd (removeParticle tag [pd]) = [removeParticle_finish tag ?q]" using removeParticle_ok [OF w tag] by simp
  have "getRTag (removeParticle_finish tag ?q) ?last = ?k" "pd_elems (removeParticle_finish tag ?q) = pd_elems ?r"
    "pd_nparticles (removeParticle_finish tag ?q) = ?N - 1"
    using rt without_particle_fields(2) [OF q, of tag] loc by (simp_all add: removeParticle_finish_alt getRTag_def)
  then show ?thesis unfolding w' using idx el by (simp add: look_def isParticleLocal_def getRTag_def move_element_def)
qed

theorem removeParticle_mixes_angmom_witness:
  "\<exists>w. setAngularMomentum False 0 (1, 2, 3, 4) serial2 = Inr w \<and> getAngularMomentum False 1 w = Inr (0, 0, 0, 0)
    \<and> pe_angmom (world_look (snd (removeParticle 0 w)) 1) = (1, 2, 3, 4)"
proof -
  obtain q where q: "serial2 = [q]" using serial2_eval by (auto simp: Cons_eq_map_conv)
  have run: "run_ok False serial2" using serial2_inv(1) by (simp add: run_ok_def q)
  let ?u = "\<lambda>_ e. e\<lparr>pe_angmom := (1, 2, 3, 4)\<rparr>"
  define pd where "pd = set_local ?u 0 q"
  have act: "0 \<in> active_tags serial2" "1 \<in> active_tags serial2" using serial2_inv(2) by simp_all
  have u: "pe_tag (?u pd e) = pe_tag e" for pd e by simp
  note s = set_particle_ok [OF run act(1), where u = ?u, OF u]
  have set: "setAngularMomentum False 0 (1, 2, 3, 4) serial2 = Inr [pd]" using s(1) by (simp add: setAngularMomentum_def q pd_def)
  have inv: "run_ok False [pd]" "active_tags [pd] = {0, 1}" using s(2,3) serial2_inv(2) by (simp_all add: q pd_def)
  have e: "getRTag pd 0 = 0" "pd_nparticles pd = 2" "pd_nghosts pd = 0" "pd_tag pd 1 = 1"
    using serial2_eval set_local_tag [OF u] by (simp_all add: q pd_def)
  have len: "2 \<le> length (pd_elems q)"
    using world_inv_mem(1) [OF serial2_inv(1), of q] serial2_eval by (simp add: q rank_inv_def lens_ok_def)
  have "pe_angmom (look pd 0) = (1, 2, 3, 4)" "getAngularMomentum False 1 [pd] = Inr (0, 0, 0, 0)"
    using serial2_eval len
    by (auto simp: q pd_def look_def set_local_def getAngularMomentum_def get_particle_def local_value_def getRTag_def nth_update_iff)
  then show ?thesis
    using removeParticle_mixes_angmom [of pd 0] inv e set by (intro exI [of _ "[pd]"]) (simp add: run_ok_def)
qed

end
