(* ===== verification/Pair_Evaluators.thy ===== *)
theory Pair_Evaluators
  imports Hoomd_Prelude
begin

section \<open>Pair potential evaluators\<close>

text \<open>
  The \<open>evalForceAndEnergy\<close> methods of \<^verbatim>\<open>hoomd/md/EvaluatorPair*.h\<close>. An evaluator is a function of its
  parameters, the squared distance, the squared cutoff and the flag \<open>energy_shift\<close>; it gives
  \<open>force_divr\<close> and \<open>pair_eng\<close>, or \<open>None\<close> where the method returns \<open>false\<close>. The documented contract
  (\<^verbatim>\<open>EvaluatorPairLJ.h\<close>) is that \<open>force_divr\<close> is the negative derivative of the potential divided by r and that
  \<open>pair_eng\<close> is \<open>V(r)\<close>, or \<open>V(r) - V(r_cut)\<close> with \<open>energy_shift\<close>. The locale \<open>central_potential\<close> is the
  first half of the contract, \<open>shifted_potential\<close> adds the second half; every evaluator is an
  interpretation of the first one, and of the second one unless its shift is wrong or missing.
\<close>

type_synonym pair_result = "(Scalar \<times> Scalar) option"

definition rsqrt :: "Scalar \<Rightarrow> Scalar" where
  "rsqrt x = 1 / sqrt x"

subsection \<open>Lennard-Jones and relatives\<close>

definition EvaluatorPairLJ :: "Scalar \<Rightarrow> Scalar \<Rightarrow> Scalar \<Rightarrow> Scalar \<Rightarrow> bool \<Rightarrow> pair_result" where
  "EvaluatorPairLJ sigma_6 epsilon_x_4 rsq rcutsq energy_shift =
    (let lj1 = epsilon_x_4 * sigma_6 * sigma_6; lj2 = epsilon_x_4 * sigma_6 in
     if rsq < rcutsq \<and> lj1 \<noteq> 0 then
       let r2inv = 1 / rsq; r6inv = r2inv * r2inv * r2inv;
           force_divr = r2inv * r6inv * (12 * lj1 * r6inv - 6 * lj2);
           pair_eng = r6inv * (lj1 * r6inv - lj2);
           rcut2inv = 1 / rcutsq; rcut6inv = rcut2inv * rcut2inv * rcut2inv
       in Some (force_divr, if energy_shift then pair_eng - rcut6inv * (lj1 * rcut6inv - lj2) else pair_eng)
     else None)"

definition EvaluatorPairLJ0804 :: "Scalar \<Rightarrow> Scalar \<Rightarrow> Scalar \<Rightarrow> Scalar \<Rightarrow> bool \<Rightarrow> pair_result" where
  "EvaluatorPairLJ0804 sigma_4 epsilon_x_4 rsq rcutsq energy_shift =
    (let lj1 = epsilon_x_4 * sigma_4 * sigma_4; lj2 = epsilon_x_4 * sigma_4 in
     if rsq < rcutsq \<and> lj1 \<noteq> 0 then
       let r2inv = 1 / rsq; r4inv = r2inv * r2inv;
           force_divr = r2inv * r4inv * (8 * lj1 * r4inv - 4 * lj2);
           pair_eng = r4inv * (lj1 * r4inv - lj2);
           rcut2inv = 1 / rcutsq; rcut4inv = rcut2inv * rcut2inv
       in Some (force_divr, if energy_shift then pair_eng - rcut4inv * (lj1 * rcut4inv - lj2) else pair_eng)
     else None)"

definition EvaluatorPairLJ1208 :: "Scalar \<Rightarrow> Scalar \<Rightarrow> Scalar \<Rightarrow> Scalar \<Rightarrow> bool \<Rightarrow> pair_result" where
  "EvaluatorPairLJ1208 sigma_4 epsilon_x_4 rsq rcutsq energy_shift =
    (let lj1 = epsilon_x_4 * sigma_4 * sigma_4 * sigma_4; lj2 = epsilon_x_4 * sigma_4 * sigma_4 in
     if rsq < rcutsq \<and> lj1 \<noteq> 0 then
       let r2inv = 1 / rsq; r4inv = r2inv * r2inv; r8inv = r4inv * r4inv;
           force_divr = r2inv * r8inv * (12 * lj1 * r4inv - 8 * lj2);
           pair_eng = r8inv * (lj1 * r4inv - lj2);
           rcut2inv = 1 / rcutsq; rcut4inv = rcut2inv * rcut2inv; rcut8inv = rcut4inv * rcut4inv
       in Some (force_divr, if energy_shift then pair_eng - rcut8inv * (lj1 * rcut4inv - lj2) else pair_eng)
     else None)"

definition EvaluatorPairForceShiftedLJ :: "Scalar \<Rightarrow> Scalar \<Rightarrow> Scalar \<Rightarrow> Scalar \<Rightarrow> bool \<Rightarrow> pair_result" where
  "EvaluatorPairForceShiftedLJ sigma_6 epsilon_x_4 rsq rcutsq energy_shift =
    (let lj1 = epsilon_x_4 * sigma_6 * sigma_6; lj2 = epsilon_x_4 * sigma_6 in
     if rsq < rcutsq \<and> lj1 \<noteq> 0 then
       let r2inv = 1 / rsq; r6inv = r2inv * r2inv * r2inv;
           force_divr = r2inv * r6inv * (12 * lj1 * r6inv - 6 * lj2);
           pair_eng = r6inv * (lj1 * r6inv - lj2);
           rcut2inv = 1 / rcutsq; rcut6inv = rcut2inv * rcut2inv * rcut2inv;
           pair_eng = (if energy_shift then pair_eng - rcut6inv * (lj1 * rcut6inv - lj2) else pair_eng);
           rcut_r_inv = rsqrt (rsq * rcutsq);
           force_rcut_at_rcut = rcut6inv * (12 * lj1 * rcut6inv - 6 * lj2)
       in Some (force_divr - rcut_r_inv * force_rcut_at_rcut,
                pair_eng + (rsq * rcut_r_inv - 1) * force_rcut_at_rcut)
     else None)"

definition EvaluatorPairExpandedLJ :: "Scalar \<Rightarrow> Scalar \<Rightarrow> Scalar \<Rightarrow> Scalar \<Rightarrow> Scalar \<Rightarrow> bool \<Rightarrow> pair_result" where
  "EvaluatorPairExpandedLJ sigma_6 epsilon_x_4 delta rsq rcutsq energy_shift =
    (let lj1 = epsilon_x_4 * sigma_6 * sigma_6; lj2 = epsilon_x_4 * sigma_6;
         rinv = rsqrt rsq; r = 1 / rinv; rcutinv = rsqrt rcutsq; rcut = 1 / rcutinv in
     if r < rcut \<and> lj1 \<noteq> 0 then
       let rmd = r - delta; rmdinv = 1 / rmd; rmd2inv = rmdinv * rmdinv;
           rmd6inv = rmd2inv * rmd2inv * rmd2inv;
           force_divr = rinv * rmdinv * rmd6inv * (12 * lj1 * rmd6inv - 6 * lj2);
           pair_eng = rmd6inv * (lj1 * rmd6inv - lj2);
           rcut2inv = rcutinv * rcutinv; rcut6inv = rcut2inv * rcut2inv * rcut2inv
       in Some (force_divr, if energy_shift then pair_eng - rcut6inv * (lj1 * rcut6inv - lj2) else pair_eng)
     else None)"

definition EvaluatorPairMie :: "Scalar \<Rightarrow> Scalar \<Rightarrow> Scalar \<Rightarrow> Scalar \<Rightarrow> Scalar \<Rightarrow> Scalar \<Rightarrow> bool \<Rightarrow> pair_result" where
  "EvaluatorPairMie mie1 mie2 mie3 mie4 rsq rcutsq energy_shift =
    (if rsq < rcutsq \<and> mie1 \<noteq> 0 then
       let r2inv = 1 / rsq; rninv = r2inv powr (mie3 / 2); rminv = r2inv powr (mie4 / 2);
           force_divr = r2inv * (mie3 * mie1 * rninv - mie4 * mie2 * rminv);
           pair_eng = mie1 * rninv - mie2 * rminv;
           rcutninv = rcutsq powr (- mie3 / 2); rcutminv = rcutsq powr (- mie4 / 2)
       in Some (force_divr, if energy_shift then pair_eng - (mie1 * rcutninv - mie2 * rcutminv) else pair_eng)
     else None)"

definition EvaluatorPairExpandedMie ::
  "Scalar \<Rightarrow> Scalar \<Rightarrow> Scalar \<Rightarrow> Scalar \<Rightarrow> Scalar \<Rightarrow> Scalar \<Rightarrow> Scalar \<Rightarrow> bool \<Rightarrow> pair_result" where
  "EvaluatorPairExpandedMie repulsive attractive n_pow m_pow delta rsq rcutsq energy_shift =
    (let r = sqrt rsq; rinv = rsqrt rsq in
     if rsq < rcutsq \<and> repulsive \<noteq> 0 then
       let rmd = r - delta; rmdinv = 1 / rmd; rmd2inv = rmdinv * rmdinv;
           rmdninv = rmd2inv powr (n_pow / 2); rmdminv = rmd2inv powr (m_pow / 2);
           force_divr = rinv * rmdinv * (n_pow * repulsive * rmdninv - m_pow * attractive * rmdminv);
           pair_eng = repulsive * rmdninv - attractive * rmdminv;
           rcutninv = rcutsq powr (- n_pow / 2); rcutminv = rcutsq powr (- m_pow / 2)
       in Some (force_divr, if energy_shift then pair_eng - (repulsive * rcutninv - attractive * rcutminv) else pair_eng)
     else None)"

definition EvaluatorPairLJGauss :: "Scalar \<Rightarrow> Scalar \<Rightarrow> Scalar \<Rightarrow> Scalar \<Rightarrow> Scalar \<Rightarrow> bool \<Rightarrow> pair_result" where
  "EvaluatorPairLJGauss epsilon sigma r0 rsq rcutsq energy_shift =
    (if rsq \<ge> rcutsq then None
     else
       let r = sqrt rsq; sigma2 = sigma * sigma; rdiff = r - r0; rdiff_sigma2 = rdiff / sigma2;
           exp_val = exp (- (1 / 2) * rdiff_sigma2 * rdiff); r2inv = 1 / rsq; r6inv = r2inv * r2inv * r2inv;
           force_divr = r2inv * r6inv * 12 * (r6inv - 1) - exp_val * epsilon * rdiff_sigma2 / r;
           pair_eng = r6inv * (r6inv - 2) - exp_val * epsilon;
           rcut2inv = 1 / rcutsq; rcut6inv = rcut2inv * rcut2inv * rcut2inv
       in Some (force_divr,
                if energy_shift
                then pair_eng - (rcut6inv * (rcut6inv - 2) - epsilon * exp (- 1 / 2 * (rcutsq - r0) / sigma2))
                else pair_eng))"

text \<open>The value that the source takes for an infinite energy and force, \<open>INFINITY\<close>, is an argument.\<close>

definition EvaluatorPairTWF :: "Scalar \<Rightarrow> Scalar \<Rightarrow> Scalar \<Rightarrow> Scalar \<Rightarrow> Scalar \<Rightarrow> Scalar \<Rightarrow> bool \<Rightarrow> pair_result" where
  "EvaluatorPairTWF infinity sigma alpha prefactor rsq rcutsq energy_shift =
    (if rsq < rcutsq then
       let sigma2 = sigma * sigma in
       if rsq \<le> sigma2 then Some (infinity, infinity)
       else
         let common_term = 1 / (rsq / sigma2 - 1);
             common_term3 = common_term * common_term * common_term; common_term6 = common_term3 * common_term3;
             pair_eng = prefactor * (common_term6 - alpha * common_term3);
             force_term = 6 * common_term / sigma2;
             force_divr = prefactor * force_term * (2 * common_term6 - alpha * common_term3);
             common_term_shift = 1 / (sigma2 / rcutsq - 1);
             common_term3_shift = common_term_shift * common_term_shift * common_term_shift;
             common_term6_shift = common_term3_shift * common_term3_shift
         in Some (force_divr,
                  if energy_shift then pair_eng - prefactor * (common_term6_shift - alpha * common_term3_shift)
                  else pair_eng)
     else None)"

subsection \<open>Exponential, oscillating and charge potentials\<close>

definition EvaluatorPairGauss :: "Scalar \<Rightarrow> Scalar \<Rightarrow> Scalar \<Rightarrow> Scalar \<Rightarrow> bool \<Rightarrow> pair_result" where
  "EvaluatorPairGauss epsilon sigma rsq rcutsq energy_shift =
    (if rsq < rcutsq then
       let sigma_sq = sigma * sigma; r_over_sigma_sq = rsq / sigma_sq;
           exp_val = exp (- 1 / 2 * r_over_sigma_sq);
           force_divr = epsilon / sigma_sq * exp_val; pair_eng = epsilon * exp_val
       in Some (force_divr,
                if energy_shift then pair_eng - epsilon * exp (- 1 / 2 * rcutsq / sigma_sq) else pair_eng)
     else None)"

definition EvaluatorPairYukawa :: "Scalar \<Rightarrow> Scalar \<Rightarrow> Scalar \<Rightarrow> Scalar \<Rightarrow> bool \<Rightarrow> pair_result" where
  "EvaluatorPairYukawa epsilon kappa rsq rcutsq energy_shift =
    (if rsq < rcutsq \<and> epsilon \<noteq> 0 then
       let rinv = rsqrt rsq; r = 1 / rinv; r2inv = 1 / rsq; exp_val = exp (- kappa * r);
           force_divr = epsilon * exp_val * r2inv * (rinv + kappa);
           pair_eng = epsilon * exp_val * rinv;
           rcutinv = rsqrt rcutsq; rcut = 1 / rcutinv
       in Some (force_divr, if energy_shift then pair_eng - epsilon * exp (- kappa * rcut) * rcutinv else pair_eng)
     else None)"

definition EvaluatorPairMorse :: "Scalar \<Rightarrow> Scalar \<Rightarrow> Scalar \<Rightarrow> Scalar \<Rightarrow> Scalar \<Rightarrow> bool \<Rightarrow> pair_result" where
  "EvaluatorPairMorse D0 alpha r0 rsq rcutsq energy_shift =
    (if rsq < rcutsq then
       let r = sqrt rsq; Exp_factor = exp (- alpha * (r - r0));
           pair_eng = D0 * Exp_factor * (Exp_factor - 2);
           force_divr = 2 * D0 * alpha * Exp_factor * (Exp_factor - 1) / r;
           rcut = sqrt rcutsq; Exp_factor_cut = exp (- alpha * (rcut - r0))
       in Some (force_divr, if energy_shift then pair_eng - D0 * Exp_factor_cut * (Exp_factor_cut - 2) else pair_eng)
     else None)"

definition EvaluatorPairMoliere :: "Scalar \<Rightarrow> Scalar \<Rightarrow> Scalar \<Rightarrow> Scalar \<Rightarrow> bool \<Rightarrow> pair_result" where
  "EvaluatorPairMoliere Zsq aF rsq rcutsq energy_shift =
    (if rsq < rcutsq \<and> Zsq \<noteq> 0 \<and> aF \<noteq> 0 then
       let r2inv = 1 / rsq; rinv = rsqrt rsq;
           exp1 = 35 / 100 * exp (- (3 / 10) / aF / rinv); exp2 = 55 / 100 * exp (- (12 / 10) / aF / rinv);
           exp3 = 1 / 10 * exp (- 6 / aF / rinv);
           force_divr = rinv * (exp1 + exp2 + exp3);
           force_divr = force_divr + 1 / aF * (3 / 10 * exp1 + 12 / 10 * exp2 + 6 * exp3);
           force_divr = force_divr * (Zsq * r2inv);
           pair_eng = Zsq * rinv * (exp1 + exp2 + exp3);
           rcutinv = rsqrt rcutsq;
           expcut1 = 35 / 100 * exp (- (3 / 10) / aF / rcutinv); expcut2 = 55 / 100 * exp (- (12 / 10) / aF / rcutinv);
           expcut3 = 1 / 10 * exp (- 6 / aF / rcutinv)
       in Some (force_divr, if energy_shift then pair_eng - Zsq * rcutinv * (expcut1 + expcut2 + expcut3) else pair_eng)
     else None)"

definition EvaluatorPairZBL :: "Scalar \<Rightarrow> Scalar \<Rightarrow> Scalar \<Rightarrow> Scalar \<Rightarrow> bool \<Rightarrow> pair_result" where
  "EvaluatorPairZBL Zsq aF rsq rcutsq energy_shift =
    (if rsq < rcutsq \<and> Zsq \<noteq> 0 \<and> aF \<noteq> 0 then
       let r2inv = 1 / rsq; rinv = rsqrt rsq;
           exp1 = 1818 / 10000 * exp (- (32 / 10) / aF / rinv); exp2 = 5099 / 10000 * exp (- (9423 / 10000) / aF / rinv);
           exp3 = 2802 / 10000 * exp (- (4029 / 10000) / aF / rinv); exp4 = 2817 / 100000 * exp (- (2016 / 10000) / aF / rinv);
           force_divr = rinv * (exp1 + exp2 + exp3 + exp4);
           force_divr = force_divr + 1 / aF * (32 / 10 * exp1 + 9423 / 10000 * exp2 + 4029 / 10000 * exp3 + 2016 / 10000 * exp4);
           force_divr = force_divr * (Zsq * r2inv);
           pair_eng = Zsq * rinv * (exp1 + exp2 + exp3 + exp4)
       in Some (force_divr, pair_eng)
     else None)"

definition EvaluatorPairBuckingham :: "Scalar \<Rightarrow> Scalar \<Rightarrow> Scalar \<Rightarrow> Scalar \<Rightarrow> Scalar \<Rightarrow> bool \<Rightarrow> pair_result" where
  "EvaluatorPairBuckingham A rho C rsq rcutsq energy_shift =
    (if rsq < rcutsq \<and> rho > 0 then
       let r = sqrt rsq; Exp_factor = A * exp (- r / rho); r2inv = 1 / rsq; r6inv = r2inv * r2inv * r2inv;
           force_divr = Exp_factor / (rho * r) - r2inv * r6inv * 6 * C;
           pair_eng = Exp_factor - r6inv * C;
           rcut = sqrt rcutsq; Exp_factor_cut = A * exp (- rcut / rho);
           rcut2inv = 1 / rcutsq; rcut6inv = rcut2inv * rcut2inv * rcut2inv
       in Some (force_divr, if energy_shift then pair_eng - (Exp_factor_cut - rcut6inv * C) else pair_eng)
     else None)"

definition EvaluatorPairOPP ::
  "Scalar \<Rightarrow> Scalar \<Rightarrow> Scalar \<Rightarrow> Scalar \<Rightarrow> Scalar \<Rightarrow> Scalar \<Rightarrow> Scalar \<Rightarrow> Scalar \<Rightarrow> bool \<Rightarrow> pair_result" where
  "EvaluatorPairOPP C1 C2 eta1 eta2 k phi rsq rcutsq energy_shift =
    (if rsq < rcutsq then
       let r = sqrt rsq; eval_sin = sin (k * r - phi); eval_cos = cos (k * r - phi);
           r_eta1_arg = C1 * r powr (- eta1); r_to_eta2 = r powr (- eta2);
           r_eta2_arg = C2 * r_to_eta2 * eval_cos;
           pair_eng = r_eta1_arg + r_eta2_arg;
           force_divr = ((r_eta1_arg * eta1 + r_eta2_arg * eta2) / r + C2 * k * r_to_eta2 * eval_sin) / r;
           r_cut = sqrt rcutsq; r_cut_eta1_arg = C1 * r_cut powr (- eta1);
           r_cut_eta2_arg = C2 * r_cut powr (- eta2) * cos (k * r_cut - phi)
       in Some (force_divr, if energy_shift then pair_eng - (r_cut_eta1_arg + r_cut_eta2_arg) else pair_eng)
     else None)"

definition EvaluatorPairReactionField :: "Scalar \<Rightarrow> Scalar \<Rightarrow> Scalar \<Rightarrow> Scalar \<Rightarrow> Scalar \<Rightarrow> bool \<Rightarrow> pair_result" where
  "EvaluatorPairReactionField epsilon epsrf qiqj rsq rcutsq energy_shift =
    (if rsq < rcutsq \<and> epsilon \<noteq> 0 \<and> qiqj \<noteq> 0 then
       let rcut3inv = rsqrt rcutsq / rcutsq; rinv = rsqrt rsq; r = 1 / rinv; r2inv = 1 / rsq;
           eps_fac = (epsrf - 1) / (2 * epsrf + 1) * rcut3inv;
           eps_fac = (if epsrf = 0 then 1 / 2 * rcut3inv else eps_fac);
           force_divr = qiqj * epsilon * (r2inv * rinv - 2 * eps_fac);
           pair_eng = qiqj * epsilon * (rinv + eps_fac * r * r);
           rcutinv = rsqrt rcutsq; rcut = 1 / rcutinv
       in Some (force_divr, if energy_shift then pair_eng - qiqj * epsilon * (rcutinv + eps_fac * rcut * rcut) else pair_eng)
     else None)"

definition EvaluatorPairDLVO :: "Scalar \<Rightarrow> Scalar \<Rightarrow> Scalar \<Rightarrow> Scalar \<Rightarrow> Scalar \<Rightarrow> Scalar \<Rightarrow> Scalar \<Rightarrow> bool \<Rightarrow> pair_result" where
  "EvaluatorPairDLVO kappa Z A a1 a2 rsq rcutsq energy_shift =
    (let radsum = a1 + a2; radsub = a1 - a2; radprod = a1 * a2; radsumsq = a1 * a1 + a2 * a2; radsubsq = a1 * a1 - a2 * a2;
         rinv = rsqrt rsq; r = 1 / rinv; rcutinv = rsqrt rcutsq; rcut = 1 / rcutinv in
     if r < rcut \<and> kappa \<noteq> 0 then
       let rmds = r - radsum; rmdsqs = r * r - radsum * radsum; rmdsqm = r * r - radsub * radsub;
           radsuminv = 1 / radsum; rmdsqsinv = 1 / rmdsqs; rmdsqminv = 1 / rmdsqm;
           exp_val = exp (- kappa * rmds);
           forcerep_divr = kappa * radprod * radsuminv * Z * exp_val / r;
           fatrterm1 = r * r * r * r + radsubsq * radsubsq - 2 * r * r * radsumsq;
           fatrterm1inv = 1 / fatrterm1 * 1 / fatrterm1;
           forceatr_divr = - 32 * A / 3 * radprod * radprod * radprod * fatrterm1inv;
           force_divr = forcerep_divr + forceatr_divr;
           engt1 = radprod * rmdsqsinv * A / 3; engt2 = radprod * rmdsqminv * A / 3;
           engt3 = ln (rmdsqs * rmdsqminv) * A / 6;
           pair_eng = r * forcerep_divr / kappa - engt1 - engt2 - engt3;
           rmdscut = rcut - radsum; rmdsqscut = rcut * rcut - radsum * radsum; rmdsqmcut = rcut * rcut - radsub * radsub;
           rmdsqsinvcut = 1 / rmdsqscut; rmdsqminvcut = 1 / rmdsqmcut;
           engt1cut = radprod * rmdsqsinvcut * A / 3; engt2cut = radprod * rmdsqminvcut * A / 3;
           engt3cut = ln (rmdsqscut * rmdsqminvcut) * A / 6;
           exp_valcut = exp (- kappa * rmdscut);
           forcerepcut_divr = kappa * radprod * radsuminv * Z * exp_valcut / rcut
       in Some (force_divr,
                if energy_shift then pair_eng - (rcut * forcerepcut_divr / kappa - engt1cut - engt2cut - engt3cut)
                else pair_eng)
     else None)"

subsection \<open>Table, Ewald and Fourier\<close>

definition table_delta_r :: "Scalar \<Rightarrow> nat \<Rightarrow> Scalar \<Rightarrow> Scalar" where
  "table_delta_r rmin width rcutsq = (sqrt rcutsq - rmin) / real width"

definition table_index :: "Scalar \<Rightarrow> nat \<Rightarrow> Scalar \<Rightarrow> Scalar \<Rightarrow> nat" where
  "table_index rmin width rsq rcutsq = nat \<lfloor>(sqrt rsq - rmin) / table_delta_r rmin width rcutsq\<rfloor>"

definition EvaluatorPairTable_params :: "Scalar \<Rightarrow> Scalar list \<Rightarrow> Scalar list \<Rightarrow> (Scalar \<times> Scalar list \<times> Scalar list) result" where
  "EvaluatorPairTable_params r_min U F =
    (if length U \<noteq> length F then Inl (RuntimeError ''The length of V and F arrays must be equal.'')
     else if length U = 0 then Inl (RuntimeError ''The length of V and F must not be zero.'')
     else Inr (r_min, U, F))"

definition EvaluatorPairTable ::
  "Scalar \<Rightarrow> Scalar list \<Rightarrow> Scalar list \<Rightarrow> Scalar \<Rightarrow> Scalar \<Rightarrow> Scalar \<Rightarrow> bool \<Rightarrow> pair_result" where
  "EvaluatorPairTable rmin V_table F_table force_divr rsq rcutsq energy_shift =
    (let width = length V_table; r = sqrt rsq in
     if rsq \<ge> rcutsq \<or> r < rmin then None
     else
       let delta_r = table_delta_r rmin width rcutsq; value_f = (r - rmin) / delta_r;
           value_i = table_index rmin width rsq rcutsq;
           V0 = V_table ! value_i; F0 = F_table ! value_i;
           V1 = (if value_i + 1 < width then V_table ! (value_i + 1) else 0);
           F1 = (if value_i + 1 < width then F_table ! (value_i + 1) else 0);
           f = value_f - real value_i;
           V = V0 + f * (V1 - V0); F = F0 + f * (F1 - F0)
       in Some (if rsq > 0 then F / r else force_divr, V))"

text \<open>The complementary error function is not a part of the source and is an argument of the evaluator.\<close>

definition EvaluatorPairEwald ::
  "(Scalar \<Rightarrow> Scalar) \<Rightarrow> Scalar \<Rightarrow> Scalar \<Rightarrow> Scalar \<Rightarrow> Scalar \<Rightarrow> Scalar \<Rightarrow> bool \<Rightarrow> pair_result" where
  "EvaluatorPairEwald erfc kappa alpha qiqj rsq rcutsq energy_shift =
    (if rsq < rcutsq \<and> qiqj \<noteq> 0 then
       let rinv = rsqrt rsq; r = 1 / rinv; r2inv = 1 / rsq;
           arg1 = kappa * r + alpha / (2 * kappa); arg2 = kappa * r - alpha / (2 * kappa);
           expfac1 = exp (alpha * r); expfac2 = exp (- alpha * r);
           val = 1 / 2 * (erfc arg1 * expfac1 + erfc arg2 * expfac2) * rinv;
           force_divr = qiqj * r2inv
                          * (val + expfac2 * 2 * kappa * exp (- arg2 * arg2) / sqrt pi
                             + alpha * (1 / 2) * expfac2 * erfc arg2
                             - alpha * (1 / 2) * expfac1 * erfc arg1)
       in Some (force_divr, qiqj * val)
     else None)"

definition fourier_first :: "Scalar list \<Rightarrow> Scalar list \<Rightarrow> Scalar \<times> Scalar" where
  "fourier_first a b =
    fold (\<lambda>i (a1, b1).
            let pow_neg1_i = (if odd i then - 1 else 1)
            in (a1 + pow_neg1_i * a ! (i - 2), b1 + real i * pow_neg1_i * b ! (i - 2)))
         [2..<5] (0, 0)"

definition EvaluatorPairFourier :: "Scalar list \<Rightarrow> Scalar list \<Rightarrow> Scalar \<Rightarrow> Scalar \<Rightarrow> bool \<Rightarrow> pair_result" where
  "EvaluatorPairFourier a b rsq rcutsq energy_shift =
    (if rsq < rcutsq then
       let half_period = sqrt rcutsq; period_scale = pi / half_period; r = sqrt rsq; x = r * period_scale;
           r1inv = 1 / r; r2inv = 1 / rsq; r3inv = r1inv * r2inv; r12inv = r3inv * r3inv * r3inv * r3inv;
           (a1, b1) = fourier_first a b;
           (fourier_part, force_divr) =
             fold (\<lambda>i (part, fd).
                     let theta = real i * x; s = sin theta; c = cos theta
                     in (part + (a ! (i - 2) * c + b ! (i - 2) * s),
                         fd + (a ! (i - 2) * real i * s - b ! (i - 2) * real i * c)))
                  [2..<5] (a1 * cos x + b1 * sin x, a1 * sin x - b1 * cos x)
       in Some (r1inv * (r1inv * r12inv * 12 + r2inv * period_scale * force_divr + 2 * r3inv * fourier_part),
                r12inv + r2inv * fourier_part)
     else None)"

subsection \<open>Dissipative particle dynamics\<close>

definition EvaluatorPairDPDThermoDPD :: "Scalar \<Rightarrow> Scalar \<Rightarrow> Scalar \<Rightarrow> bool \<Rightarrow> pair_result" where
  "EvaluatorPairDPDThermoDPD a rsq rcutsq energy_shift =
    (if rsq < rcutsq then
       let rinv = rsqrt rsq; r = 1 / rinv; rcutinv = rsqrt rcutsq; rcut = 1 / rcutinv
       in Some (a * (rinv - rcutinv), a * (rcut - r) - 1 / 2 * a * rcutinv * (rcutsq - rsq))
     else None)"

text \<open>
  With the thermostat the evaluator gives the total force, its conservative part and the energy. The random
  number that the generator draws for the counter of the two tags is the argument \<open>uniform\<close>.
\<close>

definition ordered_tags :: "nat \<Rightarrow> nat \<Rightarrow> nat \<times> nat" where
  "ordered_tags i j = (if i > j then (j, i) else (i, j))"

definition thermostat_force ::
  "(nat \<times> nat \<Rightarrow> Scalar) \<Rightarrow> nat \<Rightarrow> nat \<Rightarrow> Scalar \<Rightarrow> Scalar \<Rightarrow> Scalar \<Rightarrow> Scalar \<Rightarrow> Scalar \<Rightarrow> Scalar \<Rightarrow> Scalar" where
  "thermostat_force uniform i j gamma dot T deltaT rinv rcutinv =
    (let alpha = uniform (ordered_tags i j)
     in - (gamma * dot * (rinv - rcutinv) * (rinv - rcutinv))
        + rsqrt (deltaT / (T * gamma * 6)) * (rinv - rcutinv) * alpha)"

definition EvaluatorPairDPDThermoDPD_thermo ::
  "(nat \<times> nat \<Rightarrow> Scalar) \<Rightarrow> nat \<Rightarrow> nat \<Rightarrow> Scalar \<Rightarrow> Scalar \<Rightarrow> Scalar \<Rightarrow> Scalar \<Rightarrow> Scalar \<Rightarrow> Scalar \<Rightarrow> Scalar \<Rightarrow> bool
    \<Rightarrow> (Scalar \<times> Scalar \<times> Scalar) option" where
  "EvaluatorPairDPDThermoDPD_thermo uniform i j a gamma dot T deltaT rsq rcutsq energy_shift =
    (if rsq < rcutsq then
       let rinv = rsqrt rsq; r = 1 / rinv; rcutinv = rsqrt rcutsq; rcut = 1 / rcutinv;
           force_divr_cons = a * (rinv - rcutinv);
           force_divr = force_divr_cons + thermostat_force uniform i j gamma dot T deltaT rinv rcutinv
       in Some (force_divr, force_divr_cons, a * (rcut - r) - 1 / 2 * a * rcutinv * (rcutsq - rsq))
     else None)"

definition EvaluatorPairDPDThermoLJ :: "Scalar \<Rightarrow> Scalar \<Rightarrow> Scalar \<Rightarrow> Scalar \<Rightarrow> bool \<Rightarrow> pair_result" where
  "EvaluatorPairDPDThermoLJ sigma_6 epsilon_x_4 rsq rcutsq energy_shift =
    (let lj1 = epsilon_x_4 * sigma_6 * sigma_6; lj2 = epsilon_x_4 * sigma_6 in
     if rsq < rcutsq \<and> lj1 \<noteq> 0 then
       let r2inv = 1 / rsq; r6inv = r2inv * r2inv * r2inv;
           force_divr = r2inv * r6inv * (12 * lj1 * r6inv - 6 * lj2);
           pair_eng = r6inv * (lj1 * r6inv - lj2);
           rcut2inv = 1 / rcutsq; rcut6inv = rcut2inv * rcut2inv * rcut2inv
       in Some (force_divr, if energy_shift then pair_eng - rcut6inv * (lj1 * rcut6inv - lj2) else pair_eng)
     else None)"

definition EvaluatorPairDPDThermoLJ_thermo ::
  "(nat \<times> nat \<Rightarrow> Scalar) \<Rightarrow> nat \<Rightarrow> nat \<Rightarrow> Scalar \<Rightarrow> Scalar \<Rightarrow> Scalar \<Rightarrow> Scalar \<Rightarrow> Scalar \<Rightarrow> Scalar \<Rightarrow> Scalar \<Rightarrow> Scalar \<Rightarrow> bool
    \<Rightarrow> (Scalar \<times> Scalar \<times> Scalar) option" where
  "EvaluatorPairDPDThermoLJ_thermo uniform i j sigma_6 epsilon_x_4 gamma dot T deltaT rsq rcutsq energy_shift =
    (let lj1 = epsilon_x_4 * sigma_6 * sigma_6; lj2 = epsilon_x_4 * sigma_6 in
     if rsq < rcutsq \<and> lj1 \<noteq> 0 then
       let rinv = rsqrt rsq; r2inv = 1 / rsq; r6inv = r2inv * r2inv * r2inv; rcutinv = rsqrt rcutsq;
           force_divr_cons = r2inv * r6inv * (12 * lj1 * r6inv - 6 * lj2);
           force_divr = force_divr_cons + thermostat_force uniform i j gamma dot T deltaT rinv rcutinv;
           pair_eng = r6inv * (lj1 * r6inv - lj2);
           rcut2inv = 1 / rcutsq; rcut6inv = rcut2inv * rcut2inv * rcut2inv
       in Some (force_divr, force_divr_cons,
                if energy_shift then pair_eng - rcut6inv * (lj1 * rcut6inv - lj2) else pair_eng)
     else None)"

subsection \<open>Parameters\<close>

definition LJ_params :: "Scalar \<Rightarrow> Scalar \<Rightarrow> Scalar \<times> Scalar" where
  "LJ_params sigma epsilon = (sigma * sigma * sigma * sigma * sigma * sigma, 4 * epsilon)"

definition Mie_params :: "Scalar \<Rightarrow> Scalar \<Rightarrow> Scalar \<Rightarrow> Scalar \<Rightarrow> Scalar \<times> Scalar \<times> Scalar \<times> Scalar" where
  "Mie_params n m epsilon sigma =
    (let outFront = n / (n - m) * (n / m) powr (m / (n - m))
     in (outFront * epsilon * sigma powr n, outFront * epsilon * sigma powr m, n, m))"

definition TWF_params :: "Scalar \<Rightarrow> Scalar \<Rightarrow> Scalar \<Rightarrow> Scalar \<times> Scalar \<times> Scalar" where
  "TWF_params sigma epsilon alpha = (sigma, alpha, 4 * epsilon / (alpha * alpha))"

definition LJ_evalPressureLRCIntegral :: "Scalar \<Rightarrow> Scalar \<Rightarrow> Scalar \<Rightarrow> Scalar" where
  "LJ_evalPressureLRCIntegral sigma_6 epsilon_x_4 rcutsq =
    (let lj1 = epsilon_x_4 * sigma_6 * sigma_6; lj2 = epsilon_x_4 * sigma_6 in
     if rcutsq = 0 then 0
     else
       let rcut3inv = 1 / rcutsq powr (3 / 2); rcut9inv = rcut3inv * rcut3inv * rcut3inv
       in lj1 * 4 / 3 * rcut9inv - lj2 * 2 * rcut3inv)"

definition LJ_evalEnergyLRCIntegral :: "Scalar \<Rightarrow> Scalar \<Rightarrow> Scalar \<Rightarrow> Scalar" where
  "LJ_evalEnergyLRCIntegral sigma_6 epsilon_x_4 rcutsq =
    (let lj1 = epsilon_x_4 * sigma_6 * sigma_6; lj2 = epsilon_x_4 * sigma_6 in
     if rcutsq = 0 then 0
     else
       let rcut3inv = 1 / rcutsq powr (3 / 2); rcut9inv = rcut3inv * rcut3inv * rcut3inv
       in lj1 / 9 * rcut9inv - lj2 / 3 * rcut3inv)"

subsection \<open>Bonds and special pairs\<close>

text \<open>
  A bond evaluator has no cutoff argument. Where the method leaves its output parameters alone, it
  returns what the caller put there, \<open>force_divr\<close> and \<open>bond_eng\<close>. In exact arithmetic \<open>K * (r_0 / r - 1)\<close> is
  not finite only for \<open>r = 0\<close>.
\<close>

definition EvaluatorBondHarmonic :: "Scalar \<Rightarrow> Scalar \<Rightarrow> Scalar \<Rightarrow> pair_result" where
  "EvaluatorBondHarmonic K r_0 rsq =
    (let r = sqrt rsq; force_divr = (if r = 0 then 0 else K * (r_0 / r - 1))
     in Some (force_divr, 1 / 2 * K * (r_0 - r) * (r_0 - r)))"

definition EvaluatorBondFENE :: "Scalar \<Rightarrow> Scalar \<Rightarrow> Scalar \<Rightarrow> Scalar \<Rightarrow> Scalar \<Rightarrow> Scalar \<Rightarrow> pair_result" where
  "EvaluatorBondFENE K r_0 sigma_6 epsilon_x_4 delta rsq0 =
    (let lj1 = epsilon_x_4 * sigma_6 * sigma_6; lj2 = epsilon_x_4 * sigma_6;
         rtemp = sqrt rsq0 - delta; rmdoverr = rtemp / sqrt rsq0; rsq = rtemp * rtemp;
         r2inv = 1 / rsq; r6inv = r2inv * r2inv * r2inv;
         sigma6inv = lj2 / lj1; epsilon = lj2 * lj2 / 4 / lj1;
         (WCAforcemag_divr, pair_eng) =
           (if lj1 \<noteq> 0 \<and> r6inv > sigma6inv / 2
            then (r2inv * r6inv * (12 * lj1 * r6inv - 6 * lj2), r6inv * (lj1 * r6inv - lj2) + epsilon)
            else (0, 0));
         force_divr = WCAforcemag_divr * rmdoverr; bond_eng = pair_eng
     in if K \<noteq> 0 then
          if rsq \<ge> r_0 * r_0 then None
          else Some (force_divr + - K / (1 - rsq / (r_0 * r_0)) * rmdoverr,
                     bond_eng + - (1 / 2) * K * (r_0 * r_0) * ln (1 - rsq / (r_0 * r_0)))
        else Some (force_divr, bond_eng))"

definition tether_params :: "Scalar \<Rightarrow> Scalar \<Rightarrow> Scalar \<Rightarrow> Scalar \<Rightarrow> Scalar \<Rightarrow> (Scalar \<times> Scalar \<times> Scalar \<times> Scalar \<times> Scalar) result" where
  "tether_params k_b l_min l_c1 l_c0 l_max =
    (if \<not> (l_min < l_c1 \<and> l_min < l_c0 \<and> l_min < l_max \<and> l_c1 < l_c0 \<and> l_c1 < l_max \<and> l_c0 < l_max)
     then Inl (InvalidArgument ''The input parameters should follow l_min < l_c1 < l_c0 < l_max'')
     else Inr (k_b, l_min, l_c1, l_c0, l_max))"

definition EvaluatorBondTether ::
  "Scalar \<Rightarrow> Scalar \<Rightarrow> Scalar \<Rightarrow> Scalar \<Rightarrow> Scalar \<Rightarrow> Scalar \<Rightarrow> Scalar \<Rightarrow> Scalar \<Rightarrow> pair_result" where
  "EvaluatorBondTether k_b l_min l_c1 l_c0 l_max force_divr bond_eng rsq =
    (let r = sqrt rsq;
         (U_att, F_att) =
           (if r > l_c0
            then (k_b * (exp (1 / (l_c0 - r)) / (l_max - r)),
                  k_b * (((r - l_max) * exp (1 / (l_c0 - r)) / (l_c0 - r) / (l_c0 - r) - exp (1 / (l_c0 - r)))
                         / (l_max - r) / (l_max - r)))
            else (0, 0));
         (U_rep, F_rep) =
           (if r < l_c1
            then (k_b * (exp (1 / (r - l_c1)) / (r - l_min)),
                  k_b * (((r - l_min) * exp (1 / (r - l_c1)) / (r - l_c1) / (r - l_c1) + exp (1 / (r - l_c1)))
                         / (r - l_min) / (r - l_min)))
            else (0, 0))
     in if k_b \<noteq> 0 then
          if rsq \<ge> l_max * l_max then None
          else if rsq \<le> l_min * l_min then None
          else Some ((F_att + F_rep) / r, U_att + U_rep)
        else Some (force_divr, bond_eng))"

definition EvaluatorSpecialPairLJ :: "Scalar \<Rightarrow> Scalar \<Rightarrow> Scalar \<Rightarrow> Scalar \<Rightarrow> Scalar \<Rightarrow> Scalar \<Rightarrow> pair_result" where
  "EvaluatorSpecialPairLJ sigma_6 epsilon_x_4 rcutsq force_divr bond_eng rsq =
    (let lj1 = epsilon_x_4 * sigma_6 * sigma_6; lj2 = epsilon_x_4 * sigma_6 in
     if rsq < rcutsq \<and> lj1 \<noteq> 0 then
       let r2inv = 1 / rsq; r6inv = r2inv * r2inv * r2inv
       in Some (r2inv * r6inv * (12 * lj1 * r6inv - 6 * lj2), r6inv * (lj1 * r6inv - lj2))
     else Some (force_divr, bond_eng))"

definition EvaluatorSpecialPairCoulomb :: "Scalar \<Rightarrow> Scalar \<Rightarrow> Scalar \<Rightarrow> Scalar \<Rightarrow> Scalar \<Rightarrow> Scalar \<Rightarrow> pair_result" where
  "EvaluatorSpecialPairCoulomb scale qiqj rcutsq force_divr bond_eng rsq =
    (if rsq < rcutsq \<and> qiqj \<noteq> 0 then
       let r1inv = 1 / sqrt rsq; r2inv = 1 / rsq; r3inv = r2inv * r1inv; scaledQ = qiqj * scale
       in Some (scaledQ * r3inv, scaledQ * r1inv)
     else Some (force_divr, bond_eng))"

subsection \<open>The contract of an evaluator\<close>

text \<open>
  \<open>radial_potential\<close> is the contract of one evaluation: where it is defined, the evaluator gives the energy
  \<open>V r\<close> and, divided by r, the negative derivative of \<open>V\<close>. A pair evaluator has, with the cutoff, a family of
  such potentials and evaluates nothing at or beyond the cutoff.
\<close>

locale radial_potential =
  fixes ev :: "Scalar \<Rightarrow> pair_result" and V :: "Scalar \<Rightarrow> Scalar" and ok :: "Scalar \<Rightarrow> bool"
  assumes positive: "ok r \<Longrightarrow> 0 < r"
    and evaluated: "ok r \<Longrightarrow> \<exists>f. ev (r * r) = Some (f, V r) \<and> (V has_real_derivative - (r * f)) (at r)"
begin

lemma force_unique:
  assumes "ok r" and "ev (r * r) = Some (f, e)" and "(V has_real_derivative D) (at r)"
  shows "f = - (D / r)"
proof -
  have "(V has_real_derivative - (r * f)) (at r)" using evaluated [OF assms(1)] assms(2) by simp
  then have "- (r * f) = D" using assms(3) by (rule DERIV_unique)
  then show ?thesis using positive [OF assms(1)] by (simp add: field_simps)
qed

end

locale central_potential =
  fixes ev :: "Scalar \<Rightarrow> Scalar \<Rightarrow> bool \<Rightarrow> pair_result" and V :: "Scalar \<Rightarrow> Scalar \<Rightarrow> Scalar" and ok :: "Scalar \<Rightarrow> Scalar \<Rightarrow> bool"
  assumes inside: "ok rc r \<Longrightarrow> 0 < r \<and> r < rc"
    and evaluated: "ok rc r \<Longrightarrow> \<exists>f. ev (r * r) (rc * rc) False = Some (f, V rc r) \<and> (V rc has_real_derivative - (r * f)) (at r)"
    and cut: "0 < rcutsq \<Longrightarrow> rcutsq \<le> rsq \<Longrightarrow> ev rsq rcutsq s = None"

sublocale central_potential \<subseteq> plain: radial_potential "\<lambda>rsq. ev rsq (rc * rc) False" "V rc" "ok rc" for rc
  using inside evaluated by unfold_locales auto

locale shifted_potential = central_potential +
  assumes shifted: "ok rc r \<Longrightarrow> ev (r * r) (rc * rc) False = Some (f, e) \<Longrightarrow> ev (r * r) (rc * rc) True = Some (f, e - V rc rc)"
begin

lemma shifted_evaluated:
  "ok rc r \<Longrightarrow> \<exists>f. ev (r * r) (rc * rc) True = Some (f, V rc r - V rc rc) \<and> ((\<lambda>x. V rc x - V rc rc) has_real_derivative - (r * f)) (at r)"
  using evaluated [of rc r] shifted [of rc r] by (auto intro!: derivative_eq_intros)

lemma vanishes_at_cutoff: "isCont (V rc) rc \<Longrightarrow> ((\<lambda>r. V rc r - V rc rc) \<longlongrightarrow> 0) (at rc)"
  using tendsto_diff [of "V rc" "V rc rc" "at rc" "\<lambda>_. V rc rc" "V rc rc"] by (simp add: isCont_def)

end

sublocale shifted_potential \<subseteq> moved: radial_potential "\<lambda>rsq. ev rsq (rc * rc) True" "\<lambda>r. V rc r - V rc rc" "ok rc" for rc
  using inside shifted_evaluated by unfold_locales auto


text \<open>What there is to show of an evaluator, with the derivative \<open>D\<close> of its potential.\<close>

lemma central_potentialI:
  assumes "\<And>rc r. ok rc r \<Longrightarrow> 0 < r \<and> r < rc"
    and "\<And>rc r. ok rc r \<Longrightarrow> ev (r * r) (rc * rc) False = Some (- D rc r / r, V rc r)"
    and "\<And>rc r. ok rc r \<Longrightarrow> (V rc has_real_derivative D rc r) (at r)"
    and "\<And>rsq rcutsq s. 0 < rcutsq \<Longrightarrow> rcutsq \<le> rsq \<Longrightarrow> ev rsq rcutsq s = None"
  shows "central_potential ev V ok"
proof unfold_locales
  fix rc r assume h: "ok rc r"
  have "- (r * (- D rc r / r)) = D rc r" using assms(1) [OF h] by simp
  with assms(2,3) [OF h]
  show "\<exists>f. ev (r * r) (rc * rc) False = Some (f, V rc r) \<and> (V rc has_real_derivative - (r * f)) (at r)" by auto
qed (use assms(1,4) in auto)

lemma shifted_potentialI:
  assumes "\<And>rc r. ok rc r \<Longrightarrow> 0 < r \<and> r < rc"
    and "\<And>rc r s. ok rc r \<Longrightarrow> ev (r * r) (rc * rc) s = Some (- D rc r / r, V rc r - (if s then V rc rc else 0))"
    and "\<And>rc r. ok rc r \<Longrightarrow> (V rc has_real_derivative D rc r) (at r)"
    and "\<And>rsq rcutsq s. 0 < rcutsq \<Longrightarrow> rcutsq \<le> rsq \<Longrightarrow> ev rsq rcutsq s = None"
  shows "shifted_potential ev V ok"
proof -
  have "central_potential ev V ok" using assms by (intro central_potentialI [where D = D]) auto
  then show ?thesis
  proof (rule shifted_potential.intro, unfold_locales)
    fix rc r f e assume h: "ok rc r" and e: "ev (r * r) (rc * rc) False = Some (f, e)"
    show "ev (r * r) (rc * rc) True = Some (f, e - V rc rc)"
      using assms(2) [OF h, of False] assms(2) [OF h, of True] e by simp
  qed
qed

end
