(* ===== verification/Potential_Pair.thy ===== *)
theory Potential_Pair
  imports Pair_Evaluators Particle_Data "HOL-Library.Multiset"
begin

section \<open>PotentialPair: forces from a neighbour list\<close>

text \<open>
  The class template of \<^verbatim>\<open>hoomd/md/PotentialPair.h\<close>, over an arbitrary evaluator: the tables per type pair, the shift modes
  with XPLOR smoothing, the force loop over a half or a full neighbour list, the tail correction and the energy between two
  groups of particles. The evaluator is the argument \<open>ev\<close> of the operations, with the parameters of the type pair, the
  diameters and the charges of the two particles (zero where it does not need them), the squared distance, the squared
  cutoff and the flag \<open>energy_shift\<close>.
\<close>

subsection \<open>State\<close>

datatype energyShiftMode = no_shift | shift | xplor

record 'p PotentialPair =
  pp_ntypes :: nat
  pp_shift_mode :: energyShiftMode
  pp_rcutsq :: "Scalar list"
  pp_ronsq :: "Scalar list"
  pp_r_cut_nlist :: "Scalar list"
  pp_params :: "'p list"
  pp_tail_correction_enabled :: bool
  pp_num_particles_by_type :: "nat list"
  pp_external_energy :: Scalar
  pp_external_virial :: "Scalar list"

type_synonym 'p evaluator =
  "'p \<Rightarrow> Scalar \<times> Scalar \<Rightarrow> Scalar \<times> Scalar \<Rightarrow> Scalar \<Rightarrow> Scalar \<Rightarrow> bool \<Rightarrow> pair_result"

definition typpair_idx :: "'p PotentialPair \<Rightarrow> nat \<Rightarrow> nat \<Rightarrow> nat" where
  "typpair_idx pp i j = j * pp_ntypes pp + i"

definition count_type :: "nat list \<Rightarrow> nat list \<Rightarrow> nat list" where
  "count_type counts types = fold (\<lambda>t c. c[t := c ! t + 1]) types counts"

definition num_particles_by_type :: "nat \<Rightarrow> world \<Rightarrow> nat list" where
  "num_particles_by_type ntypes w =
    (let local_counts = map (\<lambda>pd. count_type (replicate ntypes 0) (map pe_type (take (pd_nparticles pd) (pd_elems pd)))) w
     in map (\<lambda>t. sum_list (map (\<lambda>c. c ! t) local_counts)) [0..<ntypes])"

definition make_PotentialPair :: "'p \<Rightarrow> nat \<Rightarrow> world \<Rightarrow> 'p PotentialPair" where
  "make_PotentialPair default_param ntypes w =
    \<lparr>pp_ntypes = ntypes, pp_shift_mode = no_shift, pp_rcutsq = replicate (ntypes * ntypes) 0,
     pp_ronsq = replicate (ntypes * ntypes) 0, pp_r_cut_nlist = replicate (ntypes * ntypes) 0,
     pp_params = replicate (ntypes * ntypes) default_param, pp_tail_correction_enabled = False,
     pp_num_particles_by_type = num_particles_by_type ntypes w, pp_external_energy = 0,
     pp_external_virial = replicate 6 0\<rparr>"

subsection \<open>Parameters\<close>

definition validateTypes :: "nat \<Rightarrow> nat \<Rightarrow> string \<Rightarrow> 'p PotentialPair \<Rightarrow> unit result" where
  "validateTypes typ1 typ2 action pp =
    (if typ1 \<ge> pp_ntypes pp \<or> typ2 \<ge> pp_ntypes pp
     then Inl (RuntimeError (''Error in'' @ action @ '' for pair potential. Invalid type''))
     else Inr ())"

definition set_both :: "'p PotentialPair \<Rightarrow> nat \<Rightarrow> nat \<Rightarrow> 'a \<Rightarrow> 'a list \<Rightarrow> 'a list" where
  "set_both pp typ1 typ2 v xs = xs[typpair_idx pp typ1 typ2 := v, typpair_idx pp typ2 typ1 := v]"

definition setParams :: "nat \<Rightarrow> nat \<Rightarrow> 'p \<Rightarrow> 'p PotentialPair \<Rightarrow> 'p PotentialPair result" where
  "setParams typ1 typ2 param pp =
    bind_result (validateTypes typ1 typ2 ''setting params'' pp)
      (\<lambda>_. Inr (pp\<lparr>pp_params := set_both pp typ1 typ2 param (pp_params pp)\<rparr>))"

definition setRcut :: "nat \<Rightarrow> nat \<Rightarrow> Scalar \<Rightarrow> 'p PotentialPair \<Rightarrow> 'p PotentialPair result" where
  "setRcut typ1 typ2 rcut pp =
    bind_result (validateTypes typ1 typ2 ''setting r_cut'' pp)
      (\<lambda>_. Inr (pp\<lparr>pp_rcutsq := set_both pp typ1 typ2 (rcut * rcut) (pp_rcutsq pp),
                  pp_r_cut_nlist := set_both pp typ1 typ2 rcut (pp_r_cut_nlist pp)\<rparr>))"

definition setRon :: "nat \<Rightarrow> nat \<Rightarrow> Scalar \<Rightarrow> 'p PotentialPair \<Rightarrow> 'p PotentialPair result" where
  "setRon typ1 typ2 ron pp =
    bind_result (validateTypes typ1 typ2 ''setting r_on'' pp)
      (\<lambda>_. Inr (pp\<lparr>pp_ronsq := set_both pp typ1 typ2 (ron * ron) (pp_ronsq pp)\<rparr>))"

definition getRCut :: "nat \<Rightarrow> nat \<Rightarrow> 'p PotentialPair \<Rightarrow> Scalar result" where
  "getRCut typ1 typ2 pp =
    bind_result (validateTypes typ1 typ2 ''getting r_cut.'' pp) (\<lambda>_. Inr (sqrt (pp_rcutsq pp ! typpair_idx pp typ1 typ2)))"

definition getROn :: "nat \<Rightarrow> nat \<Rightarrow> 'p PotentialPair \<Rightarrow> Scalar result" where
  "getROn typ1 typ2 pp =
    bind_result (validateTypes typ1 typ2 ''getting r_on'' pp) (\<lambda>_. Inr (sqrt (pp_ronsq pp ! typpair_idx pp typ1 typ2)))"

definition setShiftModePython :: "string \<Rightarrow> 'p PotentialPair \<Rightarrow> 'p PotentialPair result" where
  "setShiftModePython mode pp =
    (if mode = ''none'' then Inr (pp\<lparr>pp_shift_mode := no_shift\<rparr>)
     else if mode = ''shift'' then Inr (pp\<lparr>pp_shift_mode := shift\<rparr>)
     else if mode = ''xplor'' then Inr (pp\<lparr>pp_shift_mode := xplor\<rparr>)
     else Inl (RuntimeError ''Invalid energy shift mode.''))"

definition getShiftMode :: "'p PotentialPair \<Rightarrow> string" where
  "getShiftMode pp = (case pp_shift_mode pp of no_shift \<Rightarrow> ''none'' | shift \<Rightarrow> ''shift'' | xplor \<Rightarrow> ''xplor'')"

subsection \<open>One pair\<close>

definition use_energy_shift :: "energyShiftMode \<Rightarrow> Scalar \<Rightarrow> Scalar \<Rightarrow> bool" where
  "use_energy_shift mode ronsq rcutsq =
    (case mode of shift \<Rightarrow> True | xplor \<Rightarrow> ronsq > rcutsq | no_shift \<Rightarrow> False)"

definition xplor_smooth :: "Scalar \<Rightarrow> Scalar \<Rightarrow> Scalar \<Rightarrow> Scalar \<times> Scalar \<Rightarrow> Scalar \<times> Scalar" where
  "xplor_smooth ronsq rcutsq rsq fe =
    (let (old_force_divr, old_pair_eng) = fe;
         xplor_denom_inv = 1 / ((rcutsq - ronsq) * (rcutsq - ronsq) * (rcutsq - ronsq));
         rsq_minus_r_cut_sq = rsq - rcutsq;
         s = rsq_minus_r_cut_sq * rsq_minus_r_cut_sq * (rcutsq + 2 * rsq - 3 * ronsq) * xplor_denom_inv;
         ds_dr_divr = 12 * (rsq - ronsq) * rsq_minus_r_cut_sq * xplor_denom_inv
     in (s * old_force_divr - ds_dr_divr * old_pair_eng, old_pair_eng * s))"

definition smoothed_pair ::
  "energyShiftMode \<Rightarrow> (Scalar \<Rightarrow> Scalar \<Rightarrow> bool \<Rightarrow> pair_result) \<Rightarrow> Scalar \<Rightarrow> Scalar \<Rightarrow> Scalar \<Rightarrow> pair_result" where
  "smoothed_pair mode ev ronsq rcutsq rsq =
    map_option (\<lambda>fe. if mode = xplor \<and> rsq \<ge> ronsq \<and> rsq < rcutsq then xplor_smooth ronsq rcutsq rsq fe else fe)
      (ev rsq rcutsq (use_energy_shift mode ronsq rcutsq))"

definition dot3 :: "vec3 \<Rightarrow> vec3 \<Rightarrow> Scalar" where
  "dot3 a b = xc a * xc b + yc a * yc b + zc a * zc b"

definition pair_dx :: "ParticleData \<Rightarrow> nat \<Rightarrow> nat \<Rightarrow> vec3" where
  "pair_dx pd i j = minImage (pd_global_box pd) (vsub (pe_pos (pd_elems pd ! i)) (pe_pos (pd_elems pd ! j)))"

definition eval_pair :: "'p evaluator \<Rightarrow> bool \<Rightarrow> bool \<Rightarrow> 'p PotentialPair \<Rightarrow> ParticleData \<Rightarrow> nat \<Rightarrow> nat \<Rightarrow> pair_result" where
  "eval_pair ev needsDiameter needsCharge pp pd i j =
    (let ei = pd_elems pd ! i; ej = pd_elems pd ! j;
         d = (if needsDiameter then (pe_diameter ei, pe_diameter ej) else (0, 0));
         q = (if needsCharge then (pe_charge ei, pe_charge ej) else (0, 0));
         dx = pair_dx pd i j; rsq = dot3 dx dx;
         idx = typpair_idx pp (pe_type ei) (pe_type ej);
         rcutsq = pp_rcutsq pp ! idx;
         ronsq = (if pp_shift_mode pp = xplor then pp_ronsq pp ! idx else 0)
     in smoothed_pair (pp_shift_mode pp) (ev (pp_params pp ! idx) d q) ronsq rcutsq rsq)"

subsection \<open>Force, energy and virial of a particle\<close>

text \<open>One entry of \<open>m_force\<close> together with the six rows of \<open>m_virial\<close> at the same position.\<close>

datatype facc = FAcc (force_x: Scalar) (force_y: Scalar) (force_z: Scalar) (energy: Scalar)
  (virial_xx: Scalar) (virial_xy: Scalar) (virial_xz: Scalar) (virial_yy: Scalar) (virial_yz: Scalar) (virial_zz: Scalar)

instantiation facc :: comm_monoid_add
begin

definition zero_facc :: facc where
  "zero_facc = FAcc 0 0 0 0 0 0 0 0 0 0"

definition plus_facc :: "facc \<Rightarrow> facc \<Rightarrow> facc" where
  "plus_facc a b = FAcc (force_x a + force_x b) (force_y a + force_y b) (force_z a + force_z b) (energy a + energy b)
    (virial_xx a + virial_xx b) (virial_xy a + virial_xy b) (virial_xz a + virial_xz b)
    (virial_yy a + virial_yy b) (virial_yz a + virial_yz b) (virial_zz a + virial_zz b)"

instance
  by standard (auto simp: zero_facc_def plus_facc_def)

end

definition pair_virial :: "bool \<Rightarrow> vec3 \<Rightarrow> Scalar \<Rightarrow> Scalar list" where
  "pair_virial compute_virial dx force_divr =
    (let force_div2r = force_divr * (1 / 2); (x, y, z) = dx in
     if compute_virial then [force_div2r * x * x, force_div2r * x * y, force_div2r * x * z,
                             force_div2r * y * y, force_div2r * y * z, force_div2r * z * z]
     else [0, 0, 0, 0, 0, 0])"

definition force_on_i :: "bool \<Rightarrow> vec3 \<Rightarrow> Scalar \<times> Scalar \<Rightarrow> facc" where
  "force_on_i compute_virial dx fe =
    (let (force_divr, pair_eng) = fe; v = pair_virial compute_virial dx force_divr
     in FAcc (xc dx * force_divr) (yc dx * force_divr) (zc dx * force_divr) (pair_eng * (1 / 2))
          (v ! 0) (v ! 1) (v ! 2) (v ! 3) (v ! 4) (v ! 5))"

definition force_on_j :: "bool \<Rightarrow> vec3 \<Rightarrow> Scalar \<times> Scalar \<Rightarrow> facc" where
  "force_on_j compute_virial dx fe =
    (let (force_divr, pair_eng) = fe; v = pair_virial compute_virial dx force_divr
     in FAcc (- (xc dx * force_divr)) (- (yc dx * force_divr)) (- (zc dx * force_divr)) (pair_eng * (1 / 2))
          (v ! 0) (v ! 1) (v ! 2) (v ! 3) (v ! 4) (v ! 5))"

subsection \<open>The force loop\<close>

record nlist_data =
  nl_half :: bool
  nl_n_neigh :: "nat list"
  nl_head_list :: "nat list"
  nl_nlist :: "nat list"

definition neighbors :: "nlist_data \<Rightarrow> nat \<Rightarrow> nat list" where
  "neighbors nl i = map (\<lambda>k. nl_nlist nl ! (nl_head_list nl ! i + k)) [0..<nl_n_neigh nl ! i]"

definition neighbor_step ::
  "(nat \<Rightarrow> pair_result) \<Rightarrow> (nat \<Rightarrow> vec3) \<Rightarrow> bool \<Rightarrow> bool \<Rightarrow> nat \<Rightarrow> nat \<Rightarrow> facc list \<times> facc \<Rightarrow> facc list \<times> facc" where
  "neighbor_step result dx compute_virial third_law N j st =
    (case result j of
       None \<Rightarrow> st
     | Some fe \<Rightarrow>
         (if third_law \<and> j < N then (fst st)[j := fst st ! j + force_on_j compute_virial (dx j) fe] else fst st,
          snd st + force_on_i compute_virial (dx j) fe))"

definition particle_step ::
  "'p evaluator \<Rightarrow> bool \<Rightarrow> bool \<Rightarrow> 'p PotentialPair \<Rightarrow> ParticleData \<Rightarrow> bool \<Rightarrow> nlist_data \<Rightarrow> nat \<Rightarrow> facc list \<Rightarrow> facc list" where
  "particle_step ev needsDiameter needsCharge pp pd compute_virial nl i F =
    (let (F, fi) = fold (neighbor_step (eval_pair ev needsDiameter needsCharge pp pd i) (pair_dx pd i) compute_virial
                           (nl_half nl) (pd_nparticles pd))
                     (neighbors nl i) (F, 0)
     in F[i := F ! i + fi])"

definition force_loop ::
  "'p evaluator \<Rightarrow> bool \<Rightarrow> bool \<Rightarrow> 'p PotentialPair \<Rightarrow> ParticleData \<Rightarrow> bool \<Rightarrow> nlist_data \<Rightarrow> facc list" where
  "force_loop ev needsDiameter needsCharge pp pd compute_virial nl =
    fold (particle_step ev needsDiameter needsCharge pp pd compute_virial nl) [0..<pd_nparticles pd]
      (replicate (pd_max_nparticles pd) 0)"

definition tail_energy :: "('p \<Rightarrow> Scalar \<Rightarrow> Scalar) \<Rightarrow> Scalar \<Rightarrow> 'p PotentialPair \<Rightarrow> Scalar" where
  "tail_energy energyLRC volume pp =
    fold (\<lambda>(type_i, type_j) e.
            let rho_j = real (pp_num_particles_by_type pp ! type_j) / volume; idx = typpair_idx pp type_i type_j
            in e + 2 * real (pp_num_particles_by_type pp ! type_i) * pi * rho_j * energyLRC (pp_params pp ! idx) (pp_rcutsq pp ! idx))
         (List.product [0..<pp_ntypes pp] [0..<pp_ntypes pp]) 0"

definition tail_virial :: "('p \<Rightarrow> Scalar \<Rightarrow> Scalar) \<Rightarrow> nat \<Rightarrow> Scalar \<Rightarrow> 'p PotentialPair \<Rightarrow> Scalar" where
  "tail_virial pressureLRC dimension volume pp =
    fold (\<lambda>(type_i, type_j) v.
            let rho_i = real (pp_num_particles_by_type pp ! type_i) / volume;
                rho_j = real (pp_num_particles_by_type pp ! type_j) / volume; idx = typpair_idx pp type_i type_j;
                delta_pressure = 4 / 6 * rho_i * rho_j * pi * pressureLRC (pp_params pp ! idx) (pp_rcutsq pp ! idx)
            in v + real dimension * volume * delta_pressure / 3)
         (List.product [0..<pp_ntypes pp] [0..<pp_ntypes pp]) 0"

definition computeTailCorrection ::
  "('p \<Rightarrow> Scalar \<Rightarrow> Scalar) \<Rightarrow> ('p \<Rightarrow> Scalar \<Rightarrow> Scalar) \<Rightarrow> nat \<Rightarrow> nat \<Rightarrow> Scalar \<Rightarrow> bool \<Rightarrow> 'p PotentialPair \<Rightarrow> 'p PotentialPair result" where
  "computeTailCorrection energyLRC pressureLRC my_rank dimension volume compute_virial pp =
    (if \<not> pp_tail_correction_enabled pp then Inr pp
     else if pp_shift_mode pp \<noteq> no_shift
     then Inl (RuntimeError ''Pair potential shift mode must be \"none\" to apply tail corrections.'')
     else
       let pp = pp\<lparr>pp_external_energy := if my_rank = 0 then tail_energy energyLRC volume pp else 0\<rparr>;
           v = (if my_rank = 0 then tail_virial pressureLRC dimension volume pp else 0)
       in Inr (if compute_virial then pp\<lparr>pp_external_virial := [v, 0, 0, v, 0, v]\<rparr> else pp))"

definition computeForces ::
  "'p evaluator \<Rightarrow> bool \<Rightarrow> bool \<Rightarrow> ('p \<Rightarrow> Scalar \<Rightarrow> Scalar) \<Rightarrow> ('p \<Rightarrow> Scalar \<Rightarrow> Scalar) \<Rightarrow> nat \<Rightarrow> nat \<Rightarrow> Scalar \<Rightarrow> bool \<Rightarrow>
    nlist_data \<Rightarrow> ParticleData \<Rightarrow> 'p PotentialPair \<Rightarrow> (facc list \<times> 'p PotentialPair) result" where
  "computeForces ev needsDiameter needsCharge energyLRC pressureLRC my_rank dimension volume compute_virial nl pd pp =
    (let F = force_loop ev needsDiameter needsCharge pp pd compute_virial nl
     in bind_result (computeTailCorrection energyLRC pressureLRC my_rank dimension volume compute_virial pp) (\<lambda>pp. Inr (F, pp)))"

definition energy_between_sets_rank ::
  "'p evaluator \<Rightarrow> bool \<Rightarrow> bool \<Rightarrow> 'p PotentialPair \<Rightarrow> nat list \<Rightarrow> nat list \<Rightarrow> ParticleData \<Rightarrow> Scalar" where
  "energy_between_sets_rank ev needsDiameter needsCharge pp tags1 tags2 pd =
    fold (\<lambda>tag1 e.
      let i = getRTag pd tag1 in
      if i \<ge> pd_nparticles pd then e
      else fold (\<lambda>tag2 e.
             let j = getRTag pd tag2 in
             if j \<ge> pd_nparticles pd + pd_nghosts pd then e
             else case eval_pair ev needsDiameter needsCharge pp pd i j of None \<Rightarrow> e | Some (_, pair_eng) \<Rightarrow> e + pair_eng)
           tags2 e)
      tags1 0"

text \<open>With a domain decomposition the particles are migrated and the ghosts exchanged first, the argument \<open>communicate\<close>.\<close>

definition computeEnergyBetweenSets ::
  "(world \<Rightarrow> world) \<Rightarrow> 'p evaluator \<Rightarrow> bool \<Rightarrow> bool \<Rightarrow> 'p PotentialPair \<Rightarrow> nat list \<Rightarrow> nat list \<Rightarrow> Scalar \<Rightarrow> world \<Rightarrow> Scalar" where
  "computeEnergyBetweenSets communicate ev needsDiameter needsCharge pp tags1 tags2 energy0 w =
    (if tags1 = [] \<or> tags2 = [] then energy0
     else sum_list (map (energy_between_sets_rank ev needsDiameter needsCharge pp tags1 tags2) (communicate w)))"

subsection \<open>The minimum image of the opposite vector\<close>

lemma nearest_neg: "0 < L \<Longrightarrow> w - of_int (nearest L w) * L \<noteq> - (L / 2) \<Longrightarrow> nearest L (- w) = - nearest L w"
proof -
  assume L: "0 < L" and n: "w - of_int (nearest L w) * L \<noteq> - (L / 2)"
  consider "w = L / 2" | "w = - (L / 2)" | "w > L / 2" | "w < - (L / 2)" | "- (L / 2) < w" "w < L / 2" by linarith
  then show ?thesis using L n by cases (auto simp: nearest_def)
qed

lemma nearest_z_neg: "0 < L \<Longrightarrow> w - of_int (nearest_z L w) * L \<noteq> - (L / 2) \<Longrightarrow> nearest_z L (- w) = - nearest_z L w"
  by (auto simp: nearest_z_def)

definition off_lower_face :: "BoxDim \<Rightarrow> vec3 \<Rightarrow> bool" where
  "off_lower_face b v \<longleftrightarrow> xc v \<noteq> xc (box_lo b) \<and> yc v \<noteq> yc (box_lo b) \<and> zc v \<noteq> zc (box_lo b)"

definition vneg :: "vec3 \<Rightarrow> vec3" where
  "vneg v = (- xc v, - yc v, - zc v)"

lemma minImage_neg:
  assumes "box_wf b" and "off_lower_face b (minImage b v)"
  shows "minImage b (vneg v) = vneg (minImage b v)"
proof -
  obtain Lx Ly Lz where L: "box_L b = (Lx, Ly, Lz)" "0 < Lx" "0 < Ly" "0 < Lz"
      "box_lo b = (- (Lx / 2), - (Ly / 2), - (Lz / 2))"
    using assms(1) by (auto elim!: box_wfE)
  obtain x y z where v: "v = (x, y, z)" by (cases v)
  note e = minImage_wf [OF assms(1) L(1)]
  define k where "k = nearest_z Lz z"
  define y1 where "y1 = y - of_int k * Lz * box_yz b"
  define j where "j = nearest Ly y1"
  define x2 where "x2 = x - of_int k * Lz * box_xz b - of_int j * Ly * box_xy b"
  have m: "minImage b v = (x2 - of_int (nearest Lx x2) * Lx, y1 - of_int j * Ly, z - of_int k * Lz)"
    by (simp add: v e Let_def k_def y1_def j_def x2_def)
  have n: "nearest_z Lz (- z) = - k" "nearest Ly (- y1) = - j" "nearest Lx (- x2) = - nearest Lx x2"
    using assms(2) L nearest_z_neg [of Lz z] nearest_neg [of Ly y1] nearest_neg [of Lx x2]
    by (simp_all add: m off_lower_face_def k_def j_def)
  have s: "- y - of_int (- k) * Lz * box_yz b = - y1"
    "- x - of_int (- k) * Lz * box_xz b - of_int (- j) * Ly * box_xy b = - x2"
    by (simp_all add: y1_def x2_def)
  show ?thesis unfolding m
    by (simp only: v vneg_def fst_conv snd_conv e Let_def n s) simp
qed

subsection \<open>What the force loop adds up\<close>

definition on_i :: "(nat \<Rightarrow> pair_result) \<Rightarrow> (nat \<Rightarrow> vec3) \<Rightarrow> bool \<Rightarrow> nat \<Rightarrow> facc" where
  "on_i result dx cv j = (case result j of None \<Rightarrow> 0 | Some fe \<Rightarrow> force_on_i cv (dx j) fe)"

definition on_j :: "(nat \<Rightarrow> pair_result) \<Rightarrow> (nat \<Rightarrow> vec3) \<Rightarrow> bool \<Rightarrow> nat \<Rightarrow> facc" where
  "on_j result dx cv j = (case result j of None \<Rightarrow> 0 | Some fe \<Rightarrow> force_on_j cv (dx j) fe)"

lemma neighbor_step_eq:
  "neighbor_step result dx cv third_law N j (F, a) =
    (if third_law \<and> j < N then F[j := F ! j + on_j result dx cv j] else F, a + on_i result dx cv j)"
  by (simp add: neighbor_step_def on_i_def on_j_def split: option.split)

lemma neighbor_fold:
  assumes "N \<le> length F"
  shows "snd (fold (neighbor_step result dx cv third_law N) js (F, a)) = a + sum_list (map (on_i result dx cv) js)
    \<and> length (fst (fold (neighbor_step result dx cv third_law N) js (F, a))) = length F
    \<and> (\<forall>m < length F. fst (fold (neighbor_step result dx cv third_law N) js (F, a)) ! m
        = F ! m + (if third_law \<and> m < N then sum_list (map (on_j result dx cv) (filter ((=) m) js)) else 0))"
  using assms
proof (induction js arbitrary: F a)
  case (Cons j js)
  define F' where "F' = (if third_law \<and> j < N then F[j := F ! j + on_j result dx cv j] else F)"
  have "N \<le> length F'" using Cons.prems by (simp add: F'_def)
  note ih = Cons.IH [OF this, of "a + on_i result dx cv j"]
  have len: "length F' = length F" by (simp add: F'_def)
  have nth: "F' ! m = F ! m + (if third_law \<and> m < N \<and> m = j then on_j result dx cv j else 0)" if "m < length F" for m
    using that by (auto simp: F'_def nth_list_update)
  have step: "fold (neighbor_step result dx cv third_law N) (j # js) (F, a)
      = fold (neighbor_step result dx cv third_law N) js (F', a + on_i result dx cv j)"
    by (simp add: neighbor_step_eq F'_def)
  show ?case unfolding step using ih
    by (auto simp: len nth add.assoc)
qed simp

text \<open>The neighbours that list the particle \<open>m\<close>.\<close>

definition reverse_neighbors :: "nlist_data \<Rightarrow> nat \<Rightarrow> nat \<Rightarrow> nat list" where
  "reverse_neighbors nl N m = concat (map (\<lambda>i. map (\<lambda>_. i) (filter ((=) m) (neighbors nl i))) [0..<N])"

definition pair_on_i :: "'p evaluator \<Rightarrow> bool \<Rightarrow> bool \<Rightarrow> 'p PotentialPair \<Rightarrow> ParticleData \<Rightarrow> bool \<Rightarrow> nat \<Rightarrow> nat \<Rightarrow> facc" where
  "pair_on_i ev nd nc pp pd cv i j = on_i (eval_pair ev nd nc pp pd i) (pair_dx pd i) cv j"

definition pair_on_j :: "'p evaluator \<Rightarrow> bool \<Rightarrow> bool \<Rightarrow> 'p PotentialPair \<Rightarrow> ParticleData \<Rightarrow> bool \<Rightarrow> nat \<Rightarrow> nat \<Rightarrow> facc" where
  "pair_on_j ev nd nc pp pd cv i j = on_j (eval_pair ev nd nc pp pd i) (pair_dx pd i) cv j"

lemma particle_step_nth:
  assumes "pd_nparticles pd \<le> length F" and "i < length F"
  shows "length (particle_step ev nd nc pp pd cv nl i F) = length F"
    and "m < length F \<Longrightarrow> particle_step ev nd nc pp pd cv nl i F ! m
      = F ! m + (if nl_half nl \<and> m < pd_nparticles pd
                 then sum_list (map (\<lambda>_. pair_on_j ev nd nc pp pd cv i m) (filter ((=) m) (neighbors nl i))) else 0)
             + (if i = m then sum_list (map (pair_on_i ev nd nc pp pd cv i) (neighbors nl i)) else 0)"
proof -
  let ?st = "fold (neighbor_step (eval_pair ev nd nc pp pd i) (pair_dx pd i) cv (nl_half nl) (pd_nparticles pd)) (neighbors nl i) (F, 0)"
  have e: "particle_step ev nd nc pp pd cv nl i F = (fst ?st)[i := fst ?st ! i + snd ?st]"
    by (simp add: particle_step_def case_prod_beta)
  note n = neighbor_fold [OF assms(1), of "eval_pair ev nd nc pp pd i" "pair_dx pd i" cv "nl_half nl" "neighbors nl i" 0]
  show "length (particle_step ev nd nc pp pd cv nl i F) = length F" using n by (simp add: e)
  have f: "map (on_j (eval_pair ev nd nc pp pd i) (pair_dx pd i) cv) (filter ((=) m) js)
      = map (\<lambda>_. pair_on_j ev nd nc pp pd cv i m) (filter ((=) m) js)" for js
    by (auto simp: pair_on_j_def)
  have g: "on_i (eval_pair ev nd nc pp pd i) (pair_dx pd i) cv = pair_on_i ev nd nc pp pd cv i"
    by (simp add: fun_eq_iff pair_on_i_def)
  show "m < length F \<Longrightarrow> particle_step ev nd nc pp pd cv nl i F ! m
      = F ! m + (if nl_half nl \<and> m < pd_nparticles pd
                 then sum_list (map (\<lambda>_. pair_on_j ev nd nc pp pd cv i m) (filter ((=) m) (neighbors nl i))) else 0)
             + (if i = m then sum_list (map (pair_on_i ev nd nc pp pd cv i) (neighbors nl i)) else 0)"
    using n assms(2) unfolding e f [symmetric] g by (simp add: nth_list_update)
qed

lemma particle_fold_nth:
  assumes "pd_nparticles pd \<le> length F" and "set is \<subseteq> {..<length F}"
  shows "length (fold (particle_step ev nd nc pp pd cv nl) is F) = length F
    \<and> (\<forall>m < length F. fold (particle_step ev nd nc pp pd cv nl) is F ! m
      = F ! m + (if nl_half nl \<and> m < pd_nparticles pd
                 then sum_list (map (\<lambda>i. sum_list (map (\<lambda>_. pair_on_j ev nd nc pp pd cv i m) (filter ((=) m) (neighbors nl i)))) is) else 0)
             + sum_list (map (\<lambda>i. if i = m then sum_list (map (pair_on_i ev nd nc pp pd cv i) (neighbors nl i)) else 0) is))"
  using assms
proof (induction "is" arbitrary: F)
  case (Cons i "is")
  have i: "pd_nparticles pd \<le> length F" "i < length F" using Cons.prems by auto
  let ?F = "particle_step ev nd nc pp pd cv nl i F"
  have len: "length ?F = length F" by (rule particle_step_nth(1) [OF i])
  show ?case using Cons.IH [of ?F] Cons.prems
    by (simp add: len particle_step_nth(2) [OF i] ac_simps)
qed simp

lemma force_loop_nth:
  assumes "pd_nparticles pd \<le> pd_max_nparticles pd" and "m < pd_nparticles pd"
  shows "force_loop ev nd nc pp pd cv nl ! m
    = sum_list (map (pair_on_i ev nd nc pp pd cv m) (neighbors nl m))
      + (if nl_half nl then sum_list (map (\<lambda>i. pair_on_j ev nd nc pp pd cv i m) (reverse_neighbors nl (pd_nparticles pd) m)) else 0)"
proof -
  have own: "sum_list (map (\<lambda>i. if i = m then f i else 0) [0..<N]) = f m" if "m < N" for f :: "nat \<Rightarrow> facc" and N
    using that by (simp add: interv_sum_list_conv_sum_set_nat)
  have rev: "sum_list (map f (reverse_neighbors nl N m))
      = sum_list (map (\<lambda>i. sum_list (map (\<lambda>_. f i) (filter ((=) m) (neighbors nl i)))) [0..<N])" for f :: "nat \<Rightarrow> facc" and N
    by (induction N) (simp_all add: reverse_neighbors_def comp_def)
  have "set [0..<pd_nparticles pd] \<subseteq> {..<length (replicate (pd_max_nparticles pd) (0::facc))}" using assms by auto
  from particle_fold_nth [OF _ this, of pd ev nd nc pp cv nl] show ?thesis
    using assms by (simp add: force_loop_def own rev add.commute)
qed

subsection \<open>Exchanging the two particles of a pair\<close>

definition swap_invariant :: "'p evaluator \<Rightarrow> bool" where
  "swap_invariant ev \<longleftrightarrow> (\<forall>p di dj qi qj. ev p (dj, di) (qj, qi) = ev p (di, dj) (qi, qj))"

definition table_symmetric :: "nat \<Rightarrow> 'a list \<Rightarrow> bool" where
  "table_symmetric n xs \<longleftrightarrow> length xs = n * n \<and> (\<forall>i < n. \<forall>j < n. xs ! (j * n + i) = xs ! (i * n + j))"

definition pp_symmetric :: "'p PotentialPair \<Rightarrow> bool" where
  "pp_symmetric pp \<longleftrightarrow> table_symmetric (pp_ntypes pp) (pp_rcutsq pp) \<and> table_symmetric (pp_ntypes pp) (pp_ronsq pp)
    \<and> table_symmetric (pp_ntypes pp) (pp_r_cut_nlist pp) \<and> table_symmetric (pp_ntypes pp) (pp_params pp)"

definition proper_pair :: "'p PotentialPair \<Rightarrow> ParticleData \<Rightarrow> nat \<Rightarrow> nat \<Rightarrow> bool" where
  "proper_pair pp pd i j \<longleftrightarrow> pe_type (pd_elems pd ! i) < pp_ntypes pp \<and> pe_type (pd_elems pd ! j) < pp_ntypes pp
    \<and> off_lower_face (pd_global_box pd) (pair_dx pd i j)"

lemma pair_dx_swap:
  assumes "box_wf (pd_global_box pd)" and "off_lower_face (pd_global_box pd) (pair_dx pd i j)"
  shows "pair_dx pd j i = vneg (pair_dx pd i j)"
proof -
  have "vsub (pe_pos (pd_elems pd ! j)) (pe_pos (pd_elems pd ! i)) = vneg (vsub (pe_pos (pd_elems pd ! i)) (pe_pos (pd_elems pd ! j)))"
    by (simp add: vsub_def vneg_def)
  then show ?thesis using minImage_neg [OF assms(1) assms(2) [unfolded pair_dx_def]] by (simp add: pair_dx_def)
qed

lemma pair_on_j_swap:
  assumes "box_wf (pd_global_box pd)" and "swap_invariant ev" and "pp_symmetric pp" and "proper_pair pp pd i j"
  shows "pair_on_j ev nd nc pp pd cv i j = pair_on_i ev nd nc pp pd cv j i"
proof -
  have dx: "pair_dx pd j i = vneg (pair_dx pd i j)" using assms(1,4) unfolding proper_pair_def by (blast intro: pair_dx_swap)
  have sym: "ev p (dj, di) (qj, qi) = ev p (di, dj) (qi, qj)" for p di dj qi qj
    using assms(2) unfolding swap_invariant_def by blast
  let ?ti = "pe_type (pd_elems pd ! i)" and ?tj = "pe_type (pd_elems pd ! j)"
  have tab: "pp_rcutsq pp ! typpair_idx pp ?tj ?ti = pp_rcutsq pp ! typpair_idx pp ?ti ?tj"
    "pp_ronsq pp ! typpair_idx pp ?tj ?ti = pp_ronsq pp ! typpair_idx pp ?ti ?tj"
    "pp_params pp ! typpair_idx pp ?tj ?ti = pp_params pp ! typpair_idx pp ?ti ?tj"
    using assms(3,4) unfolding pp_symmetric_def table_symmetric_def proper_pair_def typpair_idx_def by blast+
  have sw: "ev p (if nd then (dj, di) else (0, 0)) (if nc then (qj, qi) else (0, 0))
      = ev p (if nd then (di, dj) else (0, 0)) (if nc then (qi, qj) else (0, 0))" for p di dj qi qj
    using sym [of p dj di qj qi] sym [of p dj di 0 0] sym [of p 0 0 qj qi] by simp
  have rsq: "dot3 (vneg v) (vneg v) = dot3 v v" for v by (simp add: dot3_def vneg_def)
  have "eval_pair ev nd nc pp pd j i = eval_pair ev nd nc pp pd i j"
    unfolding eval_pair_def Let_def tab dx rsq sw [of _ "pe_diameter (pd_elems pd ! j)"] ..
  moreover have "force_on_j cv v fe = force_on_i cv (vneg v) fe" for v fe
    by (cases v) (simp add: force_on_i_def force_on_j_def vneg_def pair_virial_def case_prod_beta Let_def)
  ultimately show ?thesis by (simp add: pair_on_i_def pair_on_j_def on_i_def on_j_def dx split: option.split)
qed

lemma force_loop_length: "pd_nparticles pd \<le> pd_max_nparticles pd \<Longrightarrow>
    length (force_loop ev nd nc pp pd cv nl) = pd_max_nparticles pd"
  unfolding force_loop_def by (subst particle_fold_nth [THEN conjunct1]) auto

text \<open>A full list that has each pair of the half list from both sides.\<close>

definition completes :: "nlist_data \<Rightarrow> nlist_data \<Rightarrow> nat \<Rightarrow> bool" where
  "completes full half N \<longleftrightarrow> nl_half half \<and> \<not> nl_half full
    \<and> (\<forall>m < N. mset (neighbors full m) = mset (neighbors half m) + mset (reverse_neighbors half N m))"

lemma mset_sum_list: "mset xs = mset ys \<Longrightarrow> sum_list (map f xs) = sum_list (map f ys)" for f :: "'a \<Rightarrow> facc"
  by (metis mset_map sum_mset_sum_list)

lemma in_reverse_neighbors: "i \<in> set (reverse_neighbors nl N m) \<longleftrightarrow> i < N \<and> m \<in> set (neighbors nl i)"
  by (auto simp: reverse_neighbors_def)

lemma force_loop_half_full:
  assumes "box_wf (pd_global_box pd)" and "swap_invariant ev" and "pp_symmetric pp"
    and N: "pd_nparticles pd \<le> pd_max_nparticles pd"
    and full: "completes full half (pd_nparticles pd)"
    and pairs: "\<forall>i < pd_nparticles pd. \<forall>j \<in> set (neighbors half i). proper_pair pp pd i j"
  shows "take (pd_nparticles pd) (force_loop ev nd nc pp pd cv half) = take (pd_nparticles pd) (force_loop ev nd nc pp pd cv full)"
proof (rule nth_equalityI)
  show "length (take (pd_nparticles pd) (force_loop ev nd nc pp pd cv half))
      = length (take (pd_nparticles pd) (force_loop ev nd nc pp pd cv full))"
    by (simp add: force_loop_length N)
next
  fix m assume "m < length (take (pd_nparticles pd) (force_loop ev nd nc pp pd cv half))"
  then have m: "m < pd_nparticles pd" by simp
  let ?r = "reverse_neighbors half (pd_nparticles pd) m"
  have "map (\<lambda>i. pair_on_j ev nd nc pp pd cv i m) ?r = map (pair_on_i ev nd nc pp pd cv m) ?r"
    using assms(1-3) pairs m by (intro map_cong refl pair_on_j_swap) (auto simp: in_reverse_neighbors)
  then have "sum_list (map (\<lambda>i. pair_on_j ev nd nc pp pd cv i m) ?r) = sum_list (map (pair_on_i ev nd nc pp pd cv m) ?r)"
    by (rule arg_cong)
  moreover have "mset (neighbors full m) = mset (neighbors half m @ ?r)" using full m by (simp add: completes_def)
  note mset_sum_list [OF this, of "pair_on_i ev nd nc pp pd cv m"]
  ultimately show "take (pd_nparticles pd) (force_loop ev nd nc pp pd cv half) ! m
      = take (pd_nparticles pd) (force_loop ev nd nc pp pd cv full) ! m"
    using full m by (simp add: force_loop_nth [OF N m] completes_def)
qed

subsection \<open>Totals over the particles of a rank\<close>

lemma sum_filter_eq:
  "(\<Sum>m<N. sum_list (map (\<lambda>_. f m) (filter ((=) m) js))) = sum_list (map f (filter (\<lambda>j. j < N) js))" for f :: "nat \<Rightarrow> facc"
proof (induction js)
  case (Cons j js)
  have "(\<Sum>m<N. sum_list (map (\<lambda>_. f m) (filter ((=) m) (j # js))))
      = (\<Sum>m<N. (if m = j then f m else 0) + sum_list (map (\<lambda>_. f m) (filter ((=) m) js)))"
    by (rule sum.cong) simp_all
  also have "\<dots> = (if j < N then f j else 0) + sum_list (map f (filter (\<lambda>j. j < N) js))"
    by (simp add: sum.distrib Cons.IH)
  finally show ?case by simp
qed simp

lemma reverse_total:
  "(\<Sum>m<N. sum_list (map (\<lambda>i. g i m) (reverse_neighbors nl N m)))
    = (\<Sum>i<N. sum_list (map (g i) (filter (\<lambda>j. j < N) (neighbors nl i))))" for g :: "nat \<Rightarrow> nat \<Rightarrow> facc"
proof -
  have "sum_list (map f (reverse_neighbors nl M m))
      = (\<Sum>i<M. sum_list (map (\<lambda>_. f i) (filter ((=) m) (neighbors nl i))))" for f :: "nat \<Rightarrow> facc" and M m
    by (induction M) (simp_all add: reverse_neighbors_def comp_def)
  then have "(\<Sum>m<N. sum_list (map (\<lambda>i. g i m) (reverse_neighbors nl N m)))
      = (\<Sum>m<N. \<Sum>i<N. sum_list (map (\<lambda>_. g i m) (filter ((=) m) (neighbors nl i))))" by simp
  also have "\<dots> = (\<Sum>i<N. \<Sum>m<N. sum_list (map (\<lambda>_. g i m) (filter ((=) m) (neighbors nl i))))" by (rule sum.swap)
  finally show ?thesis by (simp add: sum_filter_eq)
qed

lemma sum_list_take_facc: "n \<le> length F \<Longrightarrow> sum_list (take n F) = (\<Sum>m<n. F ! m)" for F :: "facc list"
  by (induction n) (simp_all add: take_Suc_conv_app_nth)

lemma sum_list_plus_facc: "sum_list (map f xs) + sum_list (map g xs) = sum_list (map (\<lambda>x. f x + g x) xs)" for f g :: "'a \<Rightarrow> facc"
  by (induction xs) (simp_all add: ac_simps)

lemma half_total:
  assumes "pd_nparticles pd \<le> pd_max_nparticles pd" and "nl_half nl"
    and "\<forall>i < pd_nparticles pd. \<forall>j \<in> set (neighbors nl i). j < pd_nparticles pd"
  shows "sum_list (take (pd_nparticles pd) (force_loop ev nd nc pp pd cv nl))
    = (\<Sum>i < pd_nparticles pd. sum_list (map (\<lambda>j. pair_on_i ev nd nc pp pd cv i j + pair_on_j ev nd nc pp pd cv i j) (neighbors nl i)))"
proof -
  have loc: "filter (\<lambda>j. j < pd_nparticles pd) (neighbors nl i) = neighbors nl i" if "i < pd_nparticles pd" for i
    using assms(3) that by (simp add: filter_id_conv)
  have "sum_list (take (pd_nparticles pd) (force_loop ev nd nc pp pd cv nl))
      = (\<Sum>m < pd_nparticles pd. sum_list (map (pair_on_i ev nd nc pp pd cv m) (neighbors nl m)))
        + (\<Sum>m < pd_nparticles pd. sum_list (map (\<lambda>i. pair_on_j ev nd nc pp pd cv i m) (reverse_neighbors nl (pd_nparticles pd) m)))"
    using assms(1,2) by (simp add: sum_list_take_facc force_loop_length force_loop_nth sum.distrib)
  then show ?thesis unfolding reverse_total by (simp add: loc sum_list_plus_facc flip: sum.distrib)
qed

lemma pair_both:
  "pair_on_i ev nd nc pp pd cv i j + pair_on_j ev nd nc pp pd cv i j =
    (case eval_pair ev nd nc pp pd i j of None \<Rightarrow> 0
     | Some (f, e) \<Rightarrow> (case pair_dx pd i j of (x, y, z) \<Rightarrow>
         if cv then FAcc 0 0 0 e (f * x * x) (f * x * y) (f * x * z) (f * y * y) (f * y * z) (f * z * z)
         else FAcc 0 0 0 e 0 0 0 0 0 0))"
  by (cases "pair_dx pd i j")
    (auto simp: pair_on_i_def pair_on_j_def on_i_def on_j_def force_on_i_def force_on_j_def pair_virial_def
      plus_facc_def zero_facc_def field_simps split: option.split)

subsection \<open>The tables per pair of types\<close>

lemma typpair_idx_less: "i < pp_ntypes pp \<Longrightarrow> j < pp_ntypes pp \<Longrightarrow> typpair_idx pp i j < pp_ntypes pp * pp_ntypes pp"
proof -
  assume "i < pp_ntypes pp" and "j < pp_ntypes pp"
  then have "j * pp_ntypes pp + i < Suc j * pp_ntypes pp" and "Suc j \<le> pp_ntypes pp" by simp_all
  with mult_le_mono1 [OF this(2), of "pp_ntypes pp"] show ?thesis unfolding typpair_idx_def by linarith
qed

lemma typpair_idx_inj: "i < pp_ntypes pp \<Longrightarrow> i' < pp_ntypes pp \<Longrightarrow>
    typpair_idx pp i j = typpair_idx pp i' j' \<longleftrightarrow> i = i' \<and> j = j'"
proof -
  assume i: "i < pp_ntypes pp" "i' < pp_ntypes pp"
  then have "typpair_idx pp i j mod pp_ntypes pp = i" "typpair_idx pp i j div pp_ntypes pp = j"
    "typpair_idx pp i' j' mod pp_ntypes pp = i'" "typpair_idx pp i' j' div pp_ntypes pp = j'"
    by (simp_all add: typpair_idx_def)
  then show ?thesis by metis
qed

lemma set_both_nth:
  assumes "length xs = pp_ntypes pp * pp_ntypes pp" "typ1 < pp_ntypes pp" "typ2 < pp_ntypes pp" "i < pp_ntypes pp" "j < pp_ntypes pp"
  shows "set_both pp typ1 typ2 v xs ! typpair_idx pp i j = (if {i, j} = {typ1, typ2} then v else xs ! typpair_idx pp i j)"
proof -
  have "typpair_idx pp typ1 typ2 < length xs" "typpair_idx pp typ2 typ1 < length xs"
    using assms by (simp_all add: typpair_idx_less)
  then have "set_both pp typ1 typ2 v xs ! typpair_idx pp i j =
      (if typpair_idx pp i j = typpair_idx pp typ1 typ2 \<or> typpair_idx pp i j = typpair_idx pp typ2 typ1 then v
       else xs ! typpair_idx pp i j)"
    by (simp add: set_both_def nth_list_update)
  then show ?thesis using assms by (simp only: typpair_idx_inj doubleton_eq_iff)
qed

lemma set_both_length [simp]: "length (set_both pp typ1 typ2 v xs) = length xs"
  by (simp add: set_both_def)

lemma table_symmetric_replicate: "table_symmetric n (replicate (n * n) x)"
proof -
  have "j * n + i < n * n" if "i < n" "j < n" for i j
    using typpair_idx_less [of i "\<lparr>pp_ntypes = n, pp_shift_mode = no_shift, pp_rcutsq = [], pp_ronsq = [], pp_r_cut_nlist = [],
      pp_params = [], pp_tail_correction_enabled = False, pp_num_particles_by_type = [], pp_external_energy = 0, pp_external_virial = []\<rparr>" j] that
    by (simp add: typpair_idx_def)
  then show ?thesis by (simp add: table_symmetric_def)
qed

lemma table_symmetric_set_both:
  assumes "table_symmetric (pp_ntypes pp) xs" "typ1 < pp_ntypes pp" "typ2 < pp_ntypes pp"
  shows "table_symmetric (pp_ntypes pp) (set_both pp typ1 typ2 v xs)"
proof -
  have "set_both pp typ1 typ2 v xs ! typpair_idx pp i j = set_both pp typ1 typ2 v xs ! typpair_idx pp j i"
    if "i < pp_ntypes pp" "j < pp_ntypes pp" for i j
    using assms that set_both_nth [of xs pp typ1 typ2 i j v] set_both_nth [of xs pp typ1 typ2 j i v]
    unfolding table_symmetric_def by (simp only: insert_commute [of j] typpair_idx_def)
  then show ?thesis using assms by (simp add: table_symmetric_def typpair_idx_def)
qed

end
