(* ===== verification/Pair_Potentials.thy ===== *)
theory Pair_Potentials
  imports Pair_Evaluators
begin

section \<open>The evaluators implement their documented potentials\<close>

text \<open>
  For every evaluator the potential its documentation states (\<^verbatim>\<open>hoomd/md/pair/pair.py\<close>), and the interpretation that
  shows the evaluator to compute this potential and its force.
\<close>

subsection \<open>Distances and inverse powers\<close>

lemma rsqrt_square [simp]: "0 < r \<Longrightarrow> rsqrt (r * r) = 1 / r"
  by (simp add: rsqrt_def)

lemma square_less [simp]: "0 < r \<Longrightarrow> 0 < s \<Longrightarrow> r * r < s * s \<longleftrightarrow> r < (s::real)"
  using mult_strict_mono [of r s r s] mult_mono [of s r s r] by (cases "r < s") auto

lemma rsqrt_less_iff [simp]: "0 < b \<Longrightarrow> b \<le> a \<Longrightarrow> \<not> 1 / rsqrt a < 1 / rsqrt b"
  by (simp add: rsqrt_def)

lemma DERIV_inverse_power:
  assumes "r \<noteq> 0" shows "((\<lambda>r. (c / r) ^ n) has_real_derivative - (real n * (c / r) ^ n / r)) (at (r::real))"
proof (cases n)
  case (Suc m)
  have "((\<lambda>r. c / r) has_real_derivative - (c / r) / r) (at r)"
    using assms by (auto intro!: derivative_eq_intros simp: field_simps)
  from DERIV_power [OF this, of n] show ?thesis
    unfolding Suc by (rule DERIV_cong) (simp add: field_simps)
qed simp

lemma DERIV_shift_left: "(f has_real_derivative D) (at (r - d)) \<Longrightarrow> ((\<lambda>r. f (r - d)) has_real_derivative D) (at (r::real))"
  using DERIV_shift [of f D r "- d"] by simp

lemma DERIV_square: "((\<lambda>r. r\<^sup>2) has_real_derivative 2 * r) (at (r::real))"
  by (auto intro!: derivative_eq_intros)

text \<open>With \<open>u = 1 / r\<close> the algebraic evaluators are polynomials in \<open>u\<close>.\<close>

lemma over_r:
  assumes "r \<noteq> (0::real)"
  shows "1 / (r * r) = inverse r * inverse r" and "x / r = x * inverse r"
    and "r * (inverse r * x) = x" and "r * (x * inverse r) = x"
  using assms by (simp_all add: field_simps)

subsection \<open>Lennard-Jones and relatives\<close>

definition V_powers :: "nat \<Rightarrow> nat \<Rightarrow> Scalar \<Rightarrow> Scalar \<Rightarrow> Scalar \<Rightarrow> Scalar" where
  "V_powers n m sigma epsilon r = 4 * epsilon * ((sigma / r) ^ n - (sigma / r) ^ m)"

definition dV_powers :: "nat \<Rightarrow> nat \<Rightarrow> Scalar \<Rightarrow> Scalar \<Rightarrow> Scalar \<Rightarrow> Scalar" where
  "dV_powers n m sigma epsilon r = 4 * epsilon * (real m * (sigma / r) ^ m - real n * (sigma / r) ^ n) / r"

lemma V_powers_deriv: "r \<noteq> 0 \<Longrightarrow> (V_powers n m sigma epsilon has_real_derivative dV_powers n m sigma epsilon r) (at r)"
proof -
  assume "r \<noteq> 0"
  then have "((\<lambda>r. 4 * epsilon * ((sigma / r) ^ n - (sigma / r) ^ m)) has_real_derivative
      4 * epsilon * (- (real n * (sigma / r) ^ n / r) - - (real m * (sigma / r) ^ m / r))) (at r)"
    by (intro DERIV_cmult DERIV_diff DERIV_inverse_power)
  moreover have "4 * e * (- (a * X / r) - - (b * Y / r)) = 4 * e * (b * Y - a * X) / r" for e a b X Y :: real
    by (simp add: diff_divide_distrib right_diff_distrib)
  ultimately show ?thesis by (simp only: V_powers_def [abs_def] dV_powers_def)
qed

text \<open>The evaluators need a positive distance below the cutoff and parameters that do not switch the potential off.\<close>

abbreviation in_range :: "bool \<Rightarrow> Scalar \<Rightarrow> Scalar \<Rightarrow> bool" where
  "in_range c \<equiv> (\<lambda>rc r. 0 < r \<and> r < rc \<and> c)"

lemma LJ_value:
  assumes "in_range (sigma \<noteq> 0 \<and> epsilon \<noteq> 0) rc r"
  shows "EvaluatorPairLJ (sigma ^ 6) (4 * epsilon) (r * r) (rc * rc) s
    = Some (- dV_powers 12 6 sigma epsilon r / r, V_powers 12 6 sigma epsilon r - (if s then V_powers 12 6 sigma epsilon rc else 0))"
proof -
  have "0 < rc" using assms by simp
  with assms show ?thesis
    by (simp add: EvaluatorPairLJ_def Let_def over_r dV_powers_def V_powers_def power_mult_distrib)
       (intro conjI impI disjI2; algebra)
qed

interpretation lj: shifted_potential "EvaluatorPairLJ (sigma ^ 6) (4 * epsilon)" "\<lambda>_. V_powers 12 6 sigma epsilon"
    "in_range (sigma \<noteq> 0 \<and> epsilon \<noteq> 0)" for sigma epsilon
  by (rule shifted_potentialI [OF _ LJ_value V_powers_deriv]) (auto simp: EvaluatorPairLJ_def Let_def)

lemma DPDThermoLJ_is_LJ: "EvaluatorPairDPDThermoLJ = EvaluatorPairLJ"
  by (simp add: EvaluatorPairDPDThermoLJ_def EvaluatorPairLJ_def fun_eq_iff)

lemma LJ0804_value:
  assumes "in_range (sigma \<noteq> 0 \<and> epsilon \<noteq> 0) rc r"
  shows "EvaluatorPairLJ0804 (sigma ^ 4) (4 * epsilon) (r * r) (rc * rc) s
    = Some (- dV_powers 8 4 sigma epsilon r / r, V_powers 8 4 sigma epsilon r - (if s then V_powers 8 4 sigma epsilon rc else 0))"
proof -
  have "0 < rc" using assms by simp
  with assms show ?thesis
    by (simp add: EvaluatorPairLJ0804_def Let_def over_r dV_powers_def V_powers_def power_mult_distrib)
       (intro conjI impI disjI2; algebra)
qed

interpretation lj0804: shifted_potential "EvaluatorPairLJ0804 (sigma ^ 4) (4 * epsilon)" "\<lambda>_. V_powers 8 4 sigma epsilon"
    "in_range (sigma \<noteq> 0 \<and> epsilon \<noteq> 0)" for sigma epsilon
  by (rule shifted_potentialI [OF _ LJ0804_value V_powers_deriv]) (auto simp: EvaluatorPairLJ0804_def Let_def)

lemma LJ1208_value:
  assumes "in_range (sigma \<noteq> 0 \<and> epsilon \<noteq> 0) rc r"
  shows "EvaluatorPairLJ1208 (sigma ^ 4) (4 * epsilon) (r * r) (rc * rc) s
    = Some (- dV_powers 12 8 sigma epsilon r / r, V_powers 12 8 sigma epsilon r - (if s then V_powers 12 8 sigma epsilon rc else 0))"
proof -
  have "0 < rc" using assms by simp
  with assms show ?thesis
    by (simp add: EvaluatorPairLJ1208_def Let_def over_r dV_powers_def V_powers_def power_mult_distrib)
       (intro conjI impI disjI2; algebra)
qed

interpretation lj1208: shifted_potential "EvaluatorPairLJ1208 (sigma ^ 4) (4 * epsilon)" "\<lambda>_. V_powers 12 8 sigma epsilon"
    "in_range (sigma \<noteq> 0 \<and> epsilon \<noteq> 0)" for sigma epsilon
  by (rule shifted_potentialI [OF _ LJ1208_value V_powers_deriv]) (auto simp: EvaluatorPairLJ1208_def Let_def)

text \<open>The force-shifted potential subtracts the force at the cutoff and adds a linear term.\<close>

definition V_ForceShifted :: "Scalar \<Rightarrow> Scalar \<Rightarrow> Scalar \<Rightarrow> Scalar \<Rightarrow> Scalar" where
  "V_ForceShifted sigma epsilon rc r = V_powers 12 6 sigma epsilon r - (r - rc) * dV_powers 12 6 sigma epsilon rc"

lemma ForceShiftedLJ_from_LJ:
  "EvaluatorPairForceShiftedLJ sigma_6 epsilon_x_4 rsq rcutsq s =
    (let lj1 = epsilon_x_4 * sigma_6 * sigma_6; lj2 = epsilon_x_4 * sigma_6; u = 1 / rcutsq;
         F = u * u * u * (12 * lj1 * (u * u * u) - 6 * lj2)
     in map_option (\<lambda>(f, e). (f - rsqrt (rsq * rcutsq) * F, e + (rsq * rsqrt (rsq * rcutsq) - 1) * F))
          (EvaluatorPairLJ sigma_6 epsilon_x_4 rsq rcutsq s))"
  by (simp add: EvaluatorPairForceShiftedLJ_def EvaluatorPairLJ_def Let_def)

lemma LJ_force_at_cutoff:
  assumes "rc \<noteq> 0" and "u = 1 / (rc * rc)"
  shows "u * u * u * (12 * (4 * epsilon * sigma ^ 6 * sigma ^ 6) * (u * u * u) - 6 * (4 * epsilon * sigma ^ 6))
    = - (rc * dV_powers 12 6 sigma epsilon rc)"
  using assms(1) unfolding assms(2) by (simp add: dV_powers_def over_r power_mult_distrib) algebra

lemma ForceShiftedLJ_value:
  assumes h: "in_range (sigma \<noteq> 0 \<and> epsilon \<noteq> 0) rc r"
  shows "EvaluatorPairForceShiftedLJ (sigma ^ 6) (4 * epsilon) (r * r) (rc * rc) s
    = Some (- (dV_powers 12 6 sigma epsilon r - dV_powers 12 6 sigma epsilon rc) / r,
        V_ForceShifted sigma epsilon rc r - (if s then V_ForceShifted sigma epsilon rc rc else 0))"
proof -
  have rc: "0 < rc" "0 < r" using h by auto
  then have f: "rsqrt (r * r * (rc * rc)) = 1 / (r * rc)"
    by (simp add: rsqrt_def real_sqrt_mult)
  show ?thesis
    unfolding ForceShiftedLJ_from_LJ Let_def LJ_value [OF h] f
      LJ_force_at_cutoff [OF rc(1) [THEN less_imp_neq, symmetric] refl]
    using rc by (auto simp: V_ForceShifted_def field_simps)
qed

interpretation force_shifted_lj: shifted_potential "EvaluatorPairForceShiftedLJ (sigma ^ 6) (4 * epsilon)"
    "V_ForceShifted sigma epsilon" "in_range (sigma \<noteq> 0 \<and> epsilon \<noteq> 0)" for sigma epsilon
proof (rule shifted_potentialI [OF _ ForceShiftedLJ_value])
  fix rc r assume "in_range (sigma \<noteq> 0 \<and> epsilon \<noteq> 0) rc r"
  then have "r \<noteq> 0" by simp
  then show "(V_ForceShifted sigma epsilon rc has_real_derivative
      dV_powers 12 6 sigma epsilon r - dV_powers 12 6 sigma epsilon rc) (at r)"
    unfolding V_ForceShifted_def [abs_def] by (auto intro!: derivative_eq_intros V_powers_deriv)
qed (auto simp: EvaluatorPairForceShiftedLJ_def Let_def)

text \<open>The expanded potential is the Lennard-Jones potential of \<open>r - delta\<close>. Its energy shift is not one of the contract.\<close>

lemma ExpandedLJ_value:
  assumes "in_range (delta < r \<and> sigma \<noteq> 0 \<and> epsilon \<noteq> 0) rc r"
  shows "EvaluatorPairExpandedLJ (sigma ^ 6) (4 * epsilon) delta (r * r) (rc * rc) s
    = Some (- dV_powers 12 6 sigma epsilon (r - delta) / r,
        V_powers 12 6 sigma epsilon (r - delta) - (if s then V_powers 12 6 sigma epsilon rc else 0))"
proof -
  have "0 < rc" "0 < r - delta" using assms by auto
  with assms show ?thesis
    by (simp add: EvaluatorPairExpandedLJ_def Let_def over_r dV_powers_def V_powers_def power_mult_distrib
          flip: inverse_eq_divide) (intro conjI impI; algebra)
qed

interpretation expanded_lj: central_potential "EvaluatorPairExpandedLJ (sigma ^ 6) (4 * epsilon) delta"
    "\<lambda>_ r. V_powers 12 6 sigma epsilon (r - delta)"
    "\<lambda>rc r. 0 < r \<and> r < rc \<and> delta < r \<and> sigma \<noteq> 0 \<and> epsilon \<noteq> 0" for sigma epsilon delta
proof (rule central_potentialI [where D = "\<lambda>_ r. dV_powers 12 6 sigma epsilon (r - delta)"])
  fix rc r :: Scalar assume "0 < r \<and> r < rc \<and> delta < r \<and> sigma \<noteq> 0 \<and> epsilon \<noteq> 0"
  then show "((\<lambda>r. V_powers 12 6 sigma epsilon (r - delta)) has_real_derivative dV_powers 12 6 sigma epsilon (r - delta)) (at r)"
    by (intro DERIV_shift_left V_powers_deriv) simp
next
  fix rc r assume "0 < r \<and> r < rc \<and> delta < r \<and> sigma \<noteq> 0 \<and> epsilon \<noteq> 0"
  from ExpandedLJ_value [OF this, of False]
  show "EvaluatorPairExpandedLJ (sigma ^ 6) (4 * epsilon) delta (r * r) (rc * rc) False
    = Some (- dV_powers 12 6 sigma epsilon (r - delta) / r, V_powers 12 6 sigma epsilon (r - delta))" by simp
qed (auto simp: EvaluatorPairExpandedLJ_def Let_def)

text \<open>The Mie potential with real exponents; \<open>c1\<close> and \<open>c2\<close> are the prefactors that \<open>Mie_params\<close> computes.\<close>

definition V_Mie :: "Scalar \<Rightarrow> Scalar \<Rightarrow> Scalar \<Rightarrow> Scalar \<Rightarrow> Scalar \<Rightarrow> Scalar" where
  "V_Mie c1 c2 n m r = c1 * (1 / r) powr n - c2 * (1 / r) powr m"

definition dV_Mie :: "Scalar \<Rightarrow> Scalar \<Rightarrow> Scalar \<Rightarrow> Scalar \<Rightarrow> Scalar \<Rightarrow> Scalar" where
  "dV_Mie c1 c2 n m r = (m * c2 * (1 / r) powr m - n * c1 * (1 / r) powr n) / r"

lemma inverse_powr: "0 < r \<Longrightarrow> ((\<lambda>r. (1 / r) powr n) has_real_derivative - n * (1 / r) powr n / r) (at (r::real))"
  by (auto intro!: derivative_eq_intros simp: field_simps powr_diff)

lemma V_Mie_deriv: "0 < r \<Longrightarrow> (V_Mie c1 c2 n m has_real_derivative dV_Mie c1 c2 n m r) (at r)"
proof -
  assume "0 < r"
  then have "((\<lambda>r. c1 * (1 / r) powr n - c2 * (1 / r) powr m) has_real_derivative
      c1 * (- n * (1 / r) powr n / r) - c2 * (- m * (1 / r) powr m / r)) (at r)"
    by (intro DERIV_cmult DERIV_diff inverse_powr)
  moreover have "a * (- n * X / r) - b * (- m * Y / r) = (m * b * Y - n * a * X) / r" for a b X Y :: real
    by (simp add: diff_divide_distrib mult_ac)
  ultimately show ?thesis by (simp only: V_Mie_def [abs_def] dV_Mie_def)
qed

lemma square_powr_half:
  assumes "0 < (r::real)"
  shows "(1 / (r * r)) powr (n / 2) = (1 / r) powr n" and "(r * r) powr - (n / 2) = (1 / r) powr n"
    and "(1 / r * (1 / r)) powr (n / 2) = (1 / r) powr n"
  using assms by (simp_all add: powr_mult powr_divide powr_minus field_simps flip: powr_add)

lemma Mie_value:
  assumes "in_range (c1 \<noteq> 0) rc r"
  shows "EvaluatorPairMie c1 c2 n m (r * r) (rc * rc) s
    = Some (- dV_Mie c1 c2 n m r / r, V_Mie c1 c2 n m r - (if s then V_Mie c1 c2 n m rc else 0))"
proof -
  have rc: "0 < rc" "0 < r" using assms by auto
  then show ?thesis
    using assms by (simp add: EvaluatorPairMie_def Let_def square_powr_half [OF rc(1)] square_powr_half [OF rc(2)] V_Mie_def dV_Mie_def)
      (simp add: diff_divide_distrib mult_ac)
qed

interpretation mie: shifted_potential "EvaluatorPairMie c1 c2 n m" "\<lambda>_. V_Mie c1 c2 n m" "in_range (c1 \<noteq> 0)" for c1 c2 n m
  by (rule shifted_potentialI [OF _ Mie_value V_Mie_deriv]) (auto simp: EvaluatorPairMie_def)

lemma ExpandedMie_value:
  assumes "in_range (delta < r \<and> c1 \<noteq> 0) rc r"
  shows "EvaluatorPairExpandedMie c1 c2 n m delta (r * r) (rc * rc) s
    = Some (- dV_Mie c1 c2 n m (r - delta) / r, V_Mie c1 c2 n m (r - delta) - (if s then V_Mie c1 c2 n m rc else 0))"
proof -
  have rc: "0 < rc" "0 < r - delta" "0 < r" using assms by auto
  then show ?thesis
    using assms by (simp add: EvaluatorPairExpandedMie_def Let_def square_powr_half [OF rc(1)] square_powr_half [OF rc(2)] V_Mie_def dV_Mie_def)
      (simp add: diff_divide_distrib mult_ac)
qed

interpretation expanded_mie: central_potential "EvaluatorPairExpandedMie c1 c2 n m delta"
    "\<lambda>_ r. V_Mie c1 c2 n m (r - delta)" "\<lambda>rc r. 0 < r \<and> r < rc \<and> delta < r \<and> c1 \<noteq> 0" for c1 c2 n m delta
proof (rule central_potentialI [where D = "\<lambda>_ r. dV_Mie c1 c2 n m (r - delta)"])
  fix rc r :: Scalar assume "0 < r \<and> r < rc \<and> delta < r \<and> c1 \<noteq> 0"
  then show "((\<lambda>r. V_Mie c1 c2 n m (r - delta)) has_real_derivative dV_Mie c1 c2 n m (r - delta)) (at r)"
    by (intro DERIV_shift_left V_Mie_deriv) simp
next
  fix rc r assume "0 < r \<and> r < rc \<and> delta < r \<and> c1 \<noteq> 0"
  from ExpandedMie_value [OF this, of c2 n m False]
  show "EvaluatorPairExpandedMie c1 c2 n m delta (r * r) (rc * rc) False
    = Some (- dV_Mie c1 c2 n m (r - delta) / r, V_Mie c1 c2 n m (r - delta))" by simp
qed (auto simp: EvaluatorPairExpandedMie_def Let_def)

subsection \<open>Exponential potentials\<close>

definition V_Gauss :: "Scalar \<Rightarrow> Scalar \<Rightarrow> Scalar \<Rightarrow> Scalar" where
  "V_Gauss epsilon sigma r = epsilon * exp (- (1 / 2) * (r / sigma)\<^sup>2)"

lemma V_Gauss_deriv: "sigma \<noteq> 0 \<Longrightarrow> (V_Gauss epsilon sigma has_real_derivative - (r / sigma\<^sup>2) * V_Gauss epsilon sigma r) (at r)"
  unfolding V_Gauss_def [abs_def] by (auto intro!: derivative_eq_intros simp: field_simps power2_eq_square)

lemma Gauss_value:
  "in_range (sigma \<noteq> 0) rc r \<Longrightarrow> EvaluatorPairGauss epsilon sigma (r * r) (rc * rc) s
    = Some (- (- (r / sigma\<^sup>2) * V_Gauss epsilon sigma r) / r, V_Gauss epsilon sigma r - (if s then V_Gauss epsilon sigma rc else 0))"
  by (simp add: EvaluatorPairGauss_def Let_def V_Gauss_def power2_eq_square)

interpretation gauss: shifted_potential "EvaluatorPairGauss epsilon sigma" "\<lambda>_. V_Gauss epsilon sigma" "in_range (sigma \<noteq> 0)"
    for epsilon sigma
  by (rule shifted_potentialI [OF _ Gauss_value V_Gauss_deriv]) (auto simp: EvaluatorPairGauss_def)

text \<open>Yukawa, Moliere and ZBL are sums of screened Coulomb terms.\<close>

definition V_screened :: "Scalar \<Rightarrow> Scalar \<Rightarrow> Scalar \<Rightarrow> Scalar" where
  "V_screened c k r = c * exp (- (k * r)) / r"

lemma V_screened_deriv:
  "r \<noteq> 0 \<Longrightarrow> (V_screened c k has_real_derivative - (1 / r + k) * V_screened c k r) (at r)"
  unfolding V_screened_def [abs_def] by (auto intro!: derivative_eq_intros simp: field_simps)

lemma Yukawa_value:
  assumes "in_range (epsilon \<noteq> 0) rc r"
  shows "EvaluatorPairYukawa epsilon kappa (r * r) (rc * rc) s
    = Some (- (- (1 / r + kappa) * V_screened epsilon kappa r) / r,
        V_screened epsilon kappa r - (if s then V_screened epsilon kappa rc else 0))"
  using assms by (simp add: EvaluatorPairYukawa_def Let_def V_screened_def) (simp add: field_simps)

interpretation yukawa: shifted_potential "EvaluatorPairYukawa epsilon kappa" "\<lambda>_. V_screened epsilon kappa"
    "in_range (epsilon \<noteq> 0)" for epsilon kappa
  by (rule shifted_potentialI [OF _ Yukawa_value V_screened_deriv]) (auto simp: EvaluatorPairYukawa_def)

definition V_Moliere :: "Scalar \<Rightarrow> Scalar \<Rightarrow> Scalar \<Rightarrow> Scalar" where
  "V_Moliere Zsq aF r = Zsq / r * (35 / 100 * exp (- (3 / 10) * (r / aF)) + 55 / 100 * exp (- (12 / 10) * (r / aF))
    + 1 / 10 * exp (- 6 * (r / aF)))"

lemma V_Moliere_screened:
  "V_Moliere Zsq aF = (\<lambda>r. V_screened (Zsq * (35 / 100)) (3 / 10 / aF) r + V_screened (Zsq * (55 / 100)) (12 / 10 / aF) r
    + V_screened (Zsq * (1 / 10)) (6 / aF) r)"
  by (simp add: fun_eq_iff V_Moliere_def V_screened_def ring_distribs add_divide_distrib)

definition dV_Moliere :: "Scalar \<Rightarrow> Scalar \<Rightarrow> Scalar \<Rightarrow> Scalar" where
  "dV_Moliere Zsq aF r = - (1 / r + 3 / 10 / aF) * V_screened (Zsq * (35 / 100)) (3 / 10 / aF) r
    + - (1 / r + 12 / 10 / aF) * V_screened (Zsq * (55 / 100)) (12 / 10 / aF) r
    + - (1 / r + 6 / aF) * V_screened (Zsq * (1 / 10)) (6 / aF) r"

lemma Moliere_value:
  assumes "in_range (Zsq \<noteq> 0 \<and> aF \<noteq> 0) rc r"
  shows "EvaluatorPairMoliere Zsq aF (r * r) (rc * rc) s
    = Some (- dV_Moliere Zsq aF r / r, V_Moliere Zsq aF r - (if s then V_Moliere Zsq aF rc else 0))"
proof -
  have "0 < rc" using assms by simp
  with assms show ?thesis
    by (simp add: EvaluatorPairMoliere_def Let_def V_Moliere_def dV_Moliere_def V_screened_def) (simp add: field_simps)
qed

interpretation moliere: shifted_potential "EvaluatorPairMoliere Zsq aF" "\<lambda>_. V_Moliere Zsq aF" "in_range (Zsq \<noteq> 0 \<and> aF \<noteq> 0)"
    for Zsq aF
proof (rule shifted_potentialI [OF _ Moliere_value])
  fix rc r assume "in_range (Zsq \<noteq> 0 \<and> aF \<noteq> 0) rc r"
  then show "(V_Moliere Zsq aF has_real_derivative dV_Moliere Zsq aF r) (at r)"
    unfolding V_Moliere_screened dV_Moliere_def by (intro DERIV_add V_screened_deriv) auto
qed (auto simp: EvaluatorPairMoliere_def)

definition V_ZBL :: "Scalar \<Rightarrow> Scalar \<Rightarrow> Scalar \<Rightarrow> Scalar" where
  "V_ZBL Zsq aF r = Zsq / r * (1818 / 10000 * exp (- (32 / 10) * (r / aF)) + 5099 / 10000 * exp (- (9423 / 10000) * (r / aF))
    + 2802 / 10000 * exp (- (4029 / 10000) * (r / aF)) + 2817 / 100000 * exp (- (2016 / 10000) * (r / aF)))"

lemma V_ZBL_screened:
  "V_ZBL Zsq aF = (\<lambda>r. V_screened (Zsq * (1818 / 10000)) (32 / 10 / aF) r + V_screened (Zsq * (5099 / 10000)) (9423 / 10000 / aF) r
    + V_screened (Zsq * (2802 / 10000)) (4029 / 10000 / aF) r + V_screened (Zsq * (2817 / 100000)) (2016 / 10000 / aF) r)"
  by (simp add: fun_eq_iff V_ZBL_def V_screened_def ring_distribs add_divide_distrib)

definition dV_ZBL :: "Scalar \<Rightarrow> Scalar \<Rightarrow> Scalar \<Rightarrow> Scalar" where
  "dV_ZBL Zsq aF r = - (1 / r + 32 / 10 / aF) * V_screened (Zsq * (1818 / 10000)) (32 / 10 / aF) r
    + - (1 / r + 9423 / 10000 / aF) * V_screened (Zsq * (5099 / 10000)) (9423 / 10000 / aF) r
    + - (1 / r + 4029 / 10000 / aF) * V_screened (Zsq * (2802 / 10000)) (4029 / 10000 / aF) r
    + - (1 / r + 2016 / 10000 / aF) * V_screened (Zsq * (2817 / 100000)) (2016 / 10000 / aF) r"

lemma ZBL_value:
  assumes "in_range (Zsq \<noteq> 0 \<and> aF \<noteq> 0) rc r"
  shows "EvaluatorPairZBL Zsq aF (r * r) (rc * rc) s = Some (- dV_ZBL Zsq aF r / r, V_ZBL Zsq aF r)"
proof -
  have "0 < rc" using assms by simp
  with assms show ?thesis
    by (simp add: EvaluatorPairZBL_def Let_def V_ZBL_def dV_ZBL_def V_screened_def) (simp add: field_simps)
qed

interpretation zbl: central_potential "EvaluatorPairZBL Zsq aF" "\<lambda>_. V_ZBL Zsq aF" "in_range (Zsq \<noteq> 0 \<and> aF \<noteq> 0)"
    for Zsq aF
proof (rule central_potentialI [where D = "\<lambda>_. dV_ZBL Zsq aF"])
  fix rc r assume "in_range (Zsq \<noteq> 0 \<and> aF \<noteq> 0) rc r"
  then show "(V_ZBL Zsq aF has_real_derivative dV_ZBL Zsq aF r) (at r)"
    unfolding V_ZBL_screened dV_ZBL_def by (intro DERIV_add V_screened_deriv) auto
qed (auto simp: ZBL_value, auto simp: EvaluatorPairZBL_def)

definition V_Morse :: "Scalar \<Rightarrow> Scalar \<Rightarrow> Scalar \<Rightarrow> Scalar \<Rightarrow> Scalar" where
  "V_Morse D0 alpha r0 r = D0 * (exp (- 2 * alpha * (r - r0)) - 2 * exp (- alpha * (r - r0)))"

definition dV_Morse :: "Scalar \<Rightarrow> Scalar \<Rightarrow> Scalar \<Rightarrow> Scalar \<Rightarrow> Scalar" where
  "dV_Morse D0 alpha r0 r = D0 * (- 2 * alpha * exp (- 2 * alpha * (r - r0)) + 2 * alpha * exp (- alpha * (r - r0)))"

lemma V_Morse_deriv: "(V_Morse D0 alpha r0 has_real_derivative dV_Morse D0 alpha r0 r) (at r)"
  unfolding V_Morse_def [abs_def] dV_Morse_def by (auto intro!: derivative_eq_intros simp: algebra_simps)

lemma exp_double: "exp (- 2 * a * (x::real)) = exp (- a * x) * exp (- a * x)"
  by (simp flip: exp_add)

lemma Morse_value:
  assumes "in_range True rc r"
  shows "EvaluatorPairMorse D0 alpha r0 (r * r) (rc * rc) s
    = Some (- dV_Morse D0 alpha r0 r / r, V_Morse D0 alpha r0 r - (if s then V_Morse D0 alpha r0 rc else 0))"
  using assms by (simp add: EvaluatorPairMorse_def Let_def V_Morse_def dV_Morse_def exp_double del: mult_minus_left)
    (simp add: field_simps)

interpretation morse: shifted_potential "EvaluatorPairMorse D0 alpha r0" "\<lambda>_. V_Morse D0 alpha r0" "in_range True" for D0 alpha r0
  by (rule shifted_potentialI [OF _ Morse_value V_Morse_deriv]) (auto simp: EvaluatorPairMorse_def)

definition V_Buckingham :: "Scalar \<Rightarrow> Scalar \<Rightarrow> Scalar \<Rightarrow> Scalar \<Rightarrow> Scalar" where
  "V_Buckingham A rho C r = A * exp (- r / rho) - C * (1 / r) ^ 6"

lemma V_Buckingham_deriv:
  "r \<noteq> 0 \<Longrightarrow> rho \<noteq> 0 \<Longrightarrow>
    (V_Buckingham A rho C has_real_derivative A * (exp (- r / rho) * - (1 / rho)) - C * - (real 6 * (1 / r) ^ 6 / r)) (at r)"
  unfolding V_Buckingham_def [abs_def]
  by (intro DERIV_diff DERIV_cmult DERIV_inverse_power) (auto intro!: derivative_eq_intros simp: field_simps)

lemma Buckingham_value:
  assumes "in_range (rho > 0) rc r"
  shows "EvaluatorPairBuckingham A rho C (r * r) (rc * rc) s
    = Some (- (A * (exp (- r / rho) * - (1 / rho)) - C * - (real 6 * (1 / r) ^ 6 / r)) / r,
        V_Buckingham A rho C r - (if s then V_Buckingham A rho C rc else 0))"
proof -
  have "0 < rc" using assms by simp
  with assms show ?thesis
    by (simp add: EvaluatorPairBuckingham_def Let_def V_Buckingham_def over_r)
       (intro conjI impI disjI2; algebra)
qed

interpretation buckingham: shifted_potential "EvaluatorPairBuckingham A rho C" "\<lambda>_. V_Buckingham A rho C" "in_range (rho > 0)"
    for A rho C
  by (rule shifted_potentialI [OF _ Buckingham_value V_Buckingham_deriv]) (auto simp: EvaluatorPairBuckingham_def)

definition V_LJGauss :: "Scalar \<Rightarrow> Scalar \<Rightarrow> Scalar \<Rightarrow> Scalar \<Rightarrow> Scalar" where
  "V_LJGauss epsilon sigma r0 r = (1 / r) ^ 12 - 2 * (1 / r) ^ 6 - epsilon * exp (- ((r - r0)\<^sup>2 / (2 * sigma\<^sup>2)))"

definition dV_LJGauss :: "Scalar \<Rightarrow> Scalar \<Rightarrow> Scalar \<Rightarrow> Scalar \<Rightarrow> Scalar" where
  "dV_LJGauss epsilon sigma r0 r = - (real 12 * (1 / r) ^ 12 / r) - 2 * - (real 6 * (1 / r) ^ 6 / r)
    - epsilon * (exp (- ((r - r0)\<^sup>2 / (2 * sigma\<^sup>2))) * - ((r - r0) / sigma\<^sup>2))"

lemma V_LJGauss_deriv:
  "r \<noteq> 0 \<Longrightarrow> sigma \<noteq> 0 \<Longrightarrow> (V_LJGauss epsilon sigma r0 has_real_derivative dV_LJGauss epsilon sigma r0 r) (at r)"
  unfolding V_LJGauss_def [abs_def] dV_LJGauss_def
  by (intro DERIV_diff DERIV_cmult DERIV_inverse_power) (auto intro!: derivative_eq_intros simp: field_simps power2_eq_square)

lemma LJGauss_value:
  assumes "in_range (sigma \<noteq> 0) rc r"
  shows "EvaluatorPairLJGauss epsilon sigma r0 (r * r) (rc * rc) False
    = Some (- dV_LJGauss epsilon sigma r0 r / r, V_LJGauss epsilon sigma r0 r)"
proof -
  define Q where "Q = (r - r0) / (sigma * sigma)"
  have e: "- ((r - r0)\<^sup>2 / (2 * sigma\<^sup>2)) = - (1 / 2) * Q * (r - r0)" "(r - r0) / sigma\<^sup>2 = Q"
    by (simp_all add: power2_eq_square field_simps Q_def)
  have h: "\<not> rc * rc \<le> r * r" "r \<noteq> 0" "sqrt (r * r) = r" using assms by (simp_all add: not_le)
  define X where "X = exp (- (1 / 2) * Q * (r - r0))"
  show ?thesis
    unfolding EvaluatorPairLJGauss_def Let_def V_LJGauss_def dV_LJGauss_def h(3) e Q_def [symmetric] X_def [symmetric]
    using h(1) by (simp add: over_r [OF h(2)]) (intro conjI; algebra)
qed

interpretation lj_gauss: central_potential "EvaluatorPairLJGauss epsilon sigma r0" "\<lambda>_. V_LJGauss epsilon sigma r0"
    "in_range (sigma \<noteq> 0)" for epsilon sigma r0
  by (rule central_potentialI [where D = "\<lambda>_. dV_LJGauss epsilon sigma r0"])
     (auto simp: LJGauss_value V_LJGauss_deriv, auto simp: EvaluatorPairLJGauss_def)

definition V_TWF :: "Scalar \<Rightarrow> Scalar \<Rightarrow> Scalar \<Rightarrow> Scalar \<Rightarrow> Scalar" where
  "V_TWF sigma alpha prefactor r = prefactor * ((1 / (r\<^sup>2 / sigma\<^sup>2 - 1)) ^ 6 - alpha * (1 / (r\<^sup>2 / sigma\<^sup>2 - 1)) ^ 3)"

definition dV_TWF :: "Scalar \<Rightarrow> Scalar \<Rightarrow> Scalar \<Rightarrow> Scalar \<Rightarrow> Scalar" where
  "dV_TWF sigma alpha prefactor r = (let t = 1 / (r\<^sup>2 / sigma\<^sup>2 - 1)
    in prefactor * (- (real 6 * t ^ 6 / (r\<^sup>2 / sigma\<^sup>2 - 1)) * (2 * r / sigma\<^sup>2)
                    - alpha * (- (real 3 * t ^ 3 / (r\<^sup>2 / sigma\<^sup>2 - 1)) * (2 * r / sigma\<^sup>2))))"

lemma V_TWF_deriv:
  assumes "r\<^sup>2 / sigma\<^sup>2 - 1 \<noteq> 0"
  shows "(V_TWF sigma alpha prefactor has_real_derivative dV_TWF sigma alpha prefactor r) (at r)"
proof -
  have g: "((\<lambda>r. r\<^sup>2 / sigma\<^sup>2 - 1) has_real_derivative 2 * r / sigma\<^sup>2) (at r)"
    using DERIV_diff [OF DERIV_cdivide [OF DERIV_square, of "sigma\<^sup>2"] DERIV_const, of 1 r] by simp
  show ?thesis unfolding V_TWF_def [abs_def] dV_TWF_def Let_def
    by (intro DERIV_cmult DERIV_diff DERIV_chain2 [OF DERIV_inverse_power [OF assms] g])
qed

lemma TWF_value:
  assumes "0 < r" and "r < rc" and "sigma * sigma < r * r" and "sigma \<noteq> 0"
  shows "EvaluatorPairTWF infinity sigma alpha prefactor (r * r) (rc * rc) False
    = Some (- dV_TWF sigma alpha prefactor r / r, V_TWF sigma alpha prefactor r)"
proof -
  define t where "t = 1 / (r\<^sup>2 / sigma\<^sup>2 - 1)"
  have t: "1 / (r * r / (sigma * sigma) - 1) = t" "x / (r\<^sup>2 / sigma\<^sup>2 - 1) = x * t" for x
    by (simp_all add: t_def power2_eq_square)
  show ?thesis using assms
    unfolding EvaluatorPairTWF_def Let_def t V_TWF_def dV_TWF_def
    by (simp add: t(2) power2_eq_square not_le) (simp add: field_simps eval_nat_numeral)
qed

interpretation twf: central_potential "EvaluatorPairTWF infinity sigma alpha prefactor" "\<lambda>_. V_TWF sigma alpha prefactor"
    "\<lambda>rc r. 0 < r \<and> r < rc \<and> sigma * sigma < r * r \<and> sigma \<noteq> 0" for infinity sigma alpha prefactor
proof (rule central_potentialI [where D = "\<lambda>_. dV_TWF sigma alpha prefactor"])
  fix rc r assume "0 < r \<and> r < rc \<and> sigma * sigma < r * r \<and> sigma \<noteq> 0"
  then show "(V_TWF sigma alpha prefactor has_real_derivative dV_TWF sigma alpha prefactor r) (at r)"
    by (intro V_TWF_deriv) (auto simp: power2_eq_square field_simps)
qed (auto simp: TWF_value, auto simp: EvaluatorPairTWF_def)

subsection \<open>Oscillating, charge and colloid potentials\<close>

definition V_OPP :: "Scalar \<Rightarrow> Scalar \<Rightarrow> Scalar \<Rightarrow> Scalar \<Rightarrow> Scalar \<Rightarrow> Scalar \<Rightarrow> Scalar \<Rightarrow> Scalar" where
  "V_OPP C1 C2 eta1 eta2 k phi r = C1 * r powr (- eta1) + C2 * r powr (- eta2) * cos (k * r - phi)"

definition dV_OPP :: "Scalar \<Rightarrow> Scalar \<Rightarrow> Scalar \<Rightarrow> Scalar \<Rightarrow> Scalar \<Rightarrow> Scalar \<Rightarrow> Scalar \<Rightarrow> Scalar" where
  "dV_OPP C1 C2 eta1 eta2 k phi r = - (C1 * eta1 * r powr (- eta1) / r)
    - C2 * eta2 * r powr (- eta2) / r * cos (k * r - phi) - C2 * r powr (- eta2) * (k * sin (k * r - phi))"

lemma V_OPP_deriv: "0 < r \<Longrightarrow> (V_OPP C1 C2 eta1 eta2 k phi has_real_derivative dV_OPP C1 C2 eta1 eta2 k phi r) (at r)"
  unfolding V_OPP_def [abs_def] dV_OPP_def
  by (auto intro!: derivative_eq_intros simp: powr_diff field_simps)

lemma OPP_value:
  assumes "in_range True rc r"
  shows "EvaluatorPairOPP C1 C2 eta1 eta2 k phi (r * r) (rc * rc) s
    = Some (- dV_OPP C1 C2 eta1 eta2 k phi r / r, V_OPP C1 C2 eta1 eta2 k phi r - (if s then V_OPP C1 C2 eta1 eta2 k phi rc else 0))"
  using assms by (simp add: EvaluatorPairOPP_def Let_def V_OPP_def dV_OPP_def) (simp add: field_simps)

interpretation opp: shifted_potential "EvaluatorPairOPP C1 C2 eta1 eta2 k phi" "\<lambda>_. V_OPP C1 C2 eta1 eta2 k phi" "in_range True"
    for C1 C2 eta1 eta2 k phi
  by (rule shifted_potentialI [OF _ OPP_value V_OPP_deriv]) (auto simp: EvaluatorPairOPP_def)

definition reaction_factor :: "Scalar \<Rightarrow> Scalar \<Rightarrow> Scalar" where
  "reaction_factor epsrf rc = (if epsrf = 0 then 1 / 2 else (epsrf - 1) / (2 * epsrf + 1)) / rc ^ 3"

definition V_ReactionField :: "Scalar \<Rightarrow> Scalar \<Rightarrow> Scalar \<Rightarrow> Scalar \<Rightarrow> Scalar \<Rightarrow> Scalar" where
  "V_ReactionField epsilon epsrf qiqj rc r = qiqj * epsilon * (1 / r + reaction_factor epsrf rc * r\<^sup>2)"

lemma V_ReactionField_deriv:
  "r \<noteq> 0 \<Longrightarrow> (V_ReactionField epsilon epsrf qiqj rc has_real_derivative
     qiqj * epsilon * (- (1 / (r * r)) + reaction_factor epsrf rc * (2 * r))) (at r)"
  unfolding V_ReactionField_def [abs_def]
  by (intro DERIV_cmult DERIV_add DERIV_square) (auto intro!: derivative_eq_intros)

lemma ReactionField_value:
  assumes "in_range (epsilon \<noteq> 0 \<and> qiqj \<noteq> 0) rc r"
  shows "EvaluatorPairReactionField epsilon epsrf qiqj (r * r) (rc * rc) s
    = Some (- (qiqj * epsilon * (- (1 / (r * r)) + reaction_factor epsrf rc * (2 * r))) / r,
        V_ReactionField epsilon epsrf qiqj rc r - (if s then V_ReactionField epsilon epsrf qiqj rc rc else 0))"
proof -
  have rc: "0 < rc" "0 < r" using assms by auto
  have e: "(if epsrf = 0 then 1 / 2 * (rsqrt (rc * rc) / (rc * rc)) else (epsrf - 1) / (2 * epsrf + 1) * (rsqrt (rc * rc) / (rc * rc)))
      = reaction_factor epsrf rc"
    using rc by (simp add: reaction_factor_def eval_nat_numeral)
  show ?thesis unfolding EvaluatorPairReactionField_def Let_def e V_ReactionField_def
    using assms rc by (simp add: power2_eq_square) (simp add: field_simps)
qed

interpretation reaction_field: shifted_potential "EvaluatorPairReactionField epsilon epsrf qiqj" "V_ReactionField epsilon epsrf qiqj"
    "in_range (epsilon \<noteq> 0 \<and> qiqj \<noteq> 0)" for epsilon epsrf qiqj
  by (rule shifted_potentialI [OF _ ReactionField_value V_ReactionField_deriv]) (auto simp: EvaluatorPairReactionField_def)

definition V_DPD :: "Scalar \<Rightarrow> Scalar \<Rightarrow> Scalar \<Rightarrow> Scalar" where
  "V_DPD a rc r = a * (rc - r) - 1 / 2 * (a / rc) * (rc\<^sup>2 - r\<^sup>2)"

lemma DPD_value:
  assumes "in_range True rc r"
  shows "EvaluatorPairDPDThermoDPD a (r * r) (rc * rc) s
    = Some (- (a * (r / rc - 1)) / r, V_DPD a rc r - (if s then V_DPD a rc rc else 0))"
  using assms by (auto simp: EvaluatorPairDPDThermoDPD_def Let_def V_DPD_def power2_eq_square field_simps)

interpretation dpd: shifted_potential "EvaluatorPairDPDThermoDPD a" "V_DPD a" "in_range True" for a
proof (rule shifted_potentialI [OF _ DPD_value])
  fix rc r assume "in_range True rc r"
  then show "(V_DPD a rc has_real_derivative a * (r / rc - 1)) (at r)"
    unfolding V_DPD_def [abs_def] by (auto intro!: derivative_eq_intros simp: field_simps)
qed (auto simp: EvaluatorPairDPDThermoDPD_def)

text \<open>DLVO: a screened repulsion and the van der Waals attraction of two spheres that do not touch.\<close>

definition V_DLVO :: "Scalar \<Rightarrow> Scalar \<Rightarrow> Scalar \<Rightarrow> Scalar \<Rightarrow> Scalar \<Rightarrow> Scalar \<Rightarrow> Scalar" where
  "V_DLVO kappa Z A a1 a2 r = a1 * a2 / (a1 + a2) * Z * exp (- kappa * (r - (a1 + a2)))
    - A / 6 * (2 * a1 * a2 / (r\<^sup>2 - (a1 + a2)\<^sup>2) + 2 * a1 * a2 / (r\<^sup>2 - (a1 - a2)\<^sup>2)
               + ln ((r\<^sup>2 - (a1 + a2)\<^sup>2) / (r\<^sup>2 - (a1 - a2)\<^sup>2)))"

definition dV_DLVO :: "Scalar \<Rightarrow> Scalar \<Rightarrow> Scalar \<Rightarrow> Scalar \<Rightarrow> Scalar \<Rightarrow> Scalar \<Rightarrow> Scalar" where
  "dV_DLVO kappa Z A a1 a2 r = - kappa * (a1 * a2 / (a1 + a2) * Z * exp (- kappa * (r - (a1 + a2))))
    + 32 * A / 3 * (a1 * a2) ^ 3 * r / ((r\<^sup>2 - (a1 + a2)\<^sup>2) * (r\<^sup>2 - (a1 - a2)\<^sup>2))\<^sup>2"

lemma attraction_derivative:
  fixes s m p r A :: real
  assumes "s \<noteq> 0" and "m \<noteq> 0" and "m - s = 4 * p"
  shows "A / 6 * (2 * p * - (2 * r / s\<^sup>2) + 2 * p * - (2 * r / m\<^sup>2) + (2 * r / s - 2 * r / m)) = - (32 * A / 3 * p ^ 3 * r / (s * m)\<^sup>2)"
proof -
  have p: "p = (m - s) / 4" using assms(3) by simp
  have "2 * p * - (2 * r / s\<^sup>2) + 2 * p * - (2 * r / m\<^sup>2) + (2 * r / s - 2 * r / m) = - (4 * p * r * (1 / s - 1 / m)\<^sup>2)"
    using assms(1,2) unfolding p by (simp add: field_simps power2_eq_square)
  also have "1 / s - 1 / m = 4 * p / (s * m)" using assms(1,2) unfolding p by (simp add: field_simps)
  finally show ?thesis by (simp add: power_divide) (simp add: power3_eq_cube power2_eq_square)
qed

lemma DERIV_ln_ratio:
  assumes "(f has_real_derivative f') (at r)" and "(g has_real_derivative g') (at r)" and "f r > 0" and "g r > 0"
  shows "((\<lambda>r. ln (f r / g r)) has_real_derivative f' / f r - g' / g r) (at r)"
proof -
  have "f r / g r > 0" using assms(3,4) by simp
  from DERIV_chain2 [OF DERIV_ln [OF this] DERIV_divide [OF assms(1,2)]] show ?thesis
    by (rule DERIV_cong) (use assms(3,4) in \<open>simp_all add: field_simps\<close>)
qed

lemma V_DLVO_deriv:
  assumes s: "r\<^sup>2 - (a1 + a2)\<^sup>2 > 0" and m: "r\<^sup>2 - (a1 - a2)\<^sup>2 > 0"
  shows "(V_DLVO kappa Z A a1 a2 has_real_derivative dV_DLVO kappa Z A a1 a2 r) (at r)"
proof -
  have inv: "((\<lambda>r. 2 * a1 * a2 / (r\<^sup>2 - c\<^sup>2)) has_real_derivative 2 * (a1 * a2) * - (2 * r / (r\<^sup>2 - c\<^sup>2)\<^sup>2)) (at r)"
    if "r\<^sup>2 - c\<^sup>2 > 0" for c
    using that by (auto intro!: derivative_eq_intros simp: power2_eq_square)
  have log: "((\<lambda>r. ln ((r\<^sup>2 - (a1 + a2)\<^sup>2) / (r\<^sup>2 - (a1 - a2)\<^sup>2))) has_real_derivative
      2 * r / (r\<^sup>2 - (a1 + a2)\<^sup>2) - 2 * r / (r\<^sup>2 - (a1 - a2)\<^sup>2)) (at r)"
    by (rule DERIV_ln_ratio) (use s m in \<open>auto intro!: derivative_eq_intros\<close>)
  have rep: "((\<lambda>r. a1 * a2 / (a1 + a2) * Z * exp (- kappa * (r - (a1 + a2)))) has_real_derivative
      - kappa * (a1 * a2 / (a1 + a2) * Z * exp (- kappa * (r - (a1 + a2))))) (at r)"
  proof -
    have "((\<lambda>r. exp (- kappa * (r - (a1 + a2)))) has_real_derivative exp (- kappa * (r - (a1 + a2))) * - kappa) (at r)"
      by (auto intro!: derivative_eq_intros)
    from DERIV_cmult [OF this, of "a1 * a2 / (a1 + a2) * Z"] show ?thesis by (rule DERIV_cong) simp
  qed
  have "(r\<^sup>2 - (a1 - a2)\<^sup>2) - (r\<^sup>2 - (a1 + a2)\<^sup>2) = 4 * (a1 * a2)" by (simp add: power2_eq_square algebra_simps)
  with s m have eq: "- A / 6 * (2 * (a1 * a2) * - (2 * r / (r\<^sup>2 - (a1 + a2)\<^sup>2)\<^sup>2) + 2 * (a1 * a2) * - (2 * r / (r\<^sup>2 - (a1 - a2)\<^sup>2)\<^sup>2)
      + (2 * r / (r\<^sup>2 - (a1 + a2)\<^sup>2) - 2 * r / (r\<^sup>2 - (a1 - a2)\<^sup>2)))
    = 32 * A / 3 * (a1 * a2) ^ 3 * r / ((r\<^sup>2 - (a1 + a2)\<^sup>2) * (r\<^sup>2 - (a1 - a2)\<^sup>2))\<^sup>2"
    using attraction_derivative [of "r\<^sup>2 - (a1 + a2)\<^sup>2" "r\<^sup>2 - (a1 - a2)\<^sup>2" "a1 * a2" A r] by simp
  show ?thesis unfolding V_DLVO_def [abs_def] dV_DLVO_def eq [symmetric]
    using DERIV_diff [OF rep DERIV_cmult [OF DERIV_add [OF DERIV_add [OF inv [OF s] inv [OF m]] log], of "A / 6"]]
    by (rule DERIV_cong) simp
qed

lemma DLVO_value:
  assumes "in_range (kappa \<noteq> 0 \<and> a1 > 0 \<and> a2 > 0 \<and> a1 + a2 < r) rc r"
  shows "EvaluatorPairDLVO kappa Z A a1 a2 (r * r) (rc * rc) s
    = Some (- dV_DLVO kappa Z A a1 a2 r / r, V_DLVO kappa Z A a1 a2 r - (if s then V_DLVO kappa Z A a1 a2 rc else 0))"
proof -
  have rc: "0 < rc" "0 < r" using assms by auto
  have f: "r * r * r * r + (a1 * a1 - a2 * a2) * (a1 * a1 - a2 * a2) - 2 * r * r * (a1 * a1 + a2 * a2)
      = (r * r - (a1 + a2) * (a1 + a2)) * (r * r - (a1 - a2) * (a1 - a2))"
    by (simp add: algebra_simps)
  have q: "1 / rsqrt (r * r) = r" "1 / rsqrt (rc * rc) = rc" using rc by simp_all
  have l: "ln (x * (1 / y)) = ln (x / y)" for x y :: real by simp
  have force: "kappa * (a1 * a2) * (1 / (a1 + a2)) * Z * E / r + - 32 * A / 3 * (a1 * a2) * (a1 * a2) * (a1 * a2) * (1 / D * 1 / D)
      = - (- kappa * (a1 * a2 / (a1 + a2) * Z * E) + 32 * A / 3 * (a1 * a2) ^ 3 * r / D\<^sup>2) / r" for E D
    using rc by (simp add: field_simps power2_eq_square power3_eq_cube)
  have energy: "x * (kappa * (a1 * a2) * (1 / (a1 + a2)) * Z * E / x) / kappa - a1 * a2 * (1 / S) * A / 3 - a1 * a2 * (1 / M) * A / 3 - L * A / 6
      = a1 * a2 / (a1 + a2) * Z * E - A / 6 * (2 * a1 * a2 / S + 2 * a1 * a2 / M + L)" if "x > 0" for x E S M L
  proof -
    have "x * (kappa * (a1 * a2) * (1 / (a1 + a2)) * Z * E / x) / kappa = a1 * a2 / (a1 + a2) * Z * E" using assms that by simp
    then show ?thesis by (simp add: field_simps)
  qed
  show ?thesis
    unfolding EvaluatorPairDLVO_def Let_def q using assms rc
    by (simp only: f force energy V_DLVO_def dV_DLVO_def power2_eq_square l) simp
qed

interpretation dlvo: shifted_potential "EvaluatorPairDLVO kappa Z A a1 a2" "\<lambda>_. V_DLVO kappa Z A a1 a2"
    "\<lambda>rc r. 0 < r \<and> r < rc \<and> kappa \<noteq> 0 \<and> a1 > 0 \<and> a2 > 0 \<and> a1 + a2 < r" for kappa Z A a1 a2
proof (rule shifted_potentialI [where D = "\<lambda>_. dV_DLVO kappa Z A a1 a2"])
  fix rc r assume h: "0 < r \<and> r < rc \<and> kappa \<noteq> 0 \<and> a1 > 0 \<and> a2 > 0 \<and> a1 + a2 < r"
  have "(a1 + a2)\<^sup>2 < r\<^sup>2" using h by (intro power_strict_mono) auto
  moreover have "(a1 - a2)\<^sup>2 < (a1 + a2)\<^sup>2" using h by (simp add: power2_eq_square algebra_simps)
  ultimately show "(V_DLVO kappa Z A a1 a2 has_real_derivative dV_DLVO kappa Z A a1 a2 r) (at r)"
    by (intro V_DLVO_deriv) auto
qed (auto simp: DLVO_value, auto simp: EvaluatorPairDLVO_def Let_def)

text \<open>The Fourier potential depends on the cutoff through its period.\<close>

definition fourier_sum :: "Scalar list \<Rightarrow> Scalar list \<Rightarrow> Scalar \<Rightarrow> Scalar" where
  "fourier_sum a b x = (a ! 0 - a ! 1 + a ! 2) * cos x + (2 * b ! 0 - 3 * b ! 1 + 4 * b ! 2) * sin x
    + (a ! 0 * cos (2 * x) + b ! 0 * sin (2 * x)) + (a ! 1 * cos (3 * x) + b ! 1 * sin (3 * x))
    + (a ! 2 * cos (4 * x) + b ! 2 * sin (4 * x))"

definition fourier_slope :: "Scalar list \<Rightarrow> Scalar list \<Rightarrow> Scalar \<Rightarrow> Scalar" where
  "fourier_slope a b x = - (a ! 0 - a ! 1 + a ! 2) * sin x + (2 * b ! 0 - 3 * b ! 1 + 4 * b ! 2) * cos x
    + (- 2 * a ! 0 * sin (2 * x) + 2 * b ! 0 * cos (2 * x)) + (- 3 * a ! 1 * sin (3 * x) + 3 * b ! 1 * cos (3 * x))
    + (- 4 * a ! 2 * sin (4 * x) + 4 * b ! 2 * cos (4 * x))"

definition V_Fourier :: "Scalar list \<Rightarrow> Scalar list \<Rightarrow> Scalar \<Rightarrow> Scalar \<Rightarrow> Scalar" where
  "V_Fourier a b rc r = (1 / r) ^ 12 + (1 / r) ^ 2 * fourier_sum a b (pi / rc * r)"

definition dV_Fourier :: "Scalar list \<Rightarrow> Scalar list \<Rightarrow> Scalar \<Rightarrow> Scalar \<Rightarrow> Scalar" where
  "dV_Fourier a b rc r = - (real 12 * (1 / r) ^ 12 / r) + (- (real 2 * (1 / r) ^ 2 / r) * fourier_sum a b (pi / rc * r)
    + fourier_slope a b (pi / rc * r) * (pi / rc) * (1 / r) ^ 2)"

lemma fourier_sum_deriv: "(fourier_sum a b has_real_derivative fourier_slope a b x) (at x)"
  unfolding fourier_sum_def [abs_def] fourier_slope_def
  by (auto intro!: derivative_eq_intros simp: algebra_simps)

lemma V_Fourier_deriv:
  assumes "r \<noteq> 0" shows "(V_Fourier a b rc has_real_derivative dV_Fourier a b rc r) (at r)"
proof -
  have "((\<lambda>r. fourier_sum a b (pi / rc * r)) has_real_derivative fourier_slope a b (pi / rc * r) * (pi / rc)) (at r)"
    using DERIV_chain2 [OF fourier_sum_deriv DERIV_cmult [OF DERIV_ident, of "pi / rc"]] by simp
  then show ?thesis unfolding V_Fourier_def [abs_def] dV_Fourier_def
    by (intro DERIV_add DERIV_mult DERIV_inverse_power assms)
qed

lemma Fourier_value:
  assumes "in_range True rc r"
  shows "EvaluatorPairFourier a b (r * r) (rc * rc) s = Some (- dV_Fourier a b rc r / r, V_Fourier a b rc r)"
proof -
  have rc: "0 < rc" "0 < r" "r \<noteq> 0" using assms by auto
  have loop: "[2..<5] = [2, 3, 4::nat]" by (simp add: upt_rec)
  have q: "sqrt (r * r) = r" "sqrt (rc * rc) = rc" "r * (pi / rc) = pi / rc * r" using rc by simp_all
  define x where "x = pi / rc * r"
  define k where "k = pi / rc"
  show ?thesis using assms
    unfolding EvaluatorPairFourier_def fourier_first_def Let_def loop q V_Fourier_def dV_Fourier_def
      x_def [symmetric]
    unfolding k_def [symmetric]
    by (simp add: fourier_sum_def fourier_slope_def over_r [OF rc(3)]) (intro conjI; algebra)
qed

interpretation fourier: central_potential "EvaluatorPairFourier a b" "V_Fourier a b" "in_range True" for a b
  by (rule central_potentialI [where D = "dV_Fourier a b"])
     (auto simp: Fourier_value V_Fourier_deriv, auto simp: EvaluatorPairFourier_def)

subsection \<open>Bonds and special pairs\<close>

definition V_Harmonic :: "Scalar \<Rightarrow> Scalar \<Rightarrow> Scalar \<Rightarrow> Scalar" where
  "V_Harmonic K r_0 r = 1 / 2 * K * (r - r_0)\<^sup>2"

interpretation harmonic: radial_potential "EvaluatorBondHarmonic K r_0" "V_Harmonic K r_0" "\<lambda>r. 0 < r" for K r_0
proof unfold_locales
  fix r :: Scalar assume r: "0 < r"
  have "(V_Harmonic K r_0 has_real_derivative - (r * (K * (r_0 / r - 1)))) (at r)"
    using r unfolding V_Harmonic_def [abs_def] by (auto intro!: derivative_eq_intros simp: field_simps)
  moreover have "EvaluatorBondHarmonic K r_0 (r * r) = Some (K * (r_0 / r - 1), V_Harmonic K r_0 r)"
    using r by (simp add: EvaluatorBondHarmonic_def Let_def V_Harmonic_def power2_eq_square) (simp add: algebra_simps)
  ultimately show "\<exists>f. EvaluatorBondHarmonic K r_0 (r * r) = Some (f, V_Harmonic K r_0 r)
      \<and> (V_Harmonic K r_0 has_real_derivative - (r * f)) (at r)" by blast
qed auto

lemma SpecialPairLJ_inside:
  "rsq < rcutsq \<Longrightarrow> epsilon_x_4 * sigma_6 * sigma_6 \<noteq> 0 \<Longrightarrow>
    EvaluatorSpecialPairLJ sigma_6 epsilon_x_4 rcutsq f0 e0 rsq = EvaluatorPairLJ sigma_6 epsilon_x_4 rsq rcutsq False"
  by (simp add: EvaluatorSpecialPairLJ_def EvaluatorPairLJ_def Let_def)

interpretation special_lj: radial_potential "EvaluatorSpecialPairLJ (sigma ^ 6) (4 * epsilon) (rc * rc) f0 e0"
    "V_powers 12 6 sigma epsilon" "\<lambda>r. in_range (sigma \<noteq> 0 \<and> epsilon \<noteq> 0) rc r" for sigma epsilon rc f0 e0
proof unfold_locales
  fix r assume h: "in_range (sigma \<noteq> 0 \<and> epsilon \<noteq> 0) rc r"
  then show "\<exists>f. EvaluatorSpecialPairLJ (sigma ^ 6) (4 * epsilon) (rc * rc) f0 e0 (r * r) = Some (f, V_powers 12 6 sigma epsilon r)
      \<and> (V_powers 12 6 sigma epsilon has_real_derivative - (r * f)) (at r)"
    using lj.evaluated [OF h] by (simp add: SpecialPairLJ_inside)
qed auto

definition V_Coulomb :: "Scalar \<Rightarrow> Scalar \<Rightarrow> Scalar \<Rightarrow> Scalar" where
  "V_Coulomb alpha qiqj r = alpha * (qiqj / r)"

interpretation special_coulomb: radial_potential "EvaluatorSpecialPairCoulomb alpha qiqj (rc * rc) f0 e0"
    "V_Coulomb alpha qiqj" "\<lambda>r. in_range (qiqj \<noteq> 0) rc r" for alpha qiqj rc f0 e0
proof unfold_locales
  fix r assume h: "in_range (qiqj \<noteq> 0) rc r"
  then have "(V_Coulomb alpha qiqj has_real_derivative alpha * - (qiqj / (r * r))) (at r)"
    unfolding V_Coulomb_def [abs_def] by (auto intro!: derivative_eq_intros)
  then show "\<exists>f. EvaluatorSpecialPairCoulomb alpha qiqj (rc * rc) f0 e0 (r * r) = Some (f, V_Coulomb alpha qiqj r)
      \<and> (V_Coulomb alpha qiqj has_real_derivative - (r * f)) (at r)"
    using h by (auto simp: EvaluatorSpecialPairCoulomb_def Let_def V_Coulomb_def mult_ac)
qed auto

text \<open>FENE bonds and tethers are pieces; the derivative is taken off the points where the pieces meet.\<close>

lemma DERIV_if:
  assumes "(f has_real_derivative D) (at r)" and "(g has_real_derivative E) (at r)" and "isCont h r" and "h r \<noteq> (0::real)"
  shows "((\<lambda>x. if h x < 0 then f x else g x) has_real_derivative (if h r < 0 then D else E)) (at r)"
proof (cases "h r < 0")
  case True
  have "eventually (\<lambda>x. h x < 0) (at r)" using assms(3) True unfolding isCont_def by (rule order_tendstoD)
  then have "eventually (\<lambda>x. f x = (if h x < 0 then f x else g x)) (nhds r)"
    using True by (auto simp: eventually_nhds_conv_at elim: eventually_mono)
  with assms(1) True show ?thesis using DERIV_cong_ev [of r r f] by simp
next
  case False
  then have "0 < h r" using assms(4) by simp
  then have "eventually (\<lambda>x. 0 < h x) (at r)" using assms(3) unfolding isCont_def by (metis order_tendstoD(1))
  then have "eventually (\<lambda>x. g x = (if h x < 0 then f x else g x)) (nhds r)"
    using False by (auto simp: eventually_nhds_conv_at elim: eventually_mono)
  with assms(2) False show ?thesis using DERIV_cong_ev [of r r g] by simp
qed

definition V_WCA :: "Scalar \<Rightarrow> Scalar \<Rightarrow> Scalar \<Rightarrow> Scalar" where
  "V_WCA sigma epsilon q = (if q ^ 6 - 2 * sigma ^ 6 < 0 then V_powers 12 6 sigma epsilon q + epsilon else 0)"

definition dV_WCA :: "Scalar \<Rightarrow> Scalar \<Rightarrow> Scalar \<Rightarrow> Scalar" where
  "dV_WCA sigma epsilon q = (if q ^ 6 - 2 * sigma ^ 6 < 0 then dV_powers 12 6 sigma epsilon q else 0)"

lemma V_WCA_deriv:
  assumes "q \<noteq> 0" and "q ^ 6 \<noteq> 2 * sigma ^ 6"
  shows "(V_WCA sigma epsilon has_real_derivative dV_WCA sigma epsilon q) (at q)"
  unfolding V_WCA_def [abs_def] dV_WCA_def
proof (rule DERIV_if)
  show "((\<lambda>q. V_powers 12 6 sigma epsilon q + epsilon) has_real_derivative dV_powers 12 6 sigma epsilon q) (at q)"
    using DERIV_add [OF V_powers_deriv DERIV_const, OF assms(1)] by simp
qed (use assms in auto)

definition V_FENE :: "Scalar \<Rightarrow> Scalar \<Rightarrow> Scalar \<Rightarrow> Scalar \<Rightarrow> Scalar \<Rightarrow> Scalar \<Rightarrow> Scalar" where
  "V_FENE K r_0 sigma epsilon delta r =
    V_WCA sigma epsilon (r - delta) - 1 / 2 * K * r_0\<^sup>2 * ln (1 - ((r - delta) / r_0)\<^sup>2)"

definition dV_FENE :: "Scalar \<Rightarrow> Scalar \<Rightarrow> Scalar \<Rightarrow> Scalar \<Rightarrow> Scalar \<Rightarrow> Scalar \<Rightarrow> Scalar" where
  "dV_FENE K r_0 sigma epsilon delta r =
    dV_WCA sigma epsilon (r - delta) + K * (r - delta) / (1 - ((r - delta) / r_0)\<^sup>2)"

abbreviation FENE_range :: "Scalar \<Rightarrow> Scalar \<Rightarrow> Scalar \<Rightarrow> Scalar \<Rightarrow> Scalar \<Rightarrow> bool" where
  "FENE_range r_0 sigma epsilon delta \<equiv> (\<lambda>r. 0 < r \<and> 0 < r - delta \<and> r - delta < r_0
    \<and> (r - delta) ^ 6 \<noteq> 2 * sigma ^ 6 \<and> sigma \<noteq> 0 \<and> epsilon \<noteq> 0)"

lemma FENE_log_deriv:
  assumes "0 < r_0" and "(q / r_0)\<^sup>2 < 1"
  shows "((\<lambda>q. 1 / 2 * K * r_0\<^sup>2 * ln (1 - (q / r_0)\<^sup>2)) has_real_derivative - (K * q / (1 - (q / r_0)\<^sup>2))) (at q)"
proof -
  have w: "0 < 1 - (q / r_0)\<^sup>2" using assms by simp
  have "((\<lambda>q. 1 - (q / r_0)\<^sup>2) has_real_derivative - (2 * q / r_0\<^sup>2)) (at q)"
    using DERIV_diff [OF DERIV_const DERIV_cdivide [OF DERIV_square, of "r_0\<^sup>2" q], of 1] by (simp add: power_divide)
  from DERIV_cmult [OF DERIV_chain2 [OF DERIV_ln [OF w] this], of "1 / 2 * K * r_0\<^sup>2"] show ?thesis
  proof (rule DERIV_cong)
    have cancel: "1 / 2 * K * c * (inverse w * - (2 * q / c)) = - (K * q / w)" if "c \<noteq> 0" for w c
      using that by (cases "w = 0") (simp_all add: field_simps)
    show "1 / 2 * K * r_0\<^sup>2 * (inverse (1 - (q / r_0)\<^sup>2) * - (2 * q / r_0\<^sup>2)) = - (K * q / (1 - (q / r_0)\<^sup>2))"
      by (rule cancel) (use assms(1) in simp)
  qed
qed

lemma V_FENE_deriv:
  assumes "FENE_range r_0 sigma epsilon delta r"
  shows "(V_FENE K r_0 sigma epsilon delta has_real_derivative dV_FENE K r_0 sigma epsilon delta r) (at r)"
proof -
  have "((r - delta) / r_0)\<^sup>2 < 1" using assms by (simp add: power_less_one_iff divide_less_eq)
  then have "((\<lambda>q. 1 / 2 * K * r_0\<^sup>2 * ln (1 - (q / r_0)\<^sup>2)) has_real_derivative
      - (K * (r - delta) / (1 - ((r - delta) / r_0)\<^sup>2))) (at (r - delta))"
    using assms by (intro FENE_log_deriv) auto
  from DERIV_shift_left [OF DERIV_diff [OF V_WCA_deriv this, of sigma epsilon]] show ?thesis
    using assms unfolding V_FENE_def [abs_def] dV_FENE_def by simp
qed

lemma LJ_value_divr:
  assumes "0 < q" and "u = 1 / (q * q)"
  shows "u * (u * u * u) * (12 * (4 * epsilon * sigma ^ 6 * sigma ^ 6) * (u * u * u) - 6 * (4 * epsilon * sigma ^ 6))
      = - dV_powers 12 6 sigma epsilon q / q"
    and "u * u * u * (4 * epsilon * sigma ^ 6 * sigma ^ 6 * (u * u * u) - 4 * epsilon * sigma ^ 6) = V_powers 12 6 sigma epsilon q"
  using assms(1) unfolding assms(2)
  by (simp_all add: dV_powers_def V_powers_def over_r power_mult_distrib) algebra+

lemma FENE_value:
  assumes h: "FENE_range r_0 sigma epsilon delta r"
  shows "EvaluatorBondFENE K r_0 (sigma ^ 6) (4 * epsilon) delta (r * r)
    = Some (- dV_FENE K r_0 sigma epsilon delta r / r, V_FENE K r_0 sigma epsilon delta r)"
proof -
  define q where "q = r - delta"
  define u where "u = 1 / (q * q)"
  define lj2 where "lj2 = 4 * epsilon * sigma ^ 6"
  define lj1 where "lj1 = lj2 * sigma ^ 6"
  have q: "0 < q" "q < r_0" "0 < r" "sqrt (r * r) = r" using h by (simp_all add: q_def)
  have c: "lj1 \<noteq> 0" "lj2 / lj1 = 1 / sigma ^ 6" "lj2 * lj2 / 4 / lj1 = epsilon"
    using h by (simp_all add: lj1_def lj2_def)
  have u6: "u * u * u = 1 / q ^ 6" by (simp add: u_def eval_nat_numeral)
  have "0 < q ^ 6" "0 < sigma ^ 6" using q h by (simp_all add: zero_less_power_eq)
  then have wca: "lj2 / lj1 / 2 < u * u * u \<longleftrightarrow> q ^ 6 - 2 * sigma ^ 6 < 0"
    unfolding u6 c(2) by (simp add: field_simps)
  have k: "\<not> r_0 * r_0 \<le> q * q" using q by (simp add: not_le)
  have e: "q * q / r_0\<^sup>2 = (q / r_0)\<^sup>2" "r_0 * r_0 = r_0\<^sup>2" by (simp_all add: power2_eq_square)
  have cancel: "- D / q * (q / r) = - D / r" for D using q by simp
  have add: "- D / r + - K / w * (q / r) = - (D + K * q / w) / r" for D w by (simp add: add_divide_distrib diff_divide_distrib)
  note lj = LJ_value_divr [OF q(1) u_def, where sigma = sigma and epsilon = epsilon, folded lj2_def lj1_def]
  show ?thesis
    unfolding EvaluatorBondFENE_def Let_def q(4) lj2_def [symmetric] lj1_def [symmetric]
      q_def [symmetric] u_def [symmetric] V_FENE_def dV_FENE_def V_WCA_def dV_WCA_def wca
    using c(1) k by (cases "q ^ 6 - 2 * sigma ^ 6 < 0"; cases "K = 0")
      (simp_all only: lj c(3) e cancel add prod.case if_False if_True simp_thms, simp_all)
qed

lemma radial_potentialI:
  assumes "\<And>r. ok r \<Longrightarrow> 0 < r"
    and "\<And>r. ok r \<Longrightarrow> ev (r * r) = Some (- D r / r, V r)"
    and "\<And>r. ok r \<Longrightarrow> (V has_real_derivative D r) (at r)"
  shows "radial_potential ev V ok"
proof unfold_locales
  fix r assume h: "ok r"
  have "- (r * (- D r / r)) = D r" using assms(1) [OF h] by simp
  with assms(2,3) [OF h]
  show "\<exists>f. ev (r * r) = Some (f, V r) \<and> (V has_real_derivative - (r * f)) (at r)" by auto
qed (rule assms(1))

interpretation fene: radial_potential "EvaluatorBondFENE K r_0 (sigma ^ 6) (4 * epsilon) delta"
    "V_FENE K r_0 sigma epsilon delta" "FENE_range r_0 sigma epsilon delta" for K r_0 sigma epsilon delta
  by (rule radial_potentialI [OF _ FENE_value V_FENE_deriv]) auto

definition V_Tether :: "Scalar \<Rightarrow> Scalar \<Rightarrow> Scalar \<Rightarrow> Scalar \<Rightarrow> Scalar \<Rightarrow> Scalar \<Rightarrow> Scalar" where
  "V_Tether k_b l_min l_c1 l_c0 l_max r =
    (if l_c0 - r < 0 then k_b * (exp (1 / (l_c0 - r)) / (l_max - r)) else 0)
    + (if r - l_c1 < 0 then k_b * (exp (1 / (r - l_c1)) / (r - l_min)) else 0)"

definition dV_Tether :: "Scalar \<Rightarrow> Scalar \<Rightarrow> Scalar \<Rightarrow> Scalar \<Rightarrow> Scalar \<Rightarrow> Scalar \<Rightarrow> Scalar" where
  "dV_Tether k_b l_min l_c1 l_c0 l_max r =
    (if l_c0 - r < 0
     then k_b * (exp (1 / (l_c0 - r)) * (1 / (l_c0 - r)\<^sup>2) / (l_max - r) + exp (1 / (l_c0 - r)) / (l_max - r)\<^sup>2) else 0)
    + (if r - l_c1 < 0
       then k_b * (- (exp (1 / (r - l_c1)) * (1 / (r - l_c1)\<^sup>2) / (r - l_min)) - exp (1 / (r - l_c1)) / (r - l_min)\<^sup>2) else 0)"

abbreviation tether_range :: "Scalar \<Rightarrow> Scalar \<Rightarrow> Scalar \<Rightarrow> Scalar \<Rightarrow> Scalar \<Rightarrow> Scalar \<Rightarrow> bool" where
  "tether_range k_b l_min l_c1 l_c0 l_max \<equiv> (\<lambda>r. 0 \<le> l_min \<and> l_min < r \<and> r < l_max \<and> r \<noteq> l_c0 \<and> r \<noteq> l_c1 \<and> k_b \<noteq> 0)"

lemma DERIV_quotient_exp:
  assumes "c \<noteq> (r::real)" and "l \<noteq> r"
  shows "((\<lambda>r. k * (exp (1 / (c - r)) / (l - r))) has_real_derivative
      k * (exp (1 / (c - r)) * (1 / (c - r)\<^sup>2) / (l - r) + exp (1 / (c - r)) / (l - r)\<^sup>2)) (at r)"
proof (rule DERIV_cmult)
  have "((\<lambda>r. exp (1 / (c - r))) has_real_derivative exp (1 / (c - r)) * (1 / (c - r)\<^sup>2)) (at r)"
    using assms by (auto intro!: derivative_eq_intros simp: power2_eq_square)
  moreover have "((\<lambda>r. l - r) has_real_derivative - 1) (at r)" by (auto intro!: derivative_eq_intros)
  ultimately show "((\<lambda>r. exp (1 / (c - r)) / (l - r)) has_real_derivative
      exp (1 / (c - r)) * (1 / (c - r)\<^sup>2) / (l - r) + exp (1 / (c - r)) / (l - r)\<^sup>2) (at r)"
  proof (rule DERIV_cong [OF DERIV_divide])
    have "(E * w * y - E * - 1) / (y * y) = E * w / y + E / y\<^sup>2" if "y \<noteq> 0" for E w y :: real
      using that by (simp add: power2_eq_square add_divide_distrib)
    then show "(exp (1 / (c - r)) * (1 / (c - r)\<^sup>2) * (l - r) - exp (1 / (c - r)) * - 1) / ((l - r) * (l - r))
        = exp (1 / (c - r)) * (1 / (c - r)\<^sup>2) / (l - r) + exp (1 / (c - r)) / (l - r)\<^sup>2"
      using assms(2) by (metis right_minus_eq)
  qed (use assms in simp)
qed

lemma V_Tether_deriv:
  assumes h: "tether_range k_b l_min l_c1 l_c0 l_max r"
  shows "(V_Tether k_b l_min l_c1 l_c0 l_max has_real_derivative dV_Tether k_b l_min l_c1 l_c0 l_max r) (at r)"
proof -
  have "((\<lambda>r. k_b * (exp (1 / (l_c0 - r)) / (l_max - r))) has_real_derivative
      k_b * (exp (1 / (l_c0 - r)) * (1 / (l_c0 - r)\<^sup>2) / (l_max - r) + exp (1 / (l_c0 - r)) / (l_max - r)\<^sup>2)) (at r)"
    using h by (intro DERIV_quotient_exp) auto
  moreover have "((\<lambda>r. k_b * (exp (1 / (r - l_c1)) / (r - l_min))) has_real_derivative
      k_b * (- (exp (1 / (r - l_c1)) * (1 / (r - l_c1)\<^sup>2) / (r - l_min)) - exp (1 / (r - l_c1)) / (r - l_min)\<^sup>2)) (at r)"
  proof -
    have e: "((\<lambda>r. exp (1 / (r - l_c1))) has_real_derivative exp (1 / (r - l_c1)) * - (1 / (r - l_c1)\<^sup>2)) (at r)"
      using h by (auto intro!: derivative_eq_intros simp: power2_eq_square)
    have l: "((\<lambda>r. r - l_min) has_real_derivative 1) (at r)" by (auto intro!: derivative_eq_intros)
    have q: "(E * - w * y - E * 1) / (y * y) = - (E * w / y) - E / y\<^sup>2" if "y \<noteq> 0" for E w y :: real
      using that by (simp add: power2_eq_square diff_divide_distrib)
    have n: "r - l_min \<noteq> 0" using h by simp
    show ?thesis using DERIV_cmult [OF DERIV_cong [OF DERIV_divide [OF e l n] q [OF n]]] .
  qed
  ultimately show ?thesis unfolding V_Tether_def [abs_def] dV_Tether_def
    by (intro DERIV_add DERIV_if DERIV_const) (use h in auto)
qed

lemma Tether_value:
  assumes h: "tether_range k_b l_min l_c1 l_c0 l_max r"
  shows "EvaluatorBondTether k_b l_min l_c1 l_c0 l_max f0 e0 (r * r)
    = Some (- dV_Tether k_b l_min l_c1 l_c0 l_max r / r, V_Tether k_b l_min l_c1 l_c0 l_max r)"
proof -
  have r: "0 < r" "sqrt (r * r) = r" "\<not> l_max * l_max \<le> r * r" "\<not> r * r \<le> l_min * l_min"
    using h by (auto simp: not_le intro!: mult_strict_mono)
  have att: "k_b * (((r - l_max) * E / c / c - E) / (l_max - r) / (l_max - r))
      = - (k_b * (E * (1 / c\<^sup>2) / (l_max - r) + E / (l_max - r)\<^sup>2))" for E c
  proof -
    have "((- y) * E / c / c - E) / y / y = - (E * (1 / c\<^sup>2) / y + E / y\<^sup>2)" if "y \<noteq> 0" for y :: real
      using that by (cases "c = 0") (simp_all add: field_simps power2_eq_square)
    then have eq: "((r - l_max) * E / c / c - E) / (l_max - r) / (l_max - r)
        = - (E * (1 / c\<^sup>2) / (l_max - r) + E / (l_max - r)\<^sup>2)" using h by (metis minus_diff_eq right_minus_eq less_irrefl)
    show ?thesis unfolding eq by (rule mult_minus_right)
  qed
  have rep: "k_b * (((r - l_min) * E / c / c + E) / (r - l_min) / (r - l_min))
      = - (k_b * (- (E * (1 / c\<^sup>2) / (r - l_min)) - E / (r - l_min)\<^sup>2))" for E c
  proof -
    have "(y * E / c / c + E) / y / y = - (- (E * (1 / c\<^sup>2) / y) - E / y\<^sup>2)" if "y \<noteq> 0" for y :: real
      using that by (cases "c = 0") (simp_all add: field_simps power2_eq_square)
    then have eq: "((r - l_min) * E / c / c + E) / (r - l_min) / (r - l_min)
        = - (- (E * (1 / c\<^sup>2) / (r - l_min)) - E / (r - l_min)\<^sup>2)" using h by (metis right_minus_eq less_irrefl)
    show ?thesis unfolding eq by (rule mult_minus_right)
  qed
  show ?thesis
    unfolding EvaluatorBondTether_def Let_def r(2) V_Tether_def dV_Tether_def att rep using h r(3,4)
    by (auto simp: add_divide_distrib diff_divide_distrib)
qed

interpretation tether: radial_potential "EvaluatorBondTether k_b l_min l_c1 l_c0 l_max f0 e0"
    "V_Tether k_b l_min l_c1 l_c0 l_max" "tether_range k_b l_min l_c1 l_c0 l_max" for k_b l_min l_c1 l_c0 l_max f0 e0
  by (rule radial_potentialI [OF _ Tether_value V_Tether_deriv]) auto

subsection \<open>Ewald summation\<close>

text \<open>
  The complementary error function has the derivative \<open>- 2 exp (- x\<^sup>2) / sqrt pi\<close>; with it the short-ranged part
  of the Ewald sum and its force agree.
\<close>

definition V_Ewald :: "(Scalar \<Rightarrow> Scalar) \<Rightarrow> Scalar \<Rightarrow> Scalar \<Rightarrow> Scalar \<Rightarrow> Scalar \<Rightarrow> Scalar" where
  "V_Ewald erfc kappa alpha qiqj r = qiqj * (1 / 2 * (erfc (kappa * r + alpha / (2 * kappa)) * exp (alpha * r)
    + erfc (kappa * r - alpha / (2 * kappa)) * exp (- alpha * r)) / r)"

definition dV_Ewald :: "(Scalar \<Rightarrow> Scalar) \<Rightarrow> Scalar \<Rightarrow> Scalar \<Rightarrow> Scalar \<Rightarrow> Scalar \<Rightarrow> Scalar" where
  "dV_Ewald erfc kappa alpha qiqj r = (let arg1 = kappa * r + alpha / (2 * kappa); arg2 = kappa * r - alpha / (2 * kappa)
    in qiqj * ((- 2 * kappa * exp (- alpha * r) * exp (- arg2 * arg2) / sqrt pi
          + 1 / 2 * alpha * exp (alpha * r) * erfc arg1 - 1 / 2 * alpha * exp (- alpha * r) * erfc arg2) / r
        - 1 / 2 * (erfc arg1 * exp (alpha * r) + erfc arg2 * exp (- alpha * r)) / (r * r)))"

lemma V_Ewald_deriv:
  assumes erfc: "\<And>x. (erfc has_real_derivative - (2 / sqrt pi * exp (- x * x))) (at x)" and "r \<noteq> 0" and "kappa \<noteq> 0"
  shows "(V_Ewald erfc kappa alpha qiqj has_real_derivative dV_Ewald erfc kappa alpha qiqj r) (at r)"
proof -
  let ?a1 = "kappa * r + alpha / (2 * kappa)" and ?a2 = "kappa * r - alpha / (2 * kappa)"
  have e: "exp (- ?a1 * ?a1) * exp (alpha * r) = exp (- ?a2 * ?a2) * exp (- alpha * r)"
    using assms(3) by (simp add: field_simps flip: exp_add)
  have d1: "((\<lambda>r. erfc (kappa * r + alpha / (2 * kappa)) * exp (alpha * r)) has_real_derivative
      - (2 / sqrt pi * exp (- ?a1 * ?a1)) * kappa * exp (alpha * r) + exp (alpha * r) * alpha * erfc ?a1) (at r)"
    by (rule DERIV_mult; rule DERIV_chain2 [OF erfc] DERIV_chain2 [OF DERIV_exp]) (auto intro!: derivative_eq_intros)
  have d2: "((\<lambda>r. erfc (kappa * r - alpha / (2 * kappa)) * exp (- alpha * r)) has_real_derivative
      - (2 / sqrt pi * exp (- ?a2 * ?a2)) * kappa * exp (- alpha * r) + exp (- alpha * r) * - alpha * erfc ?a2) (at r)"
    by (rule DERIV_mult; rule DERIV_chain2 [OF erfc] DERIV_chain2 [OF DERIV_exp]) (auto intro!: derivative_eq_intros)
  have l: "((\<lambda>r. r) has_real_derivative 1) (at r)" by (rule DERIV_ident)
  have alg: "qiqj * ((1 / 2 * (- (2 / p * X1) * kappa * E1 + E1 * alpha * C1 + (- (2 / p * X2) * kappa * E2 + E2 * - alpha * C2)) * r
        - 1 / 2 * (C1 * E1 + C2 * E2) * 1) / (r * r))
      = qiqj * ((- 2 * kappa * E2 * X2 / p + 1 / 2 * alpha * E1 * C1 - 1 / 2 * alpha * E2 * C2) / r
          - 1 / 2 * (C1 * E1 + C2 * E2) / (r * r))" if "X1 * E1 = X2 * E2" for p X1 E1 X2 E2 C1 C2 :: real
  proof -
    have "- (2 / p * X1) * kappa * E1 = - (2 / p) * kappa * (X2 * E2)" using that by (simp add: mult_ac)
    then show ?thesis using assms(2) by (simp add: diff_divide_distrib add_divide_distrib) (auto simp: field_simps)
  qed
  show ?thesis unfolding V_Ewald_def [abs_def] dV_Ewald_def Let_def
    using DERIV_cmult [OF DERIV_divide [OF DERIV_cmult [OF DERIV_add [OF d1 d2], of "1 / 2"] l assms(2)], of qiqj]
    by (rule DERIV_cong) (rule alg [OF e])
qed

lemma Ewald_value:
  assumes "in_range (qiqj \<noteq> 0) rc r"
  shows "EvaluatorPairEwald erfc kappa alpha qiqj (r * r) (rc * rc) s
    = Some (- dV_Ewald erfc kappa alpha qiqj r / r, V_Ewald erfc kappa alpha qiqj r)"
proof -
  have force: "qiqj * (1 / (r * r)) * (1 / 2 * (C1 * E1 + C2 * E2) * (1 / r) + E2 * 2 * kappa * X / p + alpha * (1 / 2) * E2 * C2 - alpha * (1 / 2) * E1 * C1)
    = - (qiqj * ((- 2 * kappa * E2 * X / p + 1 / 2 * alpha * E1 * C1 - 1 / 2 * alpha * E2 * C2) / r
        - 1 / 2 * (C1 * E1 + C2 * E2) / (r * r))) / r" for C1 C2 E1 E2 X p :: real
    using assms by (cases "p = 0") (simp_all add: field_simps)
  have q: "rsqrt (r * r) = 1 / r" "1 / (1 / r) = r" "r * r < rc * rc \<and> qiqj \<noteq> 0" using assms by simp_all
  show ?thesis unfolding EvaluatorPairEwald_def Let_def q(1,2) dV_Ewald_def V_Ewald_def using q(3)
    by (simp only: if_True force) simp
qed

lemma Ewald_potential:
  assumes "\<And>x. (erfc has_real_derivative - (2 / sqrt pi * exp (- x * x))) (at x)"
  shows "central_potential (EvaluatorPairEwald erfc kappa alpha qiqj) (\<lambda>_. V_Ewald erfc kappa alpha qiqj)
    (in_range (qiqj \<noteq> 0 \<and> kappa \<noteq> 0))"
  by (rule central_potentialI [where D = "\<lambda>_. dV_Ewald erfc kappa alpha qiqj"])
     (use assms in \<open>auto simp: Ewald_value intro: V_Ewald_deriv\<close>, auto simp: EvaluatorPairEwald_def)

subsection \<open>Long-range corrections of the Lennard-Jones potential\<close>

text \<open>
  \<open>evalEnergyLRCIntegral\<close> and \<open>evalPressureLRCIntegral\<close> are the integrals of \<open>V r\<^sup>2\<close> and of \<open>- V' r\<^sup>3\<close> from the cutoff to
  infinity: as functions of the cutoff their derivatives are the negative integrands, and they vanish at infinity.
\<close>

lemma powr_three_half: "0 < rc \<Longrightarrow> (rc * rc) powr (3 / 2) = rc ^ 3" for rc :: real
proof -
  assume rc: "0 < rc"
  have "(rc * rc) powr (3 / 2) = rc powr (3 / 2) * rc powr (3 / 2)" using rc by (simp add: powr_mult)
  also have "\<dots> = rc powr 3" by (simp flip: powr_add)
  also have "\<dots> = rc ^ 3" using rc by (simp add: powr_numeral)
  finally show ?thesis .
qed

lemma energy_integral:
  "0 < rc \<Longrightarrow> LJ_evalEnergyLRCIntegral (sigma ^ 6) (4 * epsilon) (rc * rc)
    = 4 * epsilon * (sigma ^ 12 / 9 * (1 / rc) ^ 9 - sigma ^ 6 / 3 * (1 / rc) ^ 3)"
  by (simp add: LJ_evalEnergyLRCIntegral_def Let_def powr_three_half power_one_over) (simp add: field_simps)

lemma pressure_integral:
  "0 < rc \<Longrightarrow> LJ_evalPressureLRCIntegral (sigma ^ 6) (4 * epsilon) (rc * rc)
    = 4 * epsilon * (4 * sigma ^ 12 / 3 * (1 / rc) ^ 9 - 2 * sigma ^ 6 * (1 / rc) ^ 3)"
  by (simp add: LJ_evalPressureLRCIntegral_def Let_def powr_three_half power_one_over) (simp add: field_simps)

definition lrc :: "Scalar \<Rightarrow> Scalar \<Rightarrow> Scalar \<Rightarrow> Scalar \<Rightarrow> Scalar" where
  "lrc epsilon a b r = 4 * epsilon * (a * (1 / r) ^ 9 - b * (1 / r) ^ 3)"

lemma lrc_deriv:
  assumes "r \<noteq> 0"
  shows "(lrc epsilon a b has_real_derivative
    4 * epsilon * (a * - (real 9 * (1 / r) ^ 9 / r) - b * - (real 3 * (1 / r) ^ 3 / r))) (at r)"
  unfolding lrc_def [abs_def] by (intro DERIV_cmult DERIV_diff DERIV_inverse_power assms)

lemma inverse_power_vanishes: "0 < n \<Longrightarrow> ((\<lambda>r::real. (1 / r) ^ n) \<longlongrightarrow> 0) at_top"
proof -
  assume "0 < n"
  have "((\<lambda>r::real. inverse r) \<longlongrightarrow> 0) at_top" by (rule tendsto_inverse_0_at_top [OF filterlim_ident])
  from tendsto_power [OF this, of n] show ?thesis using \<open>0 < n\<close> by (simp only: inverse_eq_divide zero_power)
qed

lemma lrc_vanishes: "(lrc epsilon a b \<longlongrightarrow> 0) at_top"
proof -
  have "((\<lambda>r. 4 * epsilon * (a * (1 / r) ^ 9 - b * (1 / r) ^ 3)) \<longlongrightarrow> 4 * epsilon * (a * 0 - b * 0)) at_top"
    by (intro tendsto_mult_left tendsto_diff inverse_power_vanishes) simp_all
  then show ?thesis by (simp add: lrc_def [abs_def])
qed

lemma same_on_positive:
  assumes "\<And>r::real. 0 < r \<Longrightarrow> F r = G r"
  shows "(G has_real_derivative D) (at rc) \<Longrightarrow> 0 < rc \<Longrightarrow> (F has_real_derivative D) (at rc)"
    and "(G \<longlongrightarrow> (l::real)) at_top \<Longrightarrow> (F \<longlongrightarrow> l) at_top"
proof -
  assume "(G has_real_derivative D) (at rc)" and rc: "0 < rc"
  from has_field_derivative_transform_within_open [OF this(1) open_greaterThan [of 0]] show "(F has_real_derivative D) (at rc)"
    using rc by (simp add: assms)
next
  assume "(G \<longlongrightarrow> l) at_top"
  moreover have "eventually (\<lambda>r. G r = F r) at_top"
    using eventually_gt_at_top [of "0::real"] by (rule eventually_mono) (simp add: assms)
  ultimately show "(F \<longlongrightarrow> l) at_top" by (rule Lim_transform_eventually)
qed

lemma energy_lrc:
  "0 < rc \<Longrightarrow> LJ_evalEnergyLRCIntegral (sigma ^ 6) (4 * epsilon) (rc * rc) = lrc epsilon (sigma ^ 12 / 9) (sigma ^ 6 / 3) rc"
  by (simp add: lrc_def energy_integral)

lemma pressure_lrc:
  "0 < rc \<Longrightarrow> LJ_evalPressureLRCIntegral (sigma ^ 6) (4 * epsilon) (rc * rc) = lrc epsilon (4 * sigma ^ 12 / 3) (2 * sigma ^ 6) rc"
  by (simp add: lrc_def pressure_integral)

lemma lrc_integrands:
  assumes "0 < rc"
  shows "4 * epsilon * (sigma ^ 12 / 9 * - (real 9 * (1 / rc) ^ 9 / rc) - sigma ^ 6 / 3 * - (real 3 * (1 / rc) ^ 3 / rc))
      = - (V_powers 12 6 sigma epsilon rc * rc\<^sup>2)"
    and "4 * epsilon * (4 * sigma ^ 12 / 3 * - (real 9 * (1 / rc) ^ 9 / rc) - 2 * sigma ^ 6 * - (real 3 * (1 / rc) ^ 3 / rc))
      = dV_powers 12 6 sigma epsilon rc * rc ^ 3"
proof -
  define X Y where "X = (1 / rc) ^ 9 / rc" and "Y = (1 / rc) ^ 3 / rc"
  have p: "(sigma / rc) ^ 12 = sigma ^ 12 * X / rc\<^sup>2" "(sigma / rc) ^ 6 = sigma ^ 6 * Y / rc\<^sup>2"
    using assms by (simp_all add: X_def Y_def field_simps flip: power_Suc power_add)
  have q: "real 9 * (1 / rc) ^ 9 / rc = 9 * X" "real 3 * (1 / rc) ^ 3 / rc = 3 * Y" by (simp_all add: X_def Y_def)
  show "4 * epsilon * (sigma ^ 12 / 9 * - (real 9 * (1 / rc) ^ 9 / rc) - sigma ^ 6 / 3 * - (real 3 * (1 / rc) ^ 3 / rc))
      = - (V_powers 12 6 sigma epsilon rc * rc\<^sup>2)"
    using assms unfolding V_powers_def p q by (simp add: field_simps)
  show "4 * epsilon * (4 * sigma ^ 12 / 3 * - (real 9 * (1 / rc) ^ 9 / rc) - 2 * sigma ^ 6 * - (real 3 * (1 / rc) ^ 3 / rc))
      = dV_powers 12 6 sigma epsilon rc * rc ^ 3"
    using assms unfolding dV_powers_def p q by (simp add: power3_eq_cube power2_eq_square field_simps)
qed

subsection \<open>A complementary error function\<close>

text \<open>The power series of the error function, to see that the derivative law of \<open>erfc\<close> can hold.\<close>

definition erf_coeff :: "nat \<Rightarrow> real" where
  "erf_coeff k = (- 1) ^ k / (fact k * (2 * real k + 1))"

definition erfc_series :: "real \<Rightarrow> real" where
  "erfc_series x = 1 - 2 / sqrt pi * (x * (\<Sum>k. erf_coeff k * (x\<^sup>2) ^ k))"

lemma erf_summable: "summable (\<lambda>k. erf_coeff k * t ^ k)"
proof (rule summable_comparison_test)
  show "summable (\<lambda>k. inverse (fact k) * \<bar>t\<bar> ^ k)" by (rule summable_exp)
  have "\<bar>erf_coeff k\<bar> \<le> inverse (fact k)" for k
    by (simp add: erf_coeff_def abs_mult divide_inverse) (simp add: field_simps)
  then show "\<exists>N. \<forall>k\<ge>N. norm (erf_coeff k * t ^ k) \<le> inverse (fact k) * \<bar>t\<bar> ^ k"
    by (auto simp: abs_mult power_abs intro!: exI [of _ 0] mult_right_mono)
qed

lemma erf_sum:
  "(\<Sum>k. erf_coeff k * t ^ k) + 2 * (t * (\<Sum>k. diffs erf_coeff k * t ^ k)) = exp (- t)"
proof -
  let ?G = "\<Sum>k. erf_coeff k * t ^ k" and ?H = "\<Sum>k. diffs erf_coeff k * t ^ k"
  have "summable (\<lambda>k. diffs erf_coeff k * t ^ k)"
    by (rule termdiff_converges_all) (rule erf_summable)
  from diffs_equiv [OF this] have "(\<lambda>k. t * (real k * erf_coeff k * t ^ (k - Suc 0))) sums (t * ?H)"
    by (rule sums_mult)
  moreover have "t * (real k * erf_coeff k * t ^ (k - Suc 0)) = real k * erf_coeff k * t ^ k" for k
    by (cases k) simp_all
  ultimately have h: "(\<lambda>k. real k * erf_coeff k * t ^ k) sums (t * ?H)" by simp
  have "(\<lambda>k. erf_coeff k * t ^ k + 2 * (real k * erf_coeff k * t ^ k)) sums (?G + 2 * (t * ?H))"
    by (intro sums_add sums_mult h summable_sums erf_summable)
  moreover have "erf_coeff k * t ^ k + 2 * (real k * erf_coeff k * t ^ k) = (- t) ^ k /\<^sub>R fact k" for k
  proof -
    have "erf_coeff k * t ^ k + 2 * (real k * erf_coeff k * t ^ k) = (2 * real k + 1) * erf_coeff k * t ^ k"
      by (simp add: algebra_simps)
    also have "(2 * real k + 1) * erf_coeff k = (- 1) ^ k / fact k" by (simp add: erf_coeff_def)
    also have "(- 1) ^ k / fact k * t ^ k = (- t) ^ k /\<^sub>R fact k" by (simp add: power_minus [of t] divide_inverse)
    finally show ?thesis .
  qed
  ultimately have "(\<lambda>k. (- t) ^ k /\<^sub>R fact k) sums (?G + 2 * (t * ?H))" by simp
  with exp_converges [of "- t"] show ?thesis by (rule sums_unique2 [symmetric])
qed

lemma erfc_series_deriv: "(erfc_series has_real_derivative - (2 / sqrt pi * exp (- x * x))) (at x)"
proof -
  let ?H = "\<Sum>k. diffs erf_coeff k * (x\<^sup>2) ^ k"
  have "((\<lambda>t. \<Sum>k. erf_coeff k * t ^ k) has_real_derivative ?H) (at (x\<^sup>2))"
    by (rule termdiffs_strong_converges_everywhere) (rule erf_summable)
  from DERIV_chain2 [OF this DERIV_square]
  have "((\<lambda>x. \<Sum>k. erf_coeff k * (x\<^sup>2) ^ k) has_real_derivative ?H * (2 * x)) (at x)" .
  from DERIV_diff [OF DERIV_const DERIV_cmult [OF DERIV_mult [OF DERIV_ident this], of "2 / sqrt pi"], of 1]
  show ?thesis unfolding erfc_series_def [abs_def]
    by (rule DERIV_cong) (use erf_sum [of "x\<^sup>2"] in \<open>simp add: power2_eq_square algebra_simps\<close>)
qed

end
