(* ===== verification/Pair_Correctness.thy ===== *)
theory Pair_Correctness
  imports Pair_Potentials
begin

section \<open>Correctness of the pair, bond and special pair evaluators\<close>

text \<open>
  The contract of \<^verbatim>\<open>EvaluatorPairLJ.h\<close> for all evaluators at once: \<open>force_divr\<close> is \<open>- V'(r) / r\<close> and \<open>pair_eng\<close> is \<open>V(r)\<close>, or
  \<open>V(r) - V(r_cut)\<close> with \<open>energy_shift\<close>. The statements are over the parameters of the user interface and rest on the
  interpretations of the previous theory. The table potential, which interpolates, is at the end.
\<close>

definition computes :: "pair_result \<Rightarrow> (Scalar \<Rightarrow> Scalar) \<Rightarrow> Scalar \<Rightarrow> bool" where
  "computes res V r \<longleftrightarrow> (\<exists>f. res = Some (f, V r) \<and> (V has_real_derivative - (r * f)) (at r))"

definition shifted_by :: "bool \<Rightarrow> (Scalar \<Rightarrow> Scalar) \<Rightarrow> Scalar \<Rightarrow> Scalar \<Rightarrow> Scalar" where
  "shifted_by s V rc = (\<lambda>r. V r - (if s then V rc else 0))"

lemma LJ_params_eq: "LJ_params sigma epsilon = (sigma ^ 6, 4 * epsilon)"
  by (simp add: LJ_params_def eval_nat_numeral mult_ac)

lemma radial_computes: "radial_potential ev V ok \<Longrightarrow> ok r \<Longrightarrow> computes (ev (r * r)) V r"
  using radial_potential.evaluated [of ev V ok r] by (simp add: computes_def)

lemma central_computes: "central_potential ev V ok \<Longrightarrow> ok rc r \<Longrightarrow> computes (ev (r * r) (rc * rc) False) (V rc) r"
  using central_potential.evaluated [of ev V ok rc r] by (simp add: computes_def)

lemma shifted_computes:
  assumes "shifted_potential ev V ok" and "ok rc r"
  shows "computes (ev (r * r) (rc * rc) s) (shifted_by s (V rc) rc) r"
proof (cases s)
  case True
  then show ?thesis using shifted_potential.shifted_evaluated [OF assms] by (simp add: computes_def shifted_by_def)
next
  case False
  then show ?thesis using central_computes [OF shifted_potential.axioms(1) [OF assms(1)] assms(2)]
    by (simp add: shifted_by_def)
qed

text \<open>
  C12: The Lennard-Jones, 8-4, 12-8, force-shifted and thermostatted Lennard-Jones evaluators compute their documented
  potentials and the forces of these potentials, with the energy shifted to zero at the cutoff on request.
\<close>

theorem lennard_jones_family:
  assumes "0 < r" and "r < rc" and "sigma \<noteq> 0" and "epsilon \<noteq> 0"
  shows "computes (case_prod EvaluatorPairLJ (LJ_params sigma epsilon) (r * r) (rc * rc) s)
           (shifted_by s (V_powers 12 6 sigma epsilon) rc) r
    \<and> computes (case_prod EvaluatorPairDPDThermoLJ (LJ_params sigma epsilon) (r * r) (rc * rc) s)
           (shifted_by s (V_powers 12 6 sigma epsilon) rc) r
    \<and> computes (EvaluatorPairLJ0804 (sigma ^ 4) (4 * epsilon) (r * r) (rc * rc) s)
           (shifted_by s (V_powers 8 4 sigma epsilon) rc) r
    \<and> computes (EvaluatorPairLJ1208 (sigma ^ 4) (4 * epsilon) (r * r) (rc * rc) s)
           (shifted_by s (V_powers 12 8 sigma epsilon) rc) r
    \<and> computes (case_prod EvaluatorPairForceShiftedLJ (LJ_params sigma epsilon) (r * r) (rc * rc) s)
           (shifted_by s (V_ForceShifted sigma epsilon rc) rc) r"
proof -
  have ok: "in_range (sigma \<noteq> 0 \<and> epsilon \<noteq> 0) rc r" using assms by simp
  show ?thesis unfolding LJ_params_eq DPDThermoLJ_is_LJ prod.case
    using shifted_computes [OF lj.shifted_potential_axioms ok] shifted_computes [OF lj0804.shifted_potential_axioms ok]
      shifted_computes [OF lj1208.shifted_potential_axioms ok] shifted_computes [OF force_shifted_lj.shifted_potential_axioms ok]
    by blast
qed

theorem lennard_jones_family_witness:
  "computes (case_prod EvaluatorPairLJ (LJ_params 1 2) (2 * 2) (3 * 3) True) (shifted_by True (V_powers 12 6 1 2) 3) 2"
  using lennard_jones_family [of 2 3 1 2 True] by simp

lemma Mie_documented:
  "0 < r \<Longrightarrow> 0 < sg \<Longrightarrow> (case Mie_params n m ep sg of (d1, d2, n', m') \<Rightarrow>
     V_Mie d1 d2 n' m' r = n / (n - m) * (n / m) powr (m / (n - m)) * ep * ((sg / r) powr n - (sg / r) powr m))"
  by (simp add: Mie_params_def V_Mie_def Let_def powr_divide right_diff_distrib)

text \<open>
  C13: The Gauss, Yukawa, Morse, Moliere, Buckingham, Mie, oscillating, reaction field, DLVO and dissipative particle dynamics
  evaluators compute their documented potentials and forces, with the energy shifted to zero at the cutoff on request.
\<close>

theorem shifted_evaluators:
  assumes "0 < r" and "r < rc"
  shows "(sg \<noteq> 0 \<longrightarrow> computes (EvaluatorPairGauss ep sg (r * r) (rc * rc) s) (shifted_by s (V_Gauss ep sg) rc) r)
    \<and> (ep \<noteq> 0 \<longrightarrow> computes (EvaluatorPairYukawa ep kappa (r * r) (rc * rc) s) (shifted_by s (V_screened ep kappa) rc) r)
    \<and> computes (EvaluatorPairMorse D0 alpha r0 (r * r) (rc * rc) s) (shifted_by s (V_Morse D0 alpha r0) rc) r
    \<and> (Zsq \<noteq> 0 \<and> aF \<noteq> 0 \<longrightarrow> computes (EvaluatorPairMoliere Zsq aF (r * r) (rc * rc) s) (shifted_by s (V_Moliere Zsq aF) rc) r)
    \<and> (rho > 0 \<longrightarrow> computes (EvaluatorPairBuckingham A rho C (r * r) (rc * rc) s) (shifted_by s (V_Buckingham A rho C) rc) r)
    \<and> (c1 \<noteq> 0 \<longrightarrow> computes (EvaluatorPairMie c1 c2 n m (r * r) (rc * rc) s) (shifted_by s (V_Mie c1 c2 n m) rc) r)
    \<and> (sg > 0 \<longrightarrow> (case Mie_params n m ep sg of (d1, d2, n', m') \<Rightarrow>
         V_Mie d1 d2 n' m' r = n / (n - m) * (n / m) powr (m / (n - m)) * ep * ((sg / r) powr n - (sg / r) powr m)))
    \<and> computes (EvaluatorPairOPP C1 C2 eta1 eta2 k phi (r * r) (rc * rc) s) (shifted_by s (V_OPP C1 C2 eta1 eta2 k phi) rc) r
    \<and> (ep \<noteq> 0 \<and> qiqj \<noteq> 0 \<longrightarrow>
         computes (EvaluatorPairReactionField ep epsrf qiqj (r * r) (rc * rc) s) (shifted_by s (V_ReactionField ep epsrf qiqj rc) rc) r)
    \<and> (kappa \<noteq> 0 \<and> a1 > 0 \<and> a2 > 0 \<and> a1 + a2 < r \<longrightarrow>
         computes (EvaluatorPairDLVO kappa Z A a1 a2 (r * r) (rc * rc) s) (shifted_by s (V_DLVO kappa Z A a1 a2) rc) r)
    \<and> computes (EvaluatorPairDPDThermoDPD A (r * r) (rc * rc) s) (shifted_by s (V_DPD A rc) rc) r"
  using assms by (intro conjI impI)
    (rule Mie_documented shifted_computes [OF gauss.shifted_potential_axioms] shifted_computes [OF yukawa.shifted_potential_axioms]
       shifted_computes [OF morse.shifted_potential_axioms] shifted_computes [OF moliere.shifted_potential_axioms]
       shifted_computes [OF buckingham.shifted_potential_axioms] shifted_computes [OF mie.shifted_potential_axioms]
       shifted_computes [OF opp.shifted_potential_axioms] shifted_computes [OF reaction_field.shifted_potential_axioms]
       shifted_computes [OF dlvo.shifted_potential_axioms] shifted_computes [OF dpd.shifted_potential_axioms]; simp)+

theorem shifted_evaluators_witness:
  "computes (EvaluatorPairDLVO 1 1 1 (1 / 2) (1 / 2) (2 * 2) (3 * 3) True) (shifted_by True (V_DLVO 1 1 1 (1 / 2) (1 / 2)) 3) 2
    \<and> computes (EvaluatorPairMorse 5 3 1 (2 * 2) (3 * 3) True) (shifted_by True (V_Morse 5 3 1) 3) 2"
  using shifted_evaluators [where r = 2 and rc = 3 and s = True and kappa = 1 and Z = 1 and A = 1 and ?a1.0 = "1 / 2" and ?a2.0 = "1 / 2"
      and ?D0.0 = 5 and alpha = 3 and ?r0.0 = 1] by simp





text \<open>
  C16: The harmonic, FENE and tether bonds and the special pairs compute their documented potentials and forces where these are
  smooth, and FENE bonds and tethers refuse a bond that is stretched to its limit.
\<close>

theorem bond_evaluators:
  assumes "0 < r"
  shows "computes (EvaluatorBondHarmonic K r_0 (r * r)) (V_Harmonic K r_0) r
    \<and> (FENE_range r_0 sg ep delta r \<longrightarrow>
         computes (EvaluatorBondFENE K r_0 (sg ^ 6) (4 * ep) delta (r * r)) (V_FENE K r_0 sg ep delta) r)
    \<and> (K \<noteq> 0 \<and> 0 \<le> r_0 \<and> r_0 \<le> \<bar>r - delta\<bar> \<longrightarrow> EvaluatorBondFENE K r_0 sigma_6 epsilon_x_4 delta (r * r) = None)
    \<and> (tether_range k_b l_min l_c1 l_c0 l_max r \<longrightarrow>
         computes (EvaluatorBondTether k_b l_min l_c1 l_c0 l_max f0 e0 (r * r)) (V_Tether k_b l_min l_c1 l_c0 l_max) r)
    \<and> (k_b \<noteq> 0 \<and> 0 \<le> l_min \<and> 0 \<le> l_max \<and> (r \<le> l_min \<or> l_max \<le> r) \<longrightarrow>
         EvaluatorBondTether k_b l_min l_c1 l_c0 l_max f0 e0 (r * r) = None)
    \<and> (r < rc \<and> sg \<noteq> 0 \<and> ep \<noteq> 0 \<longrightarrow>
         computes (EvaluatorSpecialPairLJ (sg ^ 6) (4 * ep) (rc * rc) f0 e0 (r * r)) (V_powers 12 6 sg ep) r)
    \<and> (r < rc \<and> qiqj \<noteq> 0 \<longrightarrow>
         computes (EvaluatorSpecialPairCoulomb alpha qiqj (rc * rc) f0 e0 (r * r)) (V_Coulomb alpha qiqj) r)"
proof -
  have fene: "EvaluatorBondFENE K r_0 sigma_6 epsilon_x_4 delta (r * r) = None" if h: "K \<noteq> 0 \<and> 0 \<le> r_0 \<and> r_0 \<le> \<bar>r - delta\<bar>"
  proof -
    have "r_0 * r_0 \<le> \<bar>r - delta\<bar> * \<bar>r - delta\<bar>" using h by (intro mult_mono) auto
    then show ?thesis using h assms by (simp add: EvaluatorBondFENE_def Let_def split: prod.split)
  qed
  have tether: "EvaluatorBondTether k_b l_min l_c1 l_c0 l_max f0 e0 (r * r) = None"
    if h: "k_b \<noteq> 0 \<and> 0 \<le> l_min \<and> 0 \<le> l_max \<and> (r \<le> l_min \<or> l_max \<le> r)"
  proof -
    have "l_max * l_max \<le> r * r \<or> r * r \<le> l_min * l_min" using h assms by (auto intro: mult_mono)
    then show ?thesis using h by (auto simp add: EvaluatorBondTether_def Let_def split: prod.split)
  qed
  show ?thesis
    using radial_computes [OF harmonic.radial_potential_axioms] radial_computes [OF fene.radial_potential_axioms]
      radial_computes [OF tether.radial_potential_axioms] radial_computes [OF special_lj.radial_potential_axioms]
      radial_computes [OF special_coulomb.radial_potential_axioms] fene tether assms
    by (intro conjI impI) simp_all
qed

theorem bond_evaluators_witness:
  "computes (EvaluatorBondFENE 30 (3 / 2) (1 ^ 6) (4 * 1) 0 (1 * 1)) (V_FENE 30 (3 / 2) 1 1 0) 1
    \<and> EvaluatorBondFENE 30 (3 / 2) 1 4 0 (2 * 2) = None"
  using bond_evaluators [where r = 1 and K = 30 and ?r_0.0 = "3 / 2" and sg = 1 and ep = 1 and delta = 0]
    bond_evaluators [where r = 2 and K = 30 and ?r_0.0 = "3 / 2" and delta = 0 and ?sigma_6.0 = 1 and ?epsilon_x_4.0 = 4]
  by simp

subsection \<open>Energy shifts that do not vanish at the cutoff\<close>

lemma LJGauss_shift:
  "rsq < rcutsq \<Longrightarrow> EvaluatorPairLJGauss epsilon sigma r0 rsq rcutsq True =
    map_option (\<lambda>(f, e). (f, e - ((1 / rcutsq * (1 / rcutsq) * (1 / rcutsq)) * (1 / rcutsq * (1 / rcutsq) * (1 / rcutsq) - 2)
      - epsilon * exp (- 1 / 2 * (rcutsq - r0) / (sigma * sigma))))) (EvaluatorPairLJGauss epsilon sigma r0 rsq rcutsq False)"
  by (simp add: EvaluatorPairLJGauss_def Let_def)

text \<open>
  With \<open>energy_shift\<close> the energy of the expanded Lennard-Jones, expanded Mie, Lennard-Jones-Gauss and ten Wolde-Frenkel
  evaluators is not \<open>V(r) - V(r_cut)\<close>: the expanded potentials subtract the potential without \<open>delta\<close> at the cutoff, and the other
  two evaluate another function there. The energy jumps at the cutoff, at the parameters given here for instance.
\<close>

theorem energy_shift_wrong:
  "EvaluatorPairExpandedLJ 1 4 1 (2 * 2) (3 * 3) True
      \<noteq> map_option (\<lambda>(f, e). (f, e - V_powers 12 6 1 1 (3 - 1))) (EvaluatorPairExpandedLJ 1 4 1 (2 * 2) (3 * 3) False)
    \<and> EvaluatorPairExpandedMie 4 4 12 6 1 (2 * 2) (3 * 3) True
      \<noteq> map_option (\<lambda>(f, e). (f, e - V_Mie 4 4 12 6 (3 - 1))) (EvaluatorPairExpandedMie 4 4 12 6 1 (2 * 2) (3 * 3) False)
    \<and> EvaluatorPairLJGauss 1 1 1 (1 * 1) (2 * 2) True
      \<noteq> map_option (\<lambda>(f, e). (f, e - V_LJGauss 1 1 1 2)) (EvaluatorPairLJGauss 1 1 1 (1 * 1) (2 * 2) False)
    \<and> EvaluatorPairTWF 0 1 1 1 (2 * 2) (3 * 3) True
      \<noteq> map_option (\<lambda>(f, e). (f, e - V_TWF 1 1 1 3)) (EvaluatorPairTWF 0 1 1 1 (2 * 2) (3 * 3) False)"
proof (intro conjI)
  have v: "V_powers 12 6 1 1 2 \<noteq> V_powers 12 6 1 1 3" by (simp add: V_powers_def eval_nat_numeral)
  show "EvaluatorPairExpandedLJ 1 4 1 (2 * 2) (3 * 3) True
      \<noteq> map_option (\<lambda>(f, e). (f, e - V_powers 12 6 1 1 (3 - 1))) (EvaluatorPairExpandedLJ 1 4 1 (2 * 2) (3 * 3) False)"
    using ExpandedLJ_value [of 2 3 1 1 1 True] ExpandedLJ_value [of 2 3 1 1 1 False] v by simp
  have "V_Mie 4 4 12 6 x = V_powers 12 6 1 1 x" if "0 < x" for x
    using that by (simp add: V_Mie_def V_powers_def powr_numeral right_diff_distrib)
  then have "V_Mie 4 4 12 6 2 \<noteq> V_Mie 4 4 12 6 3" using v by simp
  then show "EvaluatorPairExpandedMie 4 4 12 6 1 (2 * 2) (3 * 3) True
      \<noteq> map_option (\<lambda>(f, e). (f, e - V_Mie 4 4 12 6 (3 - 1))) (EvaluatorPairExpandedMie 4 4 12 6 1 (2 * 2) (3 * 3) False)"
    using ExpandedMie_value [of 2 3 1 4 4 12 6 True] ExpandedMie_value [of 2 3 1 4 4 12 6 False] by simp
  show "EvaluatorPairLJGauss 1 1 1 (1 * 1) (2 * 2) True
      \<noteq> map_option (\<lambda>(f, e). (f, e - V_LJGauss 1 1 1 2)) (EvaluatorPairLJGauss 1 1 1 (1 * 1) (2 * 2) False)"
    using LJGauss_shift [of 1 4 1 1 1] LJGauss_value [of 1 2 1 1 1]
    by (simp add: V_LJGauss_def eval_nat_numeral)
  show "EvaluatorPairTWF 0 1 1 1 (2 * 2) (3 * 3) True
      \<noteq> map_option (\<lambda>(f, e). (f, e - V_TWF 1 1 1 3)) (EvaluatorPairTWF 0 1 1 1 (2 * 2) (3 * 3) False)"
    by (simp add: EvaluatorPairTWF_def V_TWF_def Let_def eval_nat_numeral)
qed

subsection \<open>Long-range corrections and the table potential\<close>

text \<open>
  C18: The energy and pressure corrections of the Lennard-Jones evaluator are the integrals that its comments state: as functions
  of the cutoff their derivatives are minus the integrands \<open>V r\<^sup>2\<close> and \<open>- V' r\<^sup>3\<close>, and both vanish for an infinite cutoff.
\<close>

theorem long_range_corrections:
  assumes "0 < rc"
  shows "((\<lambda>x. case_prod LJ_evalEnergyLRCIntegral (LJ_params sigma epsilon) (x * x))
            has_real_derivative - (V_powers 12 6 sigma epsilon rc * rc\<^sup>2)) (at rc)
    \<and> ((\<lambda>x. case_prod LJ_evalEnergyLRCIntegral (LJ_params sigma epsilon) (x * x)) \<longlongrightarrow> 0) at_top
    \<and> ((\<lambda>x. case_prod LJ_evalPressureLRCIntegral (LJ_params sigma epsilon) (x * x))
            has_real_derivative - (- dV_powers 12 6 sigma epsilon rc * rc ^ 3)) (at rc)
    \<and> (V_powers 12 6 sigma epsilon has_real_derivative dV_powers 12 6 sigma epsilon rc) (at rc)
    \<and> ((\<lambda>x. case_prod LJ_evalPressureLRCIntegral (LJ_params sigma epsilon) (x * x)) \<longlongrightarrow> 0) at_top"
proof -
  have rc: "rc \<noteq> 0" using assms by simp
  show ?thesis unfolding LJ_params_eq prod.case
    using same_on_positive(1) [OF energy_lrc DERIV_cong [OF lrc_deriv [OF rc] lrc_integrands(1) [OF assms]] assms]
      same_on_positive(2) [OF energy_lrc lrc_vanishes] same_on_positive(2) [OF pressure_lrc lrc_vanishes]
      same_on_positive(1) [OF pressure_lrc DERIV_cong [OF lrc_deriv [OF rc] lrc_integrands(2) [OF assms]] assms]
      V_powers_deriv [OF rc]
    by simp
qed

theorem long_range_corrections_witness:
  "((\<lambda>x. case_prod LJ_evalEnergyLRCIntegral (LJ_params 1 1) (x * x)) has_real_derivative - (V_powers 12 6 1 1 3 * 3\<^sup>2)) (at 3)"
  using long_range_corrections [of 3 1 1] by simp

lemma table_delta_r_pos: "rmin \<le> sqrt rsq \<Longrightarrow> rsq < rcutsq \<Longrightarrow> 0 < width \<Longrightarrow> 0 < table_delta_r rmin width rcutsq"
  unfolding table_delta_r_def using real_sqrt_less_mono [of rsq rcutsq] by (intro divide_pos_pos) linarith+

lemma table_index_bounds:
  assumes "rmin \<le> sqrt rsq" and "rsq < rcutsq" and "0 < width"
  defines "x \<equiv> (sqrt rsq - rmin) / table_delta_r rmin width rcutsq"
  shows "table_index rmin width rsq rcutsq < width" and "real (table_index rmin width rsq rcutsq) \<le> x"
    and "x < real (table_index rmin width rsq rcutsq) + 1"
proof -
  have lt: "sqrt rsq < sqrt rcutsq" using assms(2) by simp
  have d: "0 < table_delta_r rmin width rcutsq" by (rule table_delta_r_pos [OF assms(1-3)])
  have x: "0 \<le> x" using assms(1) d by (simp add: x_def)
  have "x * table_delta_r rmin width rcutsq < real width * table_delta_r rmin width rcutsq"
  proof -
    have "x * table_delta_r rmin width rcutsq = sqrt rsq - rmin" using d by (simp add: x_def)
    also have "\<dots> < sqrt rcutsq - rmin" using lt by linarith
    also have "\<dots> = real width * table_delta_r rmin width rcutsq" using assms(3) by (simp add: table_delta_r_def)
    finally show ?thesis .
  qed
  then have "x < real width" using d by simp
  then show "table_index rmin width rsq rcutsq < width"
    unfolding table_index_def x_def [symmetric] using x by linarith
  show "real (table_index rmin width rsq rcutsq) \<le> x" "x < real (table_index rmin width rsq rcutsq) + 1"
    unfolding table_index_def x_def [symmetric] using x by linarith+
qed

lemma table_index_position:
  assumes "rmin \<le> sqrt rsq" and "rsq < rcutsq" and "0 < width"
  shows "sqrt rsq = rmin + ((sqrt rsq - rmin) / table_delta_r rmin width rcutsq) * table_delta_r rmin width rcutsq"
  using table_delta_r_pos [OF assms] by simp

text \<open>
  C17: The table evaluator, on parameters that its constructor accepts, reads the tables inside their bounds for every distance that
  it evaluates, and gives the linear interpolation between the two neighbouring grid points, the one after the last being zero.
\<close>

theorem table_interpolates:
  assumes "EvaluatorPairTable_params r_min U F = Inr (rmin, V_table, F_table)"
    and "0 < rsq" and "rsq < rcutsq" and "rmin \<le> sqrt rsq"
  defines "i \<equiv> table_index rmin (length V_table) rsq rcutsq"
    and "at_grid \<equiv> \<lambda>T k. if k < length T then T ! k else (0::Scalar)"
  shows "i < length V_table \<and> i < length F_table
    \<and> (\<exists>f. 0 \<le> f \<and> f < 1
          \<and> sqrt rsq = rmin + (real i + f) * table_delta_r rmin (length V_table) rcutsq
          \<and> EvaluatorPairTable rmin V_table F_table force_divr rsq rcutsq energy_shift
              = Some (((1 - f) * at_grid F_table i + f * at_grid F_table (i + 1)) / sqrt rsq,
                      (1 - f) * at_grid V_table i + f * at_grid V_table (i + 1)))"
proof -
  have len: "length V_table = length F_table" "0 < length V_table"
    using assms(1) by (auto simp: EvaluatorPairTable_params_def split: if_splits)
  define x where "x = (sqrt rsq - rmin) / table_delta_r rmin (length V_table) rcutsq"
  have i: "i < length V_table" "real i \<le> x" "x < real i + 1"
    using table_index_bounds [OF assms(4,3) len(2)] by (simp_all add: i_def x_def)
  have "sqrt rsq = rmin + (real i + (x - real i)) * table_delta_r rmin (length V_table) rcutsq"
    using table_index_position [OF assms(4,3) len(2)] by (simp add: x_def)
  moreover have "EvaluatorPairTable rmin V_table F_table force_divr rsq rcutsq energy_shift
      = Some (((1 - (x - real i)) * at_grid F_table i + (x - real i) * at_grid F_table (i + 1)) / sqrt rsq,
              (1 - (x - real i)) * at_grid V_table i + (x - real i) * at_grid V_table (i + 1))"
    unfolding EvaluatorPairTable_def Let_def i_def [symmetric] x_def [symmetric]
    using assms(2-4) i(1) len by (simp add: at_grid_def) (simp add: algebra_simps)
  ultimately show ?thesis using i len by (intro conjI exI [of _ "x - real i"]) auto
qed

theorem table_interpolates_witness:
  "table_index 0 2 1 4 < length [3, 5::Scalar]"
proof -
  have "EvaluatorPairTable_params 0 [3, 5] [1, 2] = Inr (0, [3, 5], [1, 2])" by (simp add: EvaluatorPairTable_params_def)
  from table_interpolates [OF this, of 1 4] show ?thesis by (simp add: eval_nat_numeral)
qed

end
