(* ===== verification/Pair_Forces.thy ===== *)
theory Pair_Forces
  imports Potential_Pair Pair_Correctness
begin

section \<open>Correctness of the pair force computation\<close>

text \<open>
  Properties of \<^verbatim>\<open>hoomd/md/PotentialPair.h\<close> over an arbitrary evaluator: half and full neighbour lists give the same forces,
  the forces of a half list add up to zero, the tables of the type pairs stay symmetric, and the three shift modes.
\<close>

subsection \<open>The force loop\<close>

lemma empty_or_known: "bind_result r (\<lambda>x. Inr (F, x)) = map_sum id (Pair F) r"
  by (cases r) (simp_all add: bind_result_def)

text \<open>
  C8: On a half neighbour list the loop adds the reaction to the second particle of each pair, on a full list each pair
  occurs twice: forces, energies and virials of the particles of the rank are the same, and so is the tail
  correction or its error.
\<close>

theorem half_full_equivalent:
  assumes "box_wf (pd_global_box pd)" and "swap_invariant ev" and "pp_symmetric pp"
    and "pd_nparticles pd \<le> pd_max_nparticles pd"
    and "completes full half (pd_nparticles pd)"
    and "\<forall>i < pd_nparticles pd. \<forall>j \<in> set (neighbors half i). proper_pair pp pd i j"
  shows "map_sum id (map_prod (take (pd_nparticles pd)) id) (computeForces ev nd nc eLRC pLRC my_rank dims vol cv half pd pp)
    = map_sum id (map_prod (take (pd_nparticles pd)) id) (computeForces ev nd nc eLRC pLRC my_rank dims vol cv full pd pp)"
  using force_loop_half_full [OF assms, of nd nc cv]
  by (simp add: computeForces_def Let_def empty_or_known sum.map_comp comp_def)

definition lj_evaluator :: "(Scalar \<times> Scalar) evaluator" where
  "lj_evaluator p d q = case_prod EvaluatorPairLJ p"

definition lj_pair :: "(Scalar \<times> Scalar) PotentialPair" where
  "lj_pair = (make_PotentialPair (1, 4) 1 [])\<lparr>pp_rcutsq := [9], pp_shift_mode := xplor, pp_ronsq := [4]\<rparr>"

text \<open>Two particles and a ghost, with the half and the full list of the three pairs.\<close>

definition three_particles :: ParticleData where
  "three_particles = (ParticleData_blank tilted10)\<lparr>pd_nparticles := 2, pd_nghosts := 1, pd_max_nparticles := 4,
     pd_elems := [zero_element\<lparr>pe_pos := (1, 1, 1)\<rparr>, zero_element\<lparr>pe_pos := (2, 1, 1)\<rparr>, zero_element\<lparr>pe_pos := (1, 2, 1)\<rparr>]\<rparr>"

definition half_list :: nlist_data where
  "half_list = \<lparr>nl_half = True, nl_n_neigh = [2, 1], nl_head_list = [0, 2], nl_nlist = [1, 2, 2]\<rparr>"

definition full_list :: nlist_data where
  "full_list = \<lparr>nl_half = False, nl_n_neigh = [2, 2], nl_head_list = [0, 2], nl_nlist = [1, 2, 2, 0]\<rparr>"

lemmas box_eval = tilted10_def BoxDim_tilted_def setTiltFactors_def BoxDim_of_L_def setL_def BoxDim_empty_def

lemma three_particles_frame:
  "pd_nparticles three_particles = 2" "pd_max_nparticles three_particles = 4" "pd_global_box three_particles = tilted10"
  "pe_pos (pd_elems three_particles ! 0) = (1, 1, 1)" "pe_pos (pd_elems three_particles ! 1) = (2, 1, 1)"
  "pe_pos (pd_elems three_particles ! 2) = (1, 2, 1)"
  "pe_type (pd_elems three_particles ! 0) = 0" "pe_type (pd_elems three_particles ! 1) = 0" "pe_type (pd_elems three_particles ! 2) = 0"
  by (simp_all add: three_particles_def ParticleData_blank_def zero_element_def)

lemma three_particles_lists:
  "neighbors half_list 0 = [1, 2]" "neighbors half_list 1 = [2]" "neighbors full_list 0 = [1, 2]" "neighbors full_list 1 = [2, 0]"
  by (simp_all add: neighbors_def half_list_def full_list_def eval_nat_numeral)

lemma three_particles_pairs:
  "\<forall>i < pd_nparticles three_particles. \<forall>j \<in> set (neighbors half_list i). proper_pair lj_pair three_particles i j"
proof -
  have L: "box_L tilted10 = (10, 10, 10)" "box_lo tilted10 = (- 5, - 5, - 5)" by (simp_all add: box_eval)
  have m: "minImage tilted10 (- 1, 0, 0) = (- 1, 0, 0)" "minImage tilted10 (0, - 1, 0) = (0, - 1, 0)" "minImage tilted10 (1, - 1, 0) = (1, - 1, 0)"
    by (simp_all add: minImage_wf [OF tilted10_wf L(1)] nearest_def nearest_z_def Let_def)
  have "pp_ntypes lj_pair = 1" by (simp add: lj_pair_def make_PotentialPair_def)
  then have "proper_pair lj_pair three_particles 0 1" "proper_pair lj_pair three_particles 0 2" "proper_pair lj_pair three_particles 1 2"
    by (simp_all add: proper_pair_def pair_dx_def three_particles_frame vsub_def m off_lower_face_def L del: One_nat_def)
  then show ?thesis by (simp add: three_particles_frame less_Suc_eq numeral_2_eq_2 three_particles_lists [unfolded numeral_2_eq_2 One_nat_def])
qed

theorem half_full_equivalent_witness:
  "map_sum id (map_prod (take 2) id) (computeForces lj_evaluator False False (\<lambda>_ _. 0) (\<lambda>_ _. 0) 0 3 1000 True half_list three_particles lj_pair)
    = map_sum id (map_prod (take 2) id) (computeForces lj_evaluator False False (\<lambda>_ _. 0) (\<lambda>_ _. 0) 0 3 1000 True full_list three_particles lj_pair)"
proof -
  have "completes full_list half_list (pd_nparticles three_particles)"
    by (simp add: completes_def three_particles_frame less_Suc_eq numeral_2_eq_2 three_particles_lists [unfolded numeral_2_eq_2 One_nat_def]
        reverse_neighbors_def) (simp add: half_list_def full_list_def)
  moreover have "swap_invariant lj_evaluator" by (simp add: swap_invariant_def lj_evaluator_def)
  moreover have "pp_symmetric lj_pair" by (simp add: pp_symmetric_def table_symmetric_def lj_pair_def make_PotentialPair_def)
  ultimately show ?thesis
    using half_full_equivalent [OF _ _ _ _ _ three_particles_pairs, where ev = lj_evaluator and full = full_list]
    by (simp add: three_particles_frame tilted10_wf)
qed

text \<open>
  C9: On a half list without ghosts the forces on all particles add up to zero, the energies to the sum of the pair
  energies and the virials to the sum over the pairs of distance times force.
\<close>

theorem half_list_totals:
  assumes "pd_nparticles pd \<le> pd_max_nparticles pd" and "nl_half nl"
    and "\<forall>i < pd_nparticles pd. \<forall>j \<in> set (neighbors nl i). j < pd_nparticles pd"
  shows "sum_list (take (pd_nparticles pd) (force_loop ev nd nc pp pd True nl))
    = (\<Sum>i < pd_nparticles pd. \<Sum>j \<leftarrow> neighbors nl i.
        case eval_pair ev nd nc pp pd i j of None \<Rightarrow> 0
        | Some (f, e) \<Rightarrow> (case pair_dx pd i j of (x, y, z) \<Rightarrow>
            FAcc 0 0 0 e (f * x * x) (f * x * y) (f * x * z) (f * y * y) (f * y * z) (f * z * z)))"
  unfolding half_total [OF assms] pair_both if_True ..

theorem half_list_totals_witness:
  "force_x (sum_list (take 3 (force_loop lj_evaluator False False lj_pair (three_particles\<lparr>pd_nparticles := 3\<rparr>) True
     (half_list\<lparr>nl_n_neigh := [2, 1, 0], nl_head_list := [0, 2, 3]\<rparr>)))) = 0"
proof -
  let ?pd = "three_particles\<lparr>pd_nparticles := 3\<rparr>" and ?nl = "half_list\<lparr>nl_n_neigh := [2, 1, 0], nl_head_list := [0, 2, 3]\<rparr>"
  have add: "force_x (a + b) = force_x a + force_x b" "force_x 0 = 0" for a b by (simp_all add: plus_facc_def zero_facc_def)
  have lst: "force_x (sum_list xs) = (\<Sum>x\<leftarrow>xs. force_x x)" for xs by (induction xs) (simp_all add: add)
  have fin: "force_x (\<Sum>i<n. g i) = (\<Sum>i<n. force_x (g i))" for n and g :: "nat \<Rightarrow> facc" by (induction n) (simp_all add: add)
  have nul: "force_x (case r of None \<Rightarrow> 0 | Some (f, e) \<Rightarrow> (case d of (x, y, z) \<Rightarrow> FAcc 0 0 0 e (a f x y z) (b f x y z) (c f x y z) (h f x y z) (k f x y z) (l f x y z))) = 0"
    for r :: pair_result and d :: vec3 and a b c h k l by (cases d) (auto simp: zero_facc_def split: option.split)
  have "neighbors ?nl 0 = [1, 2]" "neighbors ?nl 1 = [2]" "neighbors ?nl 2 = []"
    by (simp_all add: neighbors_def half_list_def eval_nat_numeral)
  then have "\<forall>i < pd_nparticles ?pd. \<forall>j \<in> set (neighbors ?nl i). j < pd_nparticles ?pd"
    by (auto simp: less_Suc_eq eval_nat_numeral)
  from half_list_totals [OF _ _ this, of lj_evaluator False False lj_pair] show ?thesis
    by (simp add: three_particles_frame half_list_def fin lst comp_def nul)
qed

subsection \<open>The tables per pair of types\<close>

lemma validateTypes_ok: "typ1 < pp_ntypes pp \<Longrightarrow> typ2 < pp_ntypes pp \<Longrightarrow> validateTypes typ1 typ2 action pp = Inr ()"
  by (simp add: validateTypes_def)

definition param_of :: "nat \<Rightarrow> nat \<Rightarrow> 'p PotentialPair \<Rightarrow> 'p" where
  "param_of i j pp = pp_params pp ! typpair_idx pp i j"

lemma typpair_idx_cong: "pp_ntypes pp' = pp_ntypes pp \<Longrightarrow> typpair_idx pp' = typpair_idx pp"
  by (simp add: typpair_idx_def fun_eq_iff)

lemma pp_symmetric_lengths:
  "pp_symmetric pp \<Longrightarrow> length (pp_rcutsq pp) = pp_ntypes pp * pp_ntypes pp \<and> length (pp_ronsq pp) = pp_ntypes pp * pp_ntypes pp
    \<and> length (pp_params pp) = pp_ntypes pp * pp_ntypes pp"
  by (simp add: pp_symmetric_def table_symmetric_def)

lemma make_PotentialPair_symmetric: "pp_symmetric (make_PotentialPair p0 n w)"
  by (simp add: pp_symmetric_def make_PotentialPair_def table_symmetric_replicate)

text \<open>
  C19: The setters of the pair tables reject a type that does not exist and otherwise write both orders of the pair:
  the tables stay symmetric, the value reads back (cutoffs as absolute values) and every other pair keeps its value.
\<close>

theorem pair_tables:
  assumes "pp_symmetric pp"
  shows "pp_symmetric (make_PotentialPair p0 n w)
    \<and> (if typ1 < pp_ntypes pp \<and> typ2 < pp_ntypes pp
       then \<exists>pp1 pp2 pp3. setParams typ1 typ2 p pp = Inr pp1 \<and> setRcut typ1 typ2 r pp = Inr pp2 \<and> setRon typ1 typ2 r pp = Inr pp3
         \<and> pp_symmetric pp1 \<and> pp_symmetric pp2 \<and> pp_symmetric pp3
         \<and> (\<forall>i < pp_ntypes pp. \<forall>j < pp_ntypes pp.
              param_of i j pp1 = (if {i, j} = {typ1, typ2} then p else param_of i j pp)
            \<and> getRCut i j pp2 = (if {i, j} = {typ1, typ2} then Inr \<bar>r\<bar> else getRCut i j pp)
            \<and> getROn i j pp3 = (if {i, j} = {typ1, typ2} then Inr \<bar>r\<bar> else getROn i j pp))
       else \<exists>e1 e2 e3. setParams typ1 typ2 p pp = Inl e1 \<and> setRcut typ1 typ2 r pp = Inl e2 \<and> setRon typ1 typ2 r pp = Inl e3)" (is "_ \<and> ?setters")
proof (rule conjI)
  show "pp_symmetric (make_PotentialPair p0 n w)" by (rule make_PotentialPair_symmetric)
next
  show ?setters
  proof (cases "typ1 < pp_ntypes pp \<and> typ2 < pp_ntypes pp")
    case True
    let ?pp1 = "pp\<lparr>pp_params := set_both pp typ1 typ2 p (pp_params pp)\<rparr>"
      and ?pp2 = "pp\<lparr>pp_rcutsq := set_both pp typ1 typ2 (r * r) (pp_rcutsq pp), pp_r_cut_nlist := set_both pp typ1 typ2 r (pp_r_cut_nlist pp)\<rparr>"
      and ?pp3 = "pp\<lparr>pp_ronsq := set_both pp typ1 typ2 (r * r) (pp_ronsq pp)\<rparr>"
    have e: "typpair_idx ?pp1 = typpair_idx pp" "typpair_idx ?pp2 = typpair_idx pp" "typpair_idx ?pp3 = typpair_idx pp"
      by (rule typpair_idx_cong, simp)+
    note n = set_both_nth [OF _ conjunct1 [OF True] conjunct2 [OF True]] pp_symmetric_lengths [OF assms]
    have "setParams typ1 typ2 p pp = Inr ?pp1" "setRcut typ1 typ2 r pp = Inr ?pp2" "setRon typ1 typ2 r pp = Inr ?pp3"
      using True by (simp_all add: setParams_def setRcut_def setRon_def validateTypes_ok bind_result_def)
    moreover have "pp_symmetric ?pp1" "pp_symmetric ?pp2" "pp_symmetric ?pp3"
      using assms True by (simp_all add: pp_symmetric_def table_symmetric_set_both)
    moreover have "\<forall>i < pp_ntypes pp. \<forall>j < pp_ntypes pp. param_of i j ?pp1 = (if {i, j} = {typ1, typ2} then p else param_of i j pp)"
      by (intro allI impI) (simp add: n param_of_def e)
    moreover have "\<forall>i < pp_ntypes pp. \<forall>j < pp_ntypes pp. getRCut i j ?pp2 = (if {i, j} = {typ1, typ2} then Inr \<bar>r\<bar> else getRCut i j pp)"
      by (intro allI impI) (simp add: n getRCut_def e validateTypes_ok bind_result_def)
    moreover have "\<forall>i < pp_ntypes pp. \<forall>j < pp_ntypes pp. getROn i j ?pp3 = (if {i, j} = {typ1, typ2} then Inr \<bar>r\<bar> else getROn i j pp)"
      by (intro allI impI) (simp add: n getROn_def e validateTypes_ok bind_result_def)
    ultimately show ?thesis using True by (simp only: simp_thms if_True) blast
  next
    case False
    then show ?thesis by (auto simp: setParams_def setRcut_def setRon_def validateTypes_def bind_result_def)
  qed
qed

theorem pair_tables_witness:
  "\<exists>pp2. setRcut 0 1 (- 3) (make_PotentialPair () 2 []) = Inr pp2 \<and> getRCut 1 0 pp2 = Inr 3 \<and> getRCut 1 1 pp2 = getRCut 1 1 (make_PotentialPair () 2 [])"
proof -
  let ?pp = "make_PotentialPair () 2 []"
  have 1: "pp_symmetric ?pp" "pp_ntypes ?pp = 2" by (rule make_PotentialPair_symmetric) (simp add: make_PotentialPair_def)
  obtain pp2 where "setRcut 0 1 (- 3) ?pp = Inr pp2"
    "\<forall>i < 2. \<forall>j < 2. getRCut i j pp2 = (if {i, j} = {0, 1} then Inr \<bar>- 3\<bar> else getRCut i j ?pp)"
    using pair_tables [OF 1(1), where ?typ1.0 = 0 and ?typ2.0 = 1 and r = "- 3"] by (simp only: 1(2)) fastforce
  then show ?thesis by (intro exI [of _ pp2]) (auto simp: doubleton_eq_iff)
qed

subsection \<open>The shift modes\<close>

definition xplor_poly :: "Scalar \<Rightarrow> Scalar \<Rightarrow> Scalar \<Rightarrow> Scalar" where
  "xplor_poly ron rc r = (rc\<^sup>2 - r\<^sup>2)\<^sup>2 * (rc\<^sup>2 + 2 * r\<^sup>2 - 3 * ron\<^sup>2) / (rc\<^sup>2 - ron\<^sup>2) ^ 3"

text \<open>The smoothing function \<open>S(r)\<close> of the documentation.\<close>

definition xplor_S :: "Scalar \<Rightarrow> Scalar \<Rightarrow> Scalar \<Rightarrow> Scalar" where
  "xplor_S ron rc r = (if r < ron then 1 else if r < rc then xplor_poly ron rc r else 0)"

lemma xplor_poly_deriv:
  "(xplor_poly ron rc has_real_derivative 12 * r * (r\<^sup>2 - ron\<^sup>2) * (r\<^sup>2 - rc\<^sup>2) / (rc\<^sup>2 - ron\<^sup>2) ^ 3) (at r)"
proof -
  have "((\<lambda>r. (rc\<^sup>2 - r\<^sup>2)\<^sup>2 * (rc\<^sup>2 + 2 * r\<^sup>2 - 3 * ron\<^sup>2)) has_real_derivative 12 * r * (r\<^sup>2 - ron\<^sup>2) * (r\<^sup>2 - rc\<^sup>2)) (at r)"
    by (rule derivative_eq_intros refl)+ (simp add: power2_eq_square, algebra)
  from DERIV_cdivide [OF this, of "(rc\<^sup>2 - ron\<^sup>2) ^ 3"] show ?thesis unfolding xplor_poly_def [abs_def] .
qed

lemma xplor_poly_ends: "0 < ron \<Longrightarrow> ron < rc \<Longrightarrow> xplor_poly ron rc ron = 1" "xplor_poly ron rc rc = 0"
proof -
  assume "0 < ron" "ron < rc"
  then have "rc\<^sup>2 - ron\<^sup>2 \<noteq> 0" using power_strict_mono [of ron rc 2] by simp
  moreover have "rc\<^sup>2 + 2 * ron\<^sup>2 - 3 * ron\<^sup>2 = rc\<^sup>2 - ron\<^sup>2" by simp
  ultimately show "xplor_poly ron rc ron = 1" unfolding xplor_poly_def by (simp add: power2_eq_square power3_eq_cube)
qed (simp add: xplor_poly_def)

lemma DERIV_glue:
  assumes "(f has_real_derivative D) (at a)" and "(g has_real_derivative D) (at a)" and "f a = g (a::real)"
  shows "((\<lambda>x. if x < a then f x else g x) has_real_derivative D) (at a)"
proof -
  have "((\<lambda>x. ((if x < a then f x else g x) - g a) / (x - a)) \<longlongrightarrow> D) (at a)"
  proof (rule filterlim_split_at)
    show "((\<lambda>x. ((if x < a then f x else g x) - g a) / (x - a)) \<longlongrightarrow> D) (at_left a)"
      using assms(1,3) unfolding has_field_derivative_iff
      by (auto simp: filterlim_at_split eventually_at_filter intro: Lim_transform_eventually)
    show "((\<lambda>x. ((if x < a then f x else g x) - g a) / (x - a)) \<longlongrightarrow> D) (at_right a)"
      using assms(2) unfolding has_field_derivative_iff
      by (auto simp: filterlim_at_split eventually_at_filter intro: Lim_transform_eventually)
  qed
  then show ?thesis by (simp add: has_field_derivative_iff)
qed

lemma xplor_smooth_eq:
  assumes "(V has_real_derivative - (r * f)) (at r)"
  shows "\<exists>g. xplor_smooth (ron * ron) (rc * rc) (r * r) (f, V r) = (g, xplor_poly ron rc r * V r)
    \<and> ((\<lambda>r. xplor_poly ron rc r * V r) has_real_derivative - (r * g)) (at r)"
proof -
  define c where "c = inverse ((rc\<^sup>2 - ron\<^sup>2) ^ 3)"
  have den: "1 / ((rc * rc - ron * ron) * (rc * rc - ron * ron) * (rc * rc - ron * ron)) = c"
    by (simp add: c_def power2_eq_square power3_eq_cube inverse_eq_divide)
  have poly: "(r * r - rc * rc) * (r * r - rc * rc) * (rc * rc + 2 * (r * r) - 3 * (ron * ron)) * c = xplor_poly ron rc r"
    unfolding xplor_poly_def divide_inverse c_def [symmetric] by algebra
  have s: "xplor_smooth (ron * ron) (rc * rc) (r * r) (f, V r)
      = (xplor_poly ron rc r * f - 12 * (r * r - ron * ron) * (r * r - rc * rc) * c * V r, xplor_poly ron rc r * V r)"
    unfolding xplor_smooth_def Let_def prod.case den poly by (simp only: mult.commute [of "V r"])
  have "((\<lambda>r. xplor_poly ron rc r * V r) has_real_derivative
      12 * r * (r\<^sup>2 - ron\<^sup>2) * (r\<^sup>2 - rc\<^sup>2) * c * V r + - (r * f) * xplor_poly ron rc r) (at r)"
    using DERIV_mult [OF xplor_poly_deriv [of ron rc r] assms] by (simp add: c_def divide_inverse)
  moreover have "12 * r * (r\<^sup>2 - ron\<^sup>2) * (r\<^sup>2 - rc\<^sup>2) * c * V r + - (r * f) * xplor_poly ron rc r
      = - (r * (xplor_poly ron rc r * f - 12 * (r * r - ron * ron) * (r * r - rc * rc) * c * V r))" by algebra
  ultimately show ?thesis unfolding s by (metis prod.inject)
qed

lemma DERIV_open:
  fixes f g :: "real \<Rightarrow> real"
  assumes "(g has_real_derivative D) (at r)" and "open S" and "r \<in> S" and "\<And>x. x \<in> S \<Longrightarrow> f x = g x"
  shows "(f has_real_derivative D) (at r)"
  using has_field_derivative_transform_within_open [OF assms(1-3)] assms(4) by simp

lemma square_order: "0 < a \<Longrightarrow> 0 < b \<Longrightarrow> a * a < b * b \<longleftrightarrow> a < (b::real)" "0 < a \<Longrightarrow> 0 < b \<Longrightarrow> a * a \<le> b * b \<longleftrightarrow> a \<le> (b::real)"
  using power2_less_imp_less [of a b] power_strict_mono [of a b 2] power2_le_imp_le [of a b] power_mono [of a b 2]
  by (auto simp: power2_eq_square)

lemma xplor_smooth_start:
  assumes "0 < ron" and "ron < rc"
  shows "xplor_smooth (ron * ron) (rc * rc) (ron * ron) fe = fe"
proof -
  define d where "d = rc * rc - ron * ron"
  have "d > 0" using assms by (simp add: d_def square_order)
  have e: "ron * ron - rc * rc = - d" "rc * rc + 2 * (ron * ron) - 3 * (ron * ron) = d" by (simp_all add: d_def)
  show ?thesis unfolding xplor_smooth_def Let_def e d_def [symmetric]
    using \<open>d > 0\<close> by (simp add: case_prod_beta)
qed

lemma xplor_inside:
  assumes "0 < ron" and "ron < rc" and "r < rc" and V: "(V has_real_derivative - (r * f)) (at r)"
  shows "\<exists>g. (if ron \<le> r then xplor_smooth (ron * ron) (rc * rc) (r * r) (f, V r) else (f, V r)) = (g, xplor_S ron rc r * V r)
    \<and> ((\<lambda>r. xplor_S ron rc r * V r) has_real_derivative - (r * g)) (at r)"
proof -
  let ?U = "\<lambda>r. xplor_S ron rc r * V r" and ?P = "\<lambda>r. xplor_poly ron rc r * V r"
  obtain g where g: "xplor_smooth (ron * ron) (rc * rc) (r * r) (f, V r) = (g, ?P r)" "(?P has_real_derivative - (r * g)) (at r)"
    using xplor_smooth_eq [OF V] by blast
  consider "r < ron" | "r = ron" | "ron < r" by linarith
  then show ?thesis
  proof cases
    case 1
    have "(?U has_real_derivative - (r * f)) (at r)"
      by (rule DERIV_open [OF V open_lessThan [of ron]]) (use 1 in \<open>simp_all add: xplor_S_def\<close>)
    then show ?thesis using 1 by (simp add: xplor_S_def)
  next
    case 2
    have "g = f" using g(1) xplor_smooth_start [OF assms(1,2), of "(f, V r)"] 2 by simp
    have "(?U has_real_derivative - (r * f)) (at r)"
      by (rule DERIV_open [OF DERIV_glue [OF V g(2) [unfolded \<open>g = f\<close>]] open_lessThan [of rc]])
        (use 2 assms xplor_poly_ends(1) [OF assms(1,2)] in \<open>simp_all add: xplor_S_def\<close>)
    then show ?thesis using 2 g assms by (simp add: xplor_S_def \<open>g = f\<close>)
  next
    case 3
    have "(?U has_real_derivative - (r * g)) (at r)"
      by (rule DERIV_open [OF g(2) open_greaterThanLessThan [of ron rc]]) (use 3 assms in \<open>simp_all add: xplor_S_def\<close>)
    then show ?thesis using 3 g assms by (simp add: xplor_S_def)
  qed
qed

text \<open>A result of the evaluator for the potential \<open>U\<close> of all distances, zero where there is no result.\<close>

definition pair_potential :: "pair_result \<Rightarrow> (Scalar \<Rightarrow> Scalar) \<Rightarrow> Scalar \<Rightarrow> bool" where
  "pair_potential res U r \<longleftrightarrow>
    (case res of None \<Rightarrow> U r = 0 \<and> (U has_real_derivative 0) (at r)
     | Some (f, e) \<Rightarrow> U r = e \<and> (U has_real_derivative - (r * f)) (at r))"

text \<open>
  C10: In the mode \<open>xplor\<close> with \<open>r_on < r_cut\<close> the pair energy is the documented \<open>S(r) V(r)\<close>, and the pair force is its
  negative derivative at every distance: also at \<open>r_on\<close>, where the smoothing starts, at \<open>r_cut\<close>, where energy and force reach
  zero, and beyond.
\<close>

theorem xplor_smoothing:
  assumes "0 < ron" and "ron < rc"
    and V: "\<And>r. 0 < r \<Longrightarrow> r < rc \<Longrightarrow> computes (ev (r * r) (rc * rc) False) V r"
    and far: "\<And>r. rc \<le> r \<Longrightarrow> ev (r * r) (rc * rc) False = None"
    and D: "(V has_real_derivative D) (at rc)" and "0 < r"
  shows "pair_potential (smoothed_pair xplor ev (ron * ron) (rc * rc) (r * r)) (\<lambda>r. xplor_S ron rc r * V r) r"
proof -
  let ?U = "\<lambda>r. xplor_S ron rc r * V r"
  have mode: "smoothed_pair xplor ev (ron * ron) (rc * rc) (r * r)
      = map_option (\<lambda>fe. if ron \<le> r \<and> r < rc then xplor_smooth (ron * ron) (rc * rc) (r * r) fe else fe) (ev (r * r) (rc * rc) False)"
    using assms by (simp add: smoothed_pair_def use_energy_shift_def square_order)
  consider "r < rc" | "r = rc" | "rc < r" by linarith
  then show ?thesis
  proof cases
    case 1
    then obtain f where f: "ev (r * r) (rc * rc) False = Some (f, V r)" "(V has_real_derivative - (r * f)) (at r)"
      using V [OF \<open>0 < r\<close>] by (auto simp: computes_def)
    then show ?thesis unfolding mode using 1 xplor_inside [OF assms(1,2) 1 f(2)] by (auto simp: pair_potential_def split: if_splits)
  next
    case 2
    have "((\<lambda>r. xplor_poly ron rc r * V r) has_real_derivative 0) (at r)"
      using DERIV_mult [OF xplor_poly_deriv [of ron rc rc] D] by (simp add: 2 xplor_poly_ends)
    then have "(?U has_real_derivative 0) (at r)"
      by (rule DERIV_open [OF DERIV_glue [OF _ DERIV_const [of 0]] open_greaterThan [of ron]])
        (use 2 assms xplor_poly_ends(2) in \<open>simp_all add: xplor_S_def\<close>)
    then show ?thesis unfolding mode using 2 assms far [of r] by (simp add: pair_potential_def xplor_S_def)
  next
    case 3
    have "(?U has_real_derivative 0) (at r)"
      by (rule DERIV_open [OF DERIV_const [of 0] open_greaterThan [of rc]]) (use 3 assms in \<open>simp_all add: xplor_S_def\<close>)
    then show ?thesis unfolding mode using 3 assms far [of r] by (simp add: pair_potential_def xplor_S_def)
  qed
qed

theorem xplor_smoothing_witness:
  "pair_potential (smoothed_pair xplor (EvaluatorPairLJ 1 4) (2 * 2) (3 * 3) (3 * 3))
     (\<lambda>r. xplor_S 2 3 r * V_powers 12 6 1 1 r) 3"
proof (rule xplor_smoothing)
  show "computes (EvaluatorPairLJ 1 4 (r * r) (3 * 3) False) (V_powers 12 6 1 1) r" if "0 < r" "r < 3" for r
    using shifted_computes [OF lj.shifted_potential_axioms, where rc = 3 and r = r and s = False and ?sigma1 = 1 and ?epsilon1 = 1] that
    by (simp add: shifted_by_def)
  show "EvaluatorPairLJ 1 4 (r * r) (3 * 3) False = None" if "3 \<le> r" for r :: real
    using mult_mono [of 3 r 3 r] that by (simp add: EvaluatorPairLJ_def)
  show "(V_powers 12 6 1 1 has_real_derivative dV_powers 12 6 1 1 3) (at 3)" by (rule V_powers_deriv) simp
qed auto

text \<open>
  The documentation of the modes shifts the energy for \<open>r_on >= r_cut\<close>; the comparison of the code is strict, and with equal
  radii the energy is neither smoothed nor shifted.
\<close>

lemma xplor_equal_radii: "smoothed_pair xplor ev rcutsq rcutsq rsq = ev rsq rcutsq False"
  by (cases "ev rsq rcutsq False") (auto simp: smoothed_pair_def use_energy_shift_def)

end
