(* ===== verification/Neighbor_List.thy ===== *)
theory Neighbor_List
  imports Potential_Pair GPU_Vector
begin

section \<open>NeighborList: state, cutoffs, exclusions and rebuilds\<close>

text \<open>
  The base class of \<^verbatim>\<open>hoomd/md/NeighborList.h\<close> and \<^verbatim>\<open>hoomd/md/NeighborList.cc\<close> with the part of \<^verbatim>\<open>hoomd/Compute.cc\<close>
  that it uses. The matrices of cutoffs belong to the consumers of the list: the list keeps pointers to them and the
  argument \<open>mats\<close> is the memory they point to. What the list reads of the rest of the system are the arguments \<open>sy\<close> (local
  box, dimension, width of the ghost layer, largest composite particle), \<open>pd\<close> (the particles of the rank), \<open>tp\<close> (the bonded
  groups) and \<open>others\<close> (whether another rank reports a moved particle or a body). \<open>buildNlist\<close> is virtual, it is the argument
  \<open>build\<close>; its result \<open>None\<close> stands for not returning.
\<close>

subsection \<open>State\<close>

datatype storageMode = half_mode | full_mode

text \<open>A two-dimensional array with its pitch and height, which the code copies into an \<open>Index2D\<close> after every change.\<close>

record grid =
  gr_pitch :: nat
  gr_height :: nat
  gr_data :: "nat list"

definition grid_at :: "grid \<Rightarrow> nat \<Rightarrow> nat \<Rightarrow> nat" where
  "grid_at g i j = j * gr_pitch g + i"

definition grid_resize :: "nat \<Rightarrow> nat \<Rightarrow> grid \<Rightarrow> grid" where
  "grid_resize width height g =
    \<lparr>gr_pitch = pitch_of_width width, gr_height = height,
     gr_data = resized_2d 0 (gr_pitch g) (pitch_of_width width) (gr_height g) height (gr_data g)\<rparr>"

definition grid_new :: "nat \<Rightarrow> nat \<Rightarrow> grid" where
  "grid_new width height =
    \<lparr>gr_pitch = pitch_of_width width, gr_height = height, gr_data = replicate (pitch_of_width width * height) 0\<rparr>"

record NeighborList =
  nb_first_compute :: bool
  nb_force_compute :: bool
  nb_last_computed :: u64
  nb_ntypes :: nat
  nb_r_cut :: "Scalar list"
  nb_r_listsq :: "Scalar list"
  nb_rcut_max :: "Scalar list"
  nb_consumer_r_cut :: "nat list"
  nb_rcut_max_max :: Scalar
  nb_rcut_min :: Scalar
  nb_r_buff :: Scalar
  nb_d_max :: Scalar
  nb_filter_body :: bool
  nb_diameter_shift :: bool
  nb_storage_mode :: storageMode
  nb_nlist :: "nat list"
  nb_n_neigh :: "nat list"
  nb_last_pos :: "vec3 list"
  nb_last_L :: vec3
  nb_last_L_local :: vec3
  nb_head_list :: "nat list"
  nb_Nmax :: "nat list"
  nb_conditions :: "nat list"
  nb_ex_list_tag :: grid
  nb_ex_list_idx :: grid
  nb_n_ex_tag :: "nat vec"
  nb_n_ex_idx :: "nat list"
  nb_exclusions_set :: bool
  nb_n_particles_changed :: bool
  nb_topology_changed :: bool
  nb_rcut_changed :: bool
  nb_updates :: u64
  nb_forced_updates :: u64
  nb_dangerous_updates :: u64
  nb_force_update :: bool
  nb_dist_check :: bool
  nb_has_been_updated_once :: bool
  nb_last_updated_tstep :: u64
  nb_last_checked_tstep :: u64
  nb_last_check_result :: bool
  nb_rebuild_check_delay :: u64
  nb_update_periods :: "u64 list"
  nb_exclusions :: "string list"

record nl_system =
  sy_box :: BoxDim
  sy_ndim :: nat
  sy_ghost_layer :: Scalar
  sy_max_d_comp :: Scalar

record topology =
  tp_bonds :: "(nat \<times> nat) list"
  tp_bond_by_tag :: "nat \<Rightarrow> nat \<times> nat"
  tp_meshbonds :: "(nat \<times> nat) list option"
  tp_pairs :: "(nat \<times> nat) list"
  tp_constraints :: "(nat \<times> nat) list"
  tp_angles :: "(nat \<times> nat \<times> nat) list"
  tp_dihedrals :: "(nat \<times> nat \<times> nat \<times> nat) list"

definition nb_typpair :: "'a NeighborList_scheme \<Rightarrow> nat \<Rightarrow> nat \<Rightarrow> nat" where
  "nb_typpair nb i j = j * nb_ntypes nb + i"

definition forceUpdate :: "'a NeighborList_scheme \<Rightarrow> 'a NeighborList_scheme" where
  "forceUpdate nb = nb\<lparr>nb_force_update := True\<rparr>"

definition notifyRCutMatrixChange :: "'a NeighborList_scheme \<Rightarrow> 'a NeighborList_scheme" where
  "notifyRCutMatrixChange nb = forceUpdate (nb\<lparr>nb_rcut_changed := True\<rparr>)"

text \<open>The result of \<open>shouldCompute\<close> and the state it leaves.\<close>

definition shouldCompute :: "u64 \<Rightarrow> 'a NeighborList_scheme \<Rightarrow> bool \<times> 'a NeighborList_scheme" where
  "shouldCompute timestep nb =
    (if nb_first_compute nb then (True, nb\<lparr>nb_first_compute := False, nb_last_computed := timestep\<rparr>)
     else if nb_force_compute nb then (True, nb\<lparr>nb_force_compute := False\<rparr>)
     else if nb_last_computed nb \<noteq> timestep then (True, nb\<lparr>nb_last_computed := timestep\<rparr>)
     else (False, nb))"

definition peekCompute :: "u64 \<Rightarrow> 'a NeighborList_scheme \<Rightarrow> bool" where
  "peekCompute timestep nb \<longleftrightarrow> nb_first_compute nb \<or> nb_force_compute nb \<or> nb_last_computed nb \<noteq> timestep"

subsection \<open>Cutoffs\<close>

definition addRCutMatrix :: "(nat \<Rightarrow> Scalar list) \<Rightarrow> nat \<Rightarrow> 'a NeighborList_scheme \<Rightarrow> 'a NeighborList_scheme result" where
  "addRCutMatrix mats p nb =
    (if length (mats p) \<noteq> length (nb_r_cut nb) then Inl (InvalidArgument ''given r_cut_matrix is not the right size'')
     else Inr (forceUpdate (notifyRCutMatrixChange (nb\<lparr>nb_consumer_r_cut := nb_consumer_r_cut nb @ [p]\<rparr>))))"

definition removeRCutMatrix :: "nat \<Rightarrow> 'a NeighborList_scheme \<Rightarrow> 'a NeighborList_scheme result" where
  "removeRCutMatrix p nb =
    (if p \<notin> set (nb_consumer_r_cut nb) then Inl (InvalidArgument ''r_cut_matrix not found in neighbor list'')
     else Inr (nb\<lparr>nb_consumer_r_cut := remove1 p (nb_consumer_r_cut nb)\<rparr>))"

text \<open>The new radius is stored before it is checked: the state is returned with the error.\<close>

definition setRBuff :: "Scalar \<Rightarrow> 'a NeighborList_scheme \<Rightarrow> 'a NeighborList_scheme \<times> unit result" where
  "setRBuff r_buff nb =
    (let nb = nb\<lparr>nb_r_buff := r_buff\<rparr> in
     if nb_r_buff nb < 0 then (nb, Inl (RuntimeError ''Requested buffer radius is less than zero.''))
     else (forceUpdate (notifyRCutMatrixChange nb), Inr ()))"

definition type_pairs :: "nat \<Rightarrow> (nat \<times> nat) list" where
  "type_pairs n = List.product [0..<n] [0..<n]"

definition max_matrix :: "'a NeighborList_scheme \<Rightarrow> Scalar list \<Rightarrow> Scalar list \<Rightarrow> Scalar list" where
  "max_matrix nb consumer r_cut =
    fold (\<lambda>(i, j) r. r[nb_typpair nb i j := max (r ! nb_typpair nb i j) (consumer ! nb_typpair nb i j)]) (type_pairs (nb_ntypes nb)) r_cut"

fun max_consumers :: "(nat \<Rightarrow> Scalar list) \<Rightarrow> 'a NeighborList_scheme \<Rightarrow> nat list \<Rightarrow> Scalar list \<Rightarrow> Scalar list result" where
  "max_consumers mats nb [] r_cut = Inr r_cut"
| "max_consumers mats nb (p # ps) r_cut =
    (if length (mats p) \<noteq> length (nb_r_cut nb) then Inl (InvalidArgument ''given r_cut_matrix is not the right size'')
     else max_consumers mats nb ps (max_matrix nb (mats p) r_cut))"

definition listsq_of :: "Scalar \<Rightarrow> Scalar \<Rightarrow> Scalar" where
  "listsq_of r_buff r_cut_ij = (let r_list = (if r_cut_ij > 0 then r_cut_ij + r_buff else 0) in r_list * r_list)"

definition updateRList :: "(nat \<Rightarrow> Scalar list) \<Rightarrow> 'a NeighborList_scheme \<Rightarrow> 'a NeighborList_scheme result" where
  "updateRList mats nb =
    bind_result (max_consumers mats nb (nb_consumer_r_cut nb) (replicate (length (nb_r_cut nb)) 0)) (\<lambda>r_cut.
      let n = nb_ntypes nb;
          r_listsq = fold (\<lambda>(i, j) q. q[nb_typpair nb i j := listsq_of (nb_r_buff nb) (r_cut ! nb_typpair nb i j)]) (type_pairs n) (nb_r_listsq nb);
          max_i = (\<lambda>i. fold (\<lambda>j m. if r_cut ! nb_typpair nb i j > m then r_cut ! nb_typpair nb i j else m) [0..<n] 0);
          rcut_max = fold (\<lambda>i q. q[i := max_i i]) [0..<n] (nb_rcut_max nb);
          r_cut_max = fold (\<lambda>i m. if max_i i > m then max_i i else m) [0..<n] 0;
          r_cut_min = fold (\<lambda>k m. if r_cut ! k > 0 \<and> r_cut ! k < m then r_cut ! k else m) [0..<n * n] r_cut_max
      in Inr (nb\<lparr>nb_r_cut := r_cut, nb_r_listsq := r_listsq, nb_rcut_max := rcut_max, nb_rcut_max_max := r_cut_max,
                 nb_rcut_min := r_cut_min, nb_rcut_changed := False\<rparr>))"

definition refresh_rcut :: "(nat \<Rightarrow> Scalar list) \<Rightarrow> 'a NeighborList_scheme \<Rightarrow> 'a NeighborList_scheme result" where
  "refresh_rcut mats nb = (if nb_rcut_changed nb then updateRList mats nb else Inr nb)"

definition add_shift :: "'a NeighborList_scheme \<Rightarrow> Scalar \<Rightarrow> Scalar" where
  "add_shift nb r = (if nb_diameter_shift nb then r + (nb_d_max nb - 1) else r)"

definition getMaxRList :: "(nat \<Rightarrow> Scalar list) \<Rightarrow> 'a NeighborList_scheme \<Rightarrow> (Scalar \<times> 'a NeighborList_scheme) result" where
  "getMaxRList mats nb = bind_result (refresh_rcut mats nb) (\<lambda>nb. Inr (add_shift nb (nb_rcut_max_max nb + nb_r_buff nb), nb))"

definition getMinRList :: "(nat \<Rightarrow> Scalar list) \<Rightarrow> 'a NeighborList_scheme \<Rightarrow> (Scalar \<times> 'a NeighborList_scheme) result" where
  "getMinRList mats nb = bind_result (refresh_rcut mats nb) (\<lambda>nb. Inr (add_shift nb (nb_rcut_min nb + nb_r_buff nb), nb))"

definition getGhostLayerWidth :: "(nat \<Rightarrow> Scalar list) \<Rightarrow> nat \<Rightarrow> 'a NeighborList_scheme \<Rightarrow> (Scalar \<times> 'a NeighborList_scheme) result" where
  "getGhostLayerWidth mats type nb =
    bind_result (refresh_rcut mats nb) (\<lambda>nb.
      let rcut_max_i = nb_rcut_max nb ! type in
      if rcut_max_i > 0 then Inr (add_shift nb (rcut_max_i + nb_r_buff nb), nb) else Inr (0, nb))"

definition estimateNNeigh :: "(nat \<Rightarrow> Scalar list) \<Rightarrow> nl_system \<Rightarrow> ParticleData \<Rightarrow> 'a NeighborList_scheme \<Rightarrow> (Scalar \<times> 'a NeighborList_scheme) result" where
  "estimateNNeigh mats sy pd nb =
    (let L = box_L (sy_box sy); vol = xc L * yc L * zc L; n_dens = real (pd_nparticles pd) / vol in
     bind_result (refresh_rcut mats nb) (\<lambda>nb.
       let r_max = add_shift nb (nb_rcut_max_max nb + nb_r_buff nb); vol_cut = 4 / 3 * pi * r_max * r_max * r_max
       in Inr (n_dens * vol_cut, nb)))"

definition checkBoxSize :: "nl_system \<Rightarrow> 'a NeighborList_scheme \<Rightarrow> unit result" where
  "checkBoxSize sy nb =
    (let (px, py, pz) = box_periodic (sy_box sy);
         d = getNearestPlaneDistance (sy_box sy);
         rmax = add_shift nb (nb_rcut_max_max nb + nb_r_buff nb);
         rmax = (if nb_filter_body nb then rmax + 1 / 2 * sy_max_d_comp sy else rmax)
     in if px \<and> xc d \<le> rmax * 2 \<or> py \<and> yc d \<le> rmax * 2 \<or> sy_ndim sy = 3 \<and> pz \<and> zc d \<le> rmax * 2
        then Inl (RuntimeError ''nlist: Simulation box is too small! Particles would be interacting with themselves.'')
        else Inr ())"

subsection \<open>Exclusions\<close>

definition isExcluded :: "nat \<Rightarrow> nat \<Rightarrow> 'a NeighborList_scheme \<Rightarrow> bool" where
  "isExcluded tag1 tag2 nb \<longleftrightarrow>
    list_ex (\<lambda>i. gr_data (nb_ex_list_tag nb) ! grid_at (nb_ex_list_tag nb) tag1 i = tag2) [0..<vec_get tag1 (nb_n_ex_tag nb)]"

definition growExclusionList :: "ParticleData \<Rightarrow> 'a NeighborList_scheme \<Rightarrow> 'a NeighborList_scheme" where
  "growExclusionList pd nb =
    (let new_height = gr_height (nb_ex_list_idx nb) + 1 in
     forceUpdate (nb\<lparr>nb_ex_list_tag := grid_resize (vec_len (pd_rtag pd)) new_height (nb_ex_list_tag nb),
                     nb_ex_list_idx := grid_resize (pd_max_nparticles pd) new_height (nb_ex_list_idx nb)\<rparr>))"

text \<open>The two halves of an exclusion: the partner is stored at the end of the column of a tag.\<close>

definition push_exclusion :: "nat \<Rightarrow> nat \<Rightarrow> 'a NeighborList_scheme \<Rightarrow> 'a NeighborList_scheme" where
  "push_exclusion tag partner nb =
    (let pos = vec_get tag (nb_n_ex_tag nb); g = nb_ex_list_tag nb in
     nb\<lparr>nb_ex_list_tag := g\<lparr>gr_data := (gr_data g)[grid_at g tag pos := partner]\<rparr>,
        nb_n_ex_tag := vec_set tag (pos + 1) (nb_n_ex_tag nb)\<rparr>)"

definition addExclusion :: "ParticleData \<Rightarrow> nat \<Rightarrow> nat \<Rightarrow> 'a NeighborList_scheme \<Rightarrow> 'a NeighborList_scheme" where
  "addExclusion pd tag1 tag2 nb =
    (let nb = nb\<lparr>nb_exclusions_set := True\<rparr> in
     if isExcluded tag1 tag2 nb then nb
     else
       let H = gr_height (nb_ex_list_idx nb);
           grow = (vec_get tag1 (nb_n_ex_tag nb) = H \<or> vec_get tag2 (nb_n_ex_tag nb) = H);
           nb = (if grow then growExclusionList pd nb else nb)
       in forceUpdate (push_exclusion tag2 tag1 (push_exclusion tag1 tag2 nb)))"

definition resizeAndClearExclusions :: "ParticleData \<Rightarrow> 'a NeighborList_scheme \<Rightarrow> 'a NeighborList_scheme" where
  "resizeAndClearExclusions pd nb =
    (let nb = (if nb_n_particles_changed nb then
                 let nb = nb\<lparr>nb_n_ex_tag := vec_resize 0 (vec_len (pd_rtag pd)) (nb_n_ex_tag nb)\<rparr>;
                     cap = length (vec_mem (nb_n_ex_tag nb)); g = nb_ex_list_tag nb
                 in if gr_pitch g \<noteq> cap then nb\<lparr>nb_ex_list_tag := grid_resize cap (gr_height g) g\<rparr> else nb
               else nb)
     in forceUpdate (nb\<lparr>nb_n_ex_tag := (nb_n_ex_tag nb)\<lparr>vec_mem := replicate (length (vec_mem (nb_n_ex_tag nb))) 0\<rparr>,
                        nb_n_ex_idx := replicate (length (nb_n_ex_idx nb)) 0, nb_exclusions_set := False\<rparr>))"

definition getNumExclusions :: "ParticleData \<Rightarrow> nat \<Rightarrow> 'a NeighborList_scheme \<Rightarrow> nat" where
  "getNumExclusions pd n_ex nb =
    length (filter (\<lambda>tag. isTagActive pd tag \<and> vec_get tag (nb_n_ex_tag nb) = n_ex) [0..<vec_len (pd_rtag pd) + 1])"

definition add_pairs :: "ParticleData \<Rightarrow> (nat \<times> nat) list \<Rightarrow> 'a NeighborList_scheme \<Rightarrow> 'a NeighborList_scheme" where
  "add_pairs pd ps nb = fold (\<lambda>(a, b). addExclusion pd a b) ps nb"

definition addExclusionsFromBonds :: "ParticleData \<Rightarrow> topology \<Rightarrow> 'a NeighborList_scheme \<Rightarrow> 'a NeighborList_scheme" where
  "addExclusionsFromBonds pd tp = add_pairs pd (tp_bonds tp)"

definition addExclusionsFromMeshBonds :: "ParticleData \<Rightarrow> (nat \<times> nat) list \<Rightarrow> 'a NeighborList_scheme \<Rightarrow> 'a NeighborList_scheme" where
  "addExclusionsFromMeshBonds pd bonds = add_pairs pd bonds"

definition addExclusionsFromAngles :: "ParticleData \<Rightarrow> topology \<Rightarrow> 'a NeighborList_scheme \<Rightarrow> 'a NeighborList_scheme" where
  "addExclusionsFromAngles pd tp = add_pairs pd (map (\<lambda>(a, b, c). (a, c)) (tp_angles tp))"

definition addExclusionsFromDihedrals :: "ParticleData \<Rightarrow> topology \<Rightarrow> 'a NeighborList_scheme \<Rightarrow> 'a NeighborList_scheme" where
  "addExclusionsFromDihedrals pd tp = add_pairs pd (map (\<lambda>(a, b, c, d). (a, d)) (tp_dihedrals tp))"

definition addExclusionsFromConstraints :: "ParticleData \<Rightarrow> topology \<Rightarrow> 'a NeighborList_scheme \<Rightarrow> 'a NeighborList_scheme" where
  "addExclusionsFromConstraints pd tp = add_pairs pd (tp_constraints tp)"

definition addExclusionsFromPairs :: "ParticleData \<Rightarrow> topology \<Rightarrow> 'a NeighborList_scheme \<Rightarrow> 'a NeighborList_scheme" where
  "addExclusionsFromPairs pd tp = add_pairs pd (tp_pairs tp)"

text \<open>The bonding partners of each particle: a row of eight cells per tag, the first of them the number of bonds.\<close>

definition MAXNBONDS :: nat where "MAXNBONDS = 8"

definition bond_step :: "nat \<times> nat \<Rightarrow> nat list \<Rightarrow> nat list result" where
  "bond_step bond l =
    (let (tagA, tagB) = bond;
         l = l[tagA * MAXNBONDS := l ! (tagA * MAXNBONDS) + 1]; nBondsA = l ! (tagA * MAXNBONDS);
         l = l[tagB * MAXNBONDS := l ! (tagB * MAXNBONDS) + 1]; nBondsB = l ! (tagB * MAXNBONDS)
     in if nBondsA \<ge> MAXNBONDS \<or> nBondsB \<ge> MAXNBONDS
        then Inl (RuntimeError ''Too many bonds to process exclusions for particle with tag'')
        else Inr (l[tagA * MAXNBONDS + nBondsA := tagB, tagB * MAXNBONDS + nBondsB := tagA]))"

fun bond_list :: "(nat \<times> nat) list \<Rightarrow> nat list \<Rightarrow> nat list result" where
  "bond_list [] l = Inr l"
| "bond_list (b # bs) l = bind_result (bond_step b l) (bond_list bs)"

definition bonds_by_tag :: "topology \<Rightarrow> (nat \<times> nat) list" where
  "bonds_by_tag tp = map (tp_bond_by_tag tp) [0..<length (tp_bonds tp)]"

definition one_three_pairs :: "nat \<Rightarrow> nat list \<Rightarrow> (nat \<times> nat) list" where
  "one_three_pairs myNAtoms l =
    concat (map (\<lambda>i. let iAtom = i * MAXNBONDS; nBonds = l ! iAtom in
      if nBonds > 1 then concat (map (\<lambda>j. map (\<lambda>k. (l ! (iAtom + j), l ! (iAtom + k))) [j + 1..<nBonds + 1]) [1..<nBonds]) else []) [0..<myNAtoms])"

definition addOneThreeExclusionsFromTopology :: "ParticleData \<Rightarrow> topology \<Rightarrow> 'a NeighborList_scheme \<Rightarrow> 'a NeighborList_scheme result" where
  "addOneThreeExclusionsFromTopology pd tp nb =
    (let myNAtoms = vec_len (pd_rtag pd) in
     if length (tp_bonds tp) = 0 then Inr nb
     else bind_result (bond_list (bonds_by_tag tp) (replicate (MAXNBONDS * myNAtoms) 0))
            (\<lambda>l. Inr (add_pairs pd (one_three_pairs myNAtoms l) nb)))"

definition one_four_pairs :: "(nat \<times> nat) list \<Rightarrow> nat list \<Rightarrow> (nat \<times> nat) list" where
  "one_four_pairs bonds l =
    concat (map (\<lambda>(tagA, tagB).
      concat (map (\<lambda>j. let tagJ = l ! (tagA * MAXNBONDS + j) in
        if tagJ = tagB then []
        else concat (map (\<lambda>k. let tagK = l ! (tagB * MAXNBONDS + k) in if tagK = tagA then [] else [(tagJ, tagK)])
               [1..<l ! (tagB * MAXNBONDS) + 1]))
        [1..<l ! (tagA * MAXNBONDS) + 1])) bonds)"

definition addOneFourExclusionsFromTopology :: "ParticleData \<Rightarrow> topology \<Rightarrow> 'a NeighborList_scheme \<Rightarrow> 'a NeighborList_scheme result" where
  "addOneFourExclusionsFromTopology pd tp nb =
    (let myNAtoms = vec_len (pd_rtag pd) in
     if length (tp_bonds tp) = 0 then Inr nb
     else bind_result (bond_list (bonds_by_tag tp) (replicate (MAXNBONDS * myNAtoms) 0))
            (\<lambda>l. Inr (add_pairs pd (one_four_pairs (bonds_by_tag tp) l) nb)))"

definition hasBodies :: "bool \<Rightarrow> ParticleData \<Rightarrow> bool" where
  "hasBodies others pd \<longleftrightarrow> list_ex (\<lambda>e. pe_body e \<noteq> NO_BODY) (take (pd_nparticles pd) (pd_elems pd)) \<or> others"

definition setFilterBody :: "bool \<Rightarrow> ParticleData \<Rightarrow> bool \<Rightarrow> 'a NeighborList_scheme \<Rightarrow> 'a NeighborList_scheme" where
  "setFilterBody others pd filter_body nb =
    forceUpdate (if hasBodies others pd \<or> \<not> filter_body then nb\<lparr>nb_filter_body := filter_body\<rparr> else nb)"

text \<open>The names of the exclusions in the order in which a set of strings is traversed.\<close>

definition exclusion_names :: "string list" where
  "exclusion_names = [''1-3'', ''1-4'', ''angle'', ''body'', ''bond'', ''constraint'', ''dihedral'', ''meshbond'', ''special_pair'']"

definition insert_exclusion :: "string \<Rightarrow> 'a NeighborList_scheme \<Rightarrow> 'a NeighborList_scheme" where
  "insert_exclusion e nb = nb\<lparr>nb_exclusions := filter (\<lambda>k. k = e \<or> k \<in> set (nb_exclusions nb)) exclusion_names\<rparr>"

definition setSingleExclusion :: "bool \<Rightarrow> ParticleData \<Rightarrow> topology \<Rightarrow> string \<Rightarrow> 'a NeighborList_scheme \<Rightarrow> 'a NeighborList_scheme result" where
  "setSingleExclusion others pd tp exclusion nb =
    (let ok = (\<lambda>nb. Inr (insert_exclusion exclusion nb)) in
     if exclusion = ''bond'' then ok (addExclusionsFromBonds pd tp nb)
     else if exclusion = ''meshbond'' \<and> tp_meshbonds tp \<noteq> None then ok (addExclusionsFromMeshBonds pd (the (tp_meshbonds tp)) nb)
     else if exclusion = ''special_pair'' then ok (addExclusionsFromPairs pd tp nb)
     else if exclusion = ''constraint'' then ok (addExclusionsFromConstraints pd tp nb)
     else if exclusion = ''angle'' then ok (addExclusionsFromAngles pd tp nb)
     else if exclusion = ''dihedral'' then ok (addExclusionsFromDihedrals pd tp nb)
     else if exclusion = ''body'' then ok (setFilterBody others pd True nb)
     else if exclusion = ''1-3'' then bind_result (addOneThreeExclusionsFromTopology pd tp nb) ok
     else if exclusion = ''1-4'' then bind_result (addOneFourExclusionsFromTopology pd tp nb) ok
     else Inr nb)"

fun set_each_exclusion :: "bool \<Rightarrow> ParticleData \<Rightarrow> topology \<Rightarrow> string list \<Rightarrow> 'a NeighborList_scheme \<Rightarrow> 'a NeighborList_scheme result" where
  "set_each_exclusion others pd tp [] nb = Inr nb"
| "set_each_exclusion others pd tp (e # es) nb = bind_result (setSingleExclusion others pd tp e nb) (set_each_exclusion others pd tp es)"

definition setExclusions :: "bool \<Rightarrow> ParticleData \<Rightarrow> topology \<Rightarrow> string list \<Rightarrow> 'a NeighborList_scheme \<Rightarrow> 'a NeighborList_scheme result" where
  "setExclusions others pd tp exclusions nb =
    set_each_exclusion others pd tp exclusions ((setFilterBody others pd False (resizeAndClearExclusions pd nb))\<lparr>nb_exclusions := []\<rparr>)"

definition updateExListIdx :: "ParticleData \<Rightarrow> 'a NeighborList_scheme \<Rightarrow> 'a NeighborList_scheme" where
  "updateExListIdx pd nb =
    fold (\<lambda>idx nb.
      let tag = pd_tag pd idx; n = vec_get tag (nb_n_ex_tag nb); g = nb_ex_list_idx nb in
      nb\<lparr>nb_n_ex_idx := (nb_n_ex_idx nb)[idx := n],
         nb_ex_list_idx := g\<lparr>gr_data :=
           fold (\<lambda>offset d. d[grid_at g idx offset := getRTag pd (gr_data (nb_ex_list_tag nb) ! grid_at (nb_ex_list_tag nb) tag offset)]) [0..<n] (gr_data g)\<rparr>\<rparr>)
      [0..<pd_nparticles pd] nb"

definition excluded_idx :: "'a NeighborList_scheme \<Rightarrow> nat \<Rightarrow> nat \<Rightarrow> bool" where
  "excluded_idx nb idx cur_neigh \<longleftrightarrow>
    list_ex (\<lambda>k. gr_data (nb_ex_list_idx nb) ! grid_at (nb_ex_list_idx nb) idx k = cur_neigh) [0..<nb_n_ex_idx nb ! idx]"

definition filter_particle :: "'a NeighborList_scheme \<Rightarrow> nat \<Rightarrow> nat list \<times> nat list \<Rightarrow> nat list \<times> nat list" where
  "filter_particle nb idx st =
    (let (nlist, n_neigh) = st; myHead = nb_head_list nb ! idx;
         (nlist, new_n_neigh) =
           fold (\<lambda>k (nlist, n). let cur_neigh = nlist ! (myHead + k) in
                   if \<not> excluded_idx nb idx cur_neigh then (nlist[myHead + n := cur_neigh], n + 1) else (nlist, n))
             [0..<n_neigh ! idx] (nlist, 0)
     in (nlist, n_neigh[idx := new_n_neigh]))"

definition filterNlist :: "ParticleData \<Rightarrow> 'a NeighborList_scheme \<Rightarrow> 'a NeighborList_scheme" where
  "filterNlist pd nb =
    (let (nlist, n_neigh) = fold (filter_particle nb) [0..<pd_nparticles pd] (nb_nlist nb, nb_n_neigh nb)
     in nb\<lparr>nb_nlist := nlist, nb_n_neigh := n_neigh\<rparr>)"

subsection \<open>Memory of the list\<close>

definition round_up_4 :: "nat \<Rightarrow> nat" where
  "round_up_4 n = (if n > 4 then (n + 3) div 4 * 4 else 4)"

definition resizeNlist :: "nat \<Rightarrow> 'a NeighborList_scheme \<Rightarrow> 'a NeighborList_scheme" where
  "resizeNlist sz nb =
    (let n = length (nb_nlist nb) in
     if sz > n then nb\<lparr>nb_nlist := resized 0 (round_up_4 (grow_alloc sz (if n = 0 then 1 else n))) (nb_nlist nb)\<rparr> else nb)"

definition buildHeadList :: "ParticleData \<Rightarrow> 'a NeighborList_scheme \<Rightarrow> 'a NeighborList_scheme" where
  "buildHeadList pd nb =
    (let (heads, headAddress) =
           fold (\<lambda>i (heads, a). (heads[i := a], a + nb_Nmax nb ! pe_type (pd_elems pd ! i))) [0..<pd_nparticles pd] (nb_head_list nb, 0)
     in resizeNlist headAddress (nb\<lparr>nb_head_list := heads\<rparr>))"

definition checkConditions :: "'a NeighborList_scheme \<Rightarrow> bool \<times> 'a NeighborList_scheme" where
  "checkConditions nb =
    (let (result, Nmax) =
           fold (\<lambda>i (r, Nmax). if nb_conditions nb ! i > Nmax ! i then (True, Nmax[i := round_up_4 (nb_conditions nb ! i)]) else (r, Nmax))
             [0..<nb_ntypes nb] (False, nb_Nmax nb)
     in (result, nb\<lparr>nb_Nmax := Nmax\<rparr>))"

definition resetConditions :: "'a NeighborList_scheme \<Rightarrow> 'a NeighborList_scheme" where
  "resetConditions nb = nb\<lparr>nb_conditions := replicate (nb_ntypes nb) 0\<rparr>"

definition nb_reallocate :: "ParticleData \<Rightarrow> 'a NeighborList_scheme \<Rightarrow> 'a NeighborList_scheme" where
  "nb_reallocate pd nb =
    (let m = pd_max_nparticles pd in
     forceUpdate (nb\<lparr>nb_last_pos := resized (0, 0, 0) m (nb_last_pos nb), nb_n_ex_idx := resized 0 m (nb_n_ex_idx nb),
       nb_ex_list_idx := grid_resize m (gr_height (nb_ex_list_idx nb)) (nb_ex_list_idx nb),
       nb_head_list := resized 0 m (nb_head_list nb), nb_n_neigh := resized 0 m (nb_n_neigh nb)\<rparr>))"

subsection \<open>When to rebuild\<close>

definition distanceCheck :: "bool \<Rightarrow> nl_system \<Rightarrow> ParticleData \<Rightarrow> 'a NeighborList_scheme \<Rightarrow> bool" where
  "distanceCheck others sy pd nb =
    (let L_g = getNearestPlaneDistance (pd_global_box pd); last = nb_last_L nb;
         lambda = (xc L_g / xc last, yc L_g / yc last, zc L_g / zc last);
         lambda_min = (if xc lambda < yc lambda then xc lambda else yc lambda);
         lambda_min = (if lambda_min < zc lambda then lambda_min else zc lambda)
     in list_ex (\<lambda>i.
          let e = pd_elems pd ! i; old_rmin = nb_rcut_max nb ! pe_type e; rmax = old_rmin + nb_r_buff nb;
              delta_max = (rmax * lambda_min - old_rmin) / 2;
              maxsq = (if delta_max > 0 then delta_max * delta_max else 0);
              p = pe_pos e; q = nb_last_pos nb ! i;
              dx = minImage (sy_box sy) (xc p - xc lambda * xc q, yc p - yc lambda * yc q, zc p - zc lambda * zc q)
          in dot3 dx dx \<ge> maxsq) [0..<pd_nparticles pd]
        \<or> others)"

definition setLastUpdatedPos :: "nl_system \<Rightarrow> ParticleData \<Rightarrow> 'a NeighborList_scheme \<Rightarrow> 'a NeighborList_scheme" where
  "setLastUpdatedPos sy pd nb =
    nb\<lparr>nb_last_pos := fold (\<lambda>i l. l[i := pe_pos (pd_elems pd ! i)]) [0..<pd_nparticles pd] (nb_last_pos nb),
       nb_last_L := getNearestPlaneDistance (pd_global_box pd), nb_last_L_local := getNearestPlaneDistance (sy_box sy)\<rparr>"

definition shouldCheckDistance :: "u64 \<Rightarrow> 'a NeighborList_scheme \<Rightarrow> bool" where
  "shouldCheckDistance timestep nb \<longleftrightarrow>
    \<not> nb_force_update nb \<and> \<not> timestep < nb_last_updated_tstep nb + nb_rebuild_check_delay nb"

definition record_update :: "u64 \<Rightarrow> 'a NeighborList_scheme \<Rightarrow> 'a NeighborList_scheme" where
  "record_update timestep nb =
    (let nb = (if timestep > nb_last_updated_tstep nb then
                 let period = unat (timestep - nb_last_updated_tstep nb); n = length (nb_update_periods nb);
                     period = (if period \<ge> n then n - 1 else period)
                 in nb\<lparr>nb_update_periods := (nb_update_periods nb)[period := nb_update_periods nb ! period + 1]\<rparr>
               else nb)
     in nb\<lparr>nb_last_updated_tstep := timestep, nb_updates := nb_updates nb + 1\<rparr>)"

definition needsUpdating :: "bool \<Rightarrow> u64 \<Rightarrow> nl_system \<Rightarrow> ParticleData \<Rightarrow> 'a NeighborList_scheme \<Rightarrow> bool \<times> 'a NeighborList_scheme" where
  "needsUpdating others timestep sy pd nb =
    (if nb_last_checked_tstep nb = timestep then
       if nb_force_update nb then (True, nb\<lparr>nb_force_update := False\<rparr>) else (nb_last_check_result nb, nb)
     else
       let nb = nb\<lparr>nb_last_checked_tstep := timestep\<rparr> in
       if \<not> nb_force_update nb \<and> \<not> shouldCheckDistance timestep nb then (False, nb\<lparr>nb_last_check_result := False\<rparr>)
       else
         let at_delay = (nb_rebuild_check_delay nb > 1 \<and> timestep = nb_last_updated_tstep nb + nb_rebuild_check_delay nb);
             dangerous = (nb_dist_check nb \<and> at_delay);
             (result, dangerous, nb) =
               (if nb_force_update nb
                then (True, False, nb\<lparr>nb_force_update := False, nb_forced_updates := nb_forced_updates nb + 1, nb_last_updated_tstep := timestep\<rparr>)
                else
                  let result = (if nb_r_buff nb < 1 / 1000000 \<or> (\<not> nb_dist_check nb \<and> (nb_rebuild_check_delay nb = 0 \<or> at_delay)) then True
                                else distanceCheck others sy pd nb)
                  in (result, dangerous, if result then record_update timestep nb else nb));
             nb = (if result \<and> dangerous then nb\<lparr>nb_dangerous_updates := nb_dangerous_updates nb + 1\<rparr> else nb)
         in (result, nb\<lparr>nb_last_check_result := result\<rparr>))"

definition resetStats :: "'a NeighborList_scheme \<Rightarrow> 'a NeighborList_scheme" where
  "resetStats nb = nb\<lparr>nb_updates := 0, nb_forced_updates := 0, nb_dangerous_updates := 0,
     nb_update_periods := replicate (length (nb_update_periods nb)) 0\<rparr>"

fun first_nonzero :: "u64 list \<Rightarrow> nat \<Rightarrow> nat" where
  "first_nonzero [] i = i"
| "first_nonzero (p # ps) i = (if p \<noteq> 0 then i else first_nonzero ps (i + 1))"

definition getSmallestRebuild :: "'a NeighborList_scheme \<Rightarrow> nat" where
  "getSmallestRebuild nb = first_nonzero (nb_update_periods nb) 0"

definition hasBeenUpdated :: "u64 \<Rightarrow> 'a NeighborList_scheme \<Rightarrow> bool" where
  "hasBeenUpdated timestep nb \<longleftrightarrow> nb_last_updated_tstep nb = timestep \<and> nb_has_been_updated_once nb"

subsection \<open>Compute\<close>

partial_function (option) rebuild_loop ::
  "('a NeighborList_scheme \<Rightarrow> 'a NeighborList_scheme result option) \<Rightarrow> ParticleData \<Rightarrow> 'a NeighborList_scheme \<Rightarrow> 'a NeighborList_scheme result option" where
  "rebuild_loop build pd nb =
    (case build nb of
       None \<Rightarrow> None
     | Some (Inl e) \<Rightarrow> Some (Inl e)
     | Some (Inr nb) \<Rightarrow>
         let (overflowed, nb) = checkConditions nb in
         if overflowed then rebuild_loop build pd (resetConditions (buildHeadList pd nb)) else Some (Inr nb))"

definition rebuild ::
  "('a NeighborList_scheme \<Rightarrow> 'a NeighborList_scheme result option) \<Rightarrow> nl_system \<Rightarrow> ParticleData \<Rightarrow> 'a NeighborList_scheme \<Rightarrow> 'a NeighborList_scheme result option" where
  "rebuild build sy pd nb =
    (case checkBoxSize sy nb of
       Inl e \<Rightarrow> Some (Inl e)
     | Inr _ \<Rightarrow> map_option (map_sum id (\<lambda>nb.
         let nb = (if nb_exclusions_set nb then filterNlist pd nb else nb);
             nb = setLastUpdatedPos sy pd nb
         in nb\<lparr>nb_has_been_updated_once := True\<rparr>)) (rebuild_loop build pd nb))"

definition refresh_exclusions :: "bool \<Rightarrow> ParticleData \<Rightarrow> topology \<Rightarrow> 'a NeighborList_scheme \<Rightarrow> 'a NeighborList_scheme result" where
  "refresh_exclusions others pd tp nb =
    (if nb_n_particles_changed nb \<or> nb_topology_changed nb then
       let nb = (resizeAndClearExclusions pd nb)\<lparr>nb_n_particles_changed := False, nb_topology_changed := False\<rparr>
       in set_each_exclusion others pd tp (nb_exclusions nb) nb
     else Inr nb)"

definition refresh_heads :: "ParticleData \<Rightarrow> 'a NeighborList_scheme \<Rightarrow> 'a NeighborList_scheme" where
  "refresh_heads pd nb =
    (if nb_force_update nb then
       let nb = buildHeadList pd nb in if nb_exclusions_set nb then updateExListIdx pd nb else nb
     else nb)"

definition nl_compute ::
  "('a NeighborList_scheme \<Rightarrow> 'a NeighborList_scheme result option) \<Rightarrow> (nat \<Rightarrow> Scalar list) \<Rightarrow> bool \<Rightarrow> nl_system \<Rightarrow> topology \<Rightarrow> ParticleData \<Rightarrow>
    u64 \<Rightarrow> 'a NeighborList_scheme \<Rightarrow> 'a NeighborList_scheme result option" where
  "nl_compute build mats others sy tp pd timestep nb =
    (case refresh_rcut mats nb of
       Inl e \<Rightarrow> Some (Inl e)
     | Inr nb \<Rightarrow>
         let (should, nb) = shouldCompute timestep nb in
         if \<not> should \<and> \<not> nb_force_update nb then Some (Inr nb)
         else
           (case refresh_exclusions others pd tp nb of
              Inl e \<Rightarrow> Some (Inl e)
            | Inr nb \<Rightarrow>
                let (needed, nb) = needsUpdating others timestep sy pd (refresh_heads pd nb)
                in if needed then rebuild build sy pd nb else Some (Inr nb)))"

subsection \<open>Settings and signals\<close>

definition setRebuildCheckDelay :: "u64 \<Rightarrow> 'a NeighborList_scheme \<Rightarrow> 'a NeighborList_scheme" where
  "setRebuildCheckDelay every nb = forceUpdate (nb\<lparr>nb_rebuild_check_delay := every\<rparr>)"

definition setDistCheck :: "bool \<Rightarrow> 'a NeighborList_scheme \<Rightarrow> 'a NeighborList_scheme" where
  "setDistCheck dist_check nb = nb\<lparr>nb_dist_check := dist_check\<rparr>"

definition setStorageMode :: "storageMode \<Rightarrow> 'a NeighborList_scheme \<Rightarrow> 'a NeighborList_scheme" where
  "setStorageMode mode nb = forceUpdate (nb\<lparr>nb_storage_mode := mode\<rparr>)"

definition setDiameterShift :: "bool \<Rightarrow> 'a NeighborList_scheme \<Rightarrow> 'a NeighborList_scheme" where
  "setDiameterShift diameter_shift nb = forceUpdate (notifyRCutMatrixChange (nb\<lparr>nb_diameter_shift := diameter_shift\<rparr>))"

definition setMaximumDiameter :: "Scalar \<Rightarrow> 'a NeighborList_scheme \<Rightarrow> 'a NeighborList_scheme" where
  "setMaximumDiameter d_max nb = forceUpdate (notifyRCutMatrixChange (nb\<lparr>nb_d_max := d_max\<rparr>))"

definition getNumUpdates :: "'a NeighborList_scheme \<Rightarrow> u64" where
  "getNumUpdates nb = nb_updates nb + nb_forced_updates nb"

definition peekUpdate :: "bool \<Rightarrow> u64 \<Rightarrow> nl_system \<Rightarrow> ParticleData \<Rightarrow> 'a NeighborList_scheme \<Rightarrow> bool \<times> 'a NeighborList_scheme" where
  "peekUpdate others timestep sy pd nb = (let (result, nb) = needsUpdating others timestep sy pd nb in (result, nb))"

text \<open>The fields a ghost particle has to carry: its tag and its body.\<close>

definition getRequestedCommFlags :: "'a NeighborList_scheme \<Rightarrow> bool \<times> bool" where
  "getRequestedCommFlags nb = (nb_exclusions_set nb, nb_filter_body nb)"

definition slotGlobalParticleNumberChange :: "'a NeighborList_scheme \<Rightarrow> 'a NeighborList_scheme" where
  "slotGlobalParticleNumberChange nb = nb\<lparr>nb_n_particles_changed := True\<rparr>"

definition slotGlobalTopologyNumberChange :: "'a NeighborList_scheme \<Rightarrow> 'a NeighborList_scheme" where
  "slotGlobalTopologyNumberChange nb = nb\<lparr>nb_topology_changed := True\<rparr>"

text \<open>The constructor; a memory of fresh exclusion counters is the argument \<open>fresh\<close>.\<close>

definition make_NeighborList :: "(nat \<Rightarrow> nat) \<Rightarrow> nl_system \<Rightarrow> ParticleData \<Rightarrow> Scalar \<Rightarrow> NeighborList result" where
  "make_NeighborList fresh sy pd r_buff =
    (if r_buff < 0 then Inl (RuntimeError ''Requested buffer radius is less than zero.'')
     else
       let n = length (pd_type_mapping pd); m = pd_max_nparticles pd; t = vec_len (pd_rtag pd) in
       Inr (resizeAndClearExclusions pd
         \<lparr>nb_first_compute = True, nb_force_compute = False, nb_last_computed = 0, nb_ntypes = n,
          nb_r_cut = replicate (n * n) 0, nb_r_listsq = replicate (n * n) 0, nb_rcut_max = replicate n 0, nb_consumer_r_cut = [],
          nb_rcut_max_max = 0, nb_rcut_min = 0, nb_r_buff = r_buff, nb_d_max = 1, nb_filter_body = False, nb_diameter_shift = False,
          nb_storage_mode = half_mode, nb_nlist = replicate (4 * m) 0, nb_n_neigh = replicate m 0, nb_last_pos = replicate m (0, 0, 0),
          nb_last_L = getNearestPlaneDistance (pd_global_box pd), nb_last_L_local = getNearestPlaneDistance (sy_box sy),
          nb_head_list = replicate m 0, nb_Nmax = replicate n 4, nb_conditions = replicate n 0,
          nb_ex_list_tag = grid_new t 1, nb_ex_list_idx = grid_new m 1, nb_n_ex_tag = vec_resize 0 t (vec_empty fresh), nb_n_ex_idx = replicate m 0,
          nb_exclusions_set = False, nb_n_particles_changed = False, nb_topology_changed = False, nb_rcut_changed = True,
          nb_updates = 0, nb_forced_updates = 0, nb_dangerous_updates = 0, nb_force_update = True, nb_dist_check = True,
          nb_has_been_updated_once = False, nb_last_updated_tstep = 0, nb_last_checked_tstep = 0, nb_last_check_result = False,
          nb_rebuild_check_delay = 0, nb_update_periods = replicate 100 0, nb_exclusions = []\<rparr>))"

end
