(* ===== verification/AABB_Tree.thy ===== *)
theory AABB_Tree
  imports Box_Dim "HOL-Library.Multiset"
begin

section \<open>AABBTree: bounding volume hierarchy\<close>

text \<open>
  The boxes of \<^verbatim>\<open>hoomd/AABB.h\<close> (the variant with plain vectors) and the tree of \<^verbatim>\<open>hoomd/AABBTree.h\<close>: the node array that grows by
  doubling, the recursive build with its in-place partition, the skip counts, the stackless query, the update of
  one particle and the height. Positions in the arrays are natural numbers; the recursion over node links
  (\<open>updateSkip\<close>, the walks along the parents) is \<open>partial_function\<close>, so that it ends is a statement. The trees that
  the build lays out in the array are the datatype \<open>bvh\<close>, on which the meaning of a query is plain. A failing
  memory allocation is not modelled.
\<close>

subsection \<open>AABB\<close>

record AABB =
  aabb_lower :: vec3
  aabb_upper :: vec3
  aabb_tag :: nat

definition AABB_default :: AABB where
  "AABB_default = \<lparr>aabb_lower = (0, 0, 0), aabb_upper = (0, 0, 0), aabb_tag = 0\<rparr>"

definition AABB_corners :: "vec3 \<Rightarrow> vec3 \<Rightarrow> AABB" where
  "AABB_corners l u = \<lparr>aabb_lower = l, aabb_upper = u, aabb_tag = 0\<rparr>"

definition AABB_sphere :: "vec3 \<Rightarrow> Scalar \<Rightarrow> AABB" where
  "AABB_sphere position radius =
    \<lparr>aabb_lower = (xc position - radius, yc position - radius, zc position - radius),
     aabb_upper = (xc position + radius, yc position + radius, zc position + radius), aabb_tag = 0\<rparr>"

definition AABB_point :: "vec3 \<Rightarrow> nat \<Rightarrow> AABB" where
  "AABB_point position tag = \<lparr>aabb_lower = position, aabb_upper = position, aabb_tag = tag\<rparr>"

definition aabb_getPosition :: "AABB \<Rightarrow> vec3" where
  "aabb_getPosition a = (let s = vadd (aabb_lower a) (aabb_upper a) in (xc s / 2, yc s / 2, zc s / 2))"

definition aabb_translate :: "vec3 \<Rightarrow> AABB \<Rightarrow> AABB" where
  "aabb_translate v a = a\<lparr>aabb_upper := vadd (aabb_upper a) v, aabb_lower := vadd (aabb_lower a) v\<rparr>"

definition overlap :: "AABB \<Rightarrow> AABB \<Rightarrow> bool" where
  "overlap a b \<longleftrightarrow> \<not> (xc (aabb_upper b) < xc (aabb_lower a) \<or> xc (aabb_lower b) > xc (aabb_upper a)
    \<or> yc (aabb_upper b) < yc (aabb_lower a) \<or> yc (aabb_lower b) > yc (aabb_upper a)
    \<or> zc (aabb_upper b) < zc (aabb_lower a) \<or> zc (aabb_lower b) > zc (aabb_upper a))"

definition contains :: "AABB \<Rightarrow> AABB \<Rightarrow> bool" where
  "contains a b \<longleftrightarrow> xc (aabb_lower b) \<ge> xc (aabb_lower a) \<and> xc (aabb_upper b) \<le> xc (aabb_upper a)
    \<and> yc (aabb_lower b) \<ge> yc (aabb_lower a) \<and> yc (aabb_upper b) \<le> yc (aabb_upper a)
    \<and> zc (aabb_lower b) \<ge> zc (aabb_lower a) \<and> zc (aabb_upper b) \<le> zc (aabb_upper a)"

definition merge :: "AABB \<Rightarrow> AABB \<Rightarrow> AABB" where
  "merge a b = AABB_default
    \<lparr>aabb_lower := (min (xc (aabb_lower a)) (xc (aabb_lower b)), min (yc (aabb_lower a)) (yc (aabb_lower b)), min (zc (aabb_lower a)) (zc (aabb_lower b))),
     aabb_upper := (max (xc (aabb_upper a)) (xc (aabb_upper b)), max (yc (aabb_upper a)) (yc (aabb_upper b)), max (zc (aabb_upper a)) (zc (aabb_upper b)))\<rparr>"

subsection \<open>The tree in its array\<close>

definition NODE_CAPACITY :: nat where "NODE_CAPACITY = 16"
definition INVALID_NODE :: nat where "INVALID_NODE = 4294967295"

record AABBNode =
  nd_aabb :: AABB
  nd_left :: nat
  nd_right :: nat
  nd_parent :: nat
  nd_skip :: nat
  nd_particles :: "nat list"
  nd_particle_tags :: "nat list"
  nd_num_particles :: nat

text \<open>The arrays of a fresh node are not initialised in the code; entries from \<open>num_particles\<close> on are never read.\<close>

definition AABBNode_default :: AABBNode where
  "AABBNode_default = \<lparr>nd_aabb = AABB_default, nd_left = INVALID_NODE, nd_right = INVALID_NODE, nd_parent = INVALID_NODE,
     nd_skip = 0, nd_particles = replicate NODE_CAPACITY 0, nd_particle_tags = replicate NODE_CAPACITY 0, nd_num_particles = 0\<rparr>"

record AABBTree =
  at_nodes :: "AABBNode list"
  at_num_nodes :: nat
  at_node_capacity :: nat
  at_root :: nat
  at_mapping :: "nat list"

definition AABBTree_new :: AABBTree where
  "AABBTree_new = \<lparr>at_nodes = [], at_num_nodes = 0, at_node_capacity = 0, at_root = 0, at_mapping = []\<rparr>"

definition isNodeLeaf :: "AABBNode list \<Rightarrow> nat \<Rightarrow> bool" where
  "isNodeLeaf nodes node \<longleftrightarrow> nd_left (nodes ! node) = INVALID_NODE"

definition tree_init :: "nat \<Rightarrow> AABBTree \<Rightarrow> AABBTree" where
  "tree_init N t = t\<lparr>at_num_nodes := 0, at_root := INVALID_NODE, at_mapping := replicate N INVALID_NODE\<rparr>"

definition allocateNode :: "AABBTree \<Rightarrow> nat \<times> AABBTree" where
  "allocateNode t =
    (let t = (if at_num_nodes t \<ge> at_node_capacity t then
                let c = at_node_capacity t * 2; c = (if c = 0 then 16 else c)
                in t\<lparr>at_nodes := take (at_num_nodes t) (at_nodes t) @ replicate (c - at_num_nodes t) AABBNode_default, at_node_capacity := c\<rparr>
              else t);
         t = t\<lparr>at_nodes := (at_nodes t)[at_num_nodes t := AABBNode_default], at_num_nodes := at_num_nodes t + 1\<rparr>
     in (at_num_nodes t - 1, t))"

subsection \<open>Building\<close>

definition swap_at :: "nat \<Rightarrow> nat \<Rightarrow> 'a list \<Rightarrow> 'a list" where
  "swap_at i j xs = xs[i := xs ! j, j := xs ! i]"

function split_loop :: "(vec3 \<Rightarrow> Scalar) \<Rightarrow> Scalar \<Rightarrow> nat \<Rightarrow> nat \<Rightarrow> nat \<Rightarrow> AABB list \<Rightarrow> nat list \<Rightarrow> nat \<times> AABB list \<times> nat list" where
  "split_loop coord mid start i start_right aabbs idx =
    (if i < start_right then
       if coord (aabb_getPosition (aabbs ! (start + i))) < mid
       then split_loop coord mid start (i + 1) start_right aabbs idx
       else split_loop coord mid start i (start_right - 1) (swap_at (start + i) (start + start_right - 1) aabbs)
              (swap_at (start + i) (start + start_right - 1) idx)
     else (start_right, aabbs, idx))"
  by pat_completeness auto
termination by (relation "measure (\<lambda>(c, m, s, i, r, a, x). r - i)") auto

declare split_loop.simps [simp del]

definition choose_split :: "AABB \<Rightarrow> nat \<Rightarrow> nat \<Rightarrow> AABB list \<Rightarrow> nat list \<Rightarrow> nat \<times> AABB list \<times> nat list" where
  "choose_split my_aabb start len aabbs idx =
    (let my_radius = vsub (aabb_upper my_aabb) (aabb_lower my_aabb); p = aabb_getPosition my_aabb in
     if len = 2 then (len, aabbs, idx)
     else if xc my_radius > yc my_radius \<and> xc my_radius > zc my_radius
     then split_loop (\<lambda>v. xc v) (xc p) start 0 len aabbs idx
     else if yc my_radius > zc my_radius
     then split_loop (\<lambda>v. yc v) (yc p) start 0 len aabbs idx
     else split_loop (\<lambda>v. zc v) (zc p) start 0 len aabbs idx)"

definition borrow_one :: "nat \<Rightarrow> nat \<Rightarrow> nat" where
  "borrow_one len start_right =
    (let start_right = (if start_right = len then len - 1 else start_right) in if start_right = 0 then 1 else start_right)"

definition split_aabbs :: "AABB \<Rightarrow> nat \<Rightarrow> nat \<Rightarrow> AABB list \<Rightarrow> nat list \<Rightarrow> nat \<times> AABB list \<times> nat list" where
  "split_aabbs my_aabb start len aabbs idx =
    (let (start_right, aabbs, idx) = choose_split my_aabb start len aabbs idx in (borrow_one len start_right, aabbs, idx))"

definition merge_all :: "AABB list \<Rightarrow> nat \<Rightarrow> nat \<Rightarrow> AABB" where
  "merge_all aabbs start len = fold (\<lambda>i b. merge b (aabbs ! (start + i))) [1..<len] (aabbs ! start)"

definition make_leaf :: "AABB \<Rightarrow> nat \<Rightarrow> nat \<Rightarrow> nat \<Rightarrow> AABB list \<Rightarrow> nat list \<Rightarrow> AABBTree \<Rightarrow> nat \<times> AABBTree" where
  "make_leaf my_aabb parent start len aabbs idx t =
    (let (new_node, t) = allocateNode t;
         node = (at_nodes t ! new_node)\<lparr>nd_aabb := my_aabb, nd_parent := parent, nd_num_particles := len\<rparr>;
         node = fold (\<lambda>i n. n\<lparr>nd_particles := (nd_particles n)[i := idx ! (start + i)],
                              nd_particle_tags := (nd_particle_tags n)[i := aabb_tag (aabbs ! (start + i))]\<rparr>) [0..<len] node;
         mapping = fold (\<lambda>i mp. mp[idx ! (start + i) := new_node]) [0..<len] (at_mapping t)
     in (new_node, t\<lparr>at_nodes := (at_nodes t)[new_node := node], at_mapping := mapping\<rparr>))"

lemma split_loop_le: "fst (split_loop c m s i r a x) \<le> r"
  by (induction c m s i r a x rule: split_loop.induct) (subst split_loop.simps, auto intro: le_trans)

lemma choose_split_rule:
  "P (len, a, x) \<Longrightarrow> (\<And>c m. P (split_loop c m s 0 len a x)) \<Longrightarrow> P (choose_split b s len a x)"
  by (cases "len = 2") (simp_all add: choose_split_def Let_def)

lemma choose_split_le: "fst (choose_split b s len a x) \<le> len"
  by (rule choose_split_rule) (simp_all add: split_loop_le)

lemma split_aabbs_bounds: "2 \<le> len \<Longrightarrow> split_aabbs b s len a x = (r, a', x') \<Longrightarrow> 1 \<le> r \<and> r < len"
  using choose_split_le [of b s len a x] by (auto simp: split_aabbs_def borrow_one_def Let_def split: prod.splits if_splits)

function buildNode :: "AABB list \<Rightarrow> nat list \<Rightarrow> nat \<Rightarrow> nat \<Rightarrow> nat \<Rightarrow> AABBTree \<Rightarrow> nat \<times> AABB list \<times> nat list \<times> AABBTree" where
  "buildNode aabbs idx start len parent t =
    (let my_aabb = merge_all aabbs start len in
     if len \<le> NODE_CAPACITY then
       let (new_node, t) = make_leaf my_aabb parent start len aabbs idx t in (new_node, aabbs, idx, t)
     else
       let (my_idx, t) = allocateNode t;
           (start_right, aabbs, idx) = split_aabbs my_aabb start len aabbs idx;
           (new_left, aabbs, idx, t) = buildNode aabbs idx start start_right my_idx t;
           (new_right, aabbs, idx, t) = buildNode aabbs idx (start + start_right) (len - start_right) my_idx t
       in (my_idx, aabbs, idx,
           t\<lparr>at_nodes := (at_nodes t)[my_idx := (at_nodes t ! my_idx)
               \<lparr>nd_aabb := my_aabb, nd_parent := parent, nd_left := new_left, nd_right := new_right\<rparr>]\<rparr>))"
  by pat_completeness auto
termination
proof (relation "measure (\<lambda>(a, x, s, len, p, t). len)", goal_cases)
  case (2 aabbs idx start len parent t my_aabb p my_idx t' q start_right r aabbs' idx')
  then have "split_aabbs my_aabb start len aabbs idx = (start_right, aabbs', idx')" and "2 \<le> len" by (auto simp: NODE_CAPACITY_def)
  from split_aabbs_bounds [OF this(2,1)] show ?case by simp
next
  case (3 aabbs idx start len parent t my_aabb p my_idx t' q start_right r aabbs' idx' s new_left u aabbs'' v idx'' t'')
  then have "split_aabbs my_aabb start len aabbs idx = (start_right, aabbs', idx')" and "2 \<le> len" by (auto simp: NODE_CAPACITY_def)
  from split_aabbs_bounds [OF this(2,1)] show ?case by simp
qed simp

declare buildNode.simps [simp del]

partial_function (option) updateSkip :: "nat \<Rightarrow> AABBNode list \<Rightarrow> (nat \<times> AABBNode list) option" where
  "updateSkip idx nodes =
    (if isNodeLeaf nodes idx then Some (1, nodes)
     else let left_idx = nd_left (nodes ! idx); right_idx = nd_right (nodes ! idx) in
       Option.bind (updateSkip left_idx nodes) (\<lambda>(l, nodes).
       Option.bind (updateSkip right_idx nodes) (\<lambda>(r, nodes).
         let skip = l + r in Some (skip + 1, nodes[idx := (nodes ! idx)\<lparr>nd_skip := skip\<rparr>]))))"

definition buildTree :: "AABB list \<Rightarrow> nat \<Rightarrow> AABBTree \<Rightarrow> (AABB list \<times> AABBTree) option" where
  "buildTree aabbs N t =
    (let (root, aabbs, idx, t) = buildNode aabbs [0..<N] 0 N INVALID_NODE (tree_init N t);
         t = t\<lparr>at_root := root\<rparr>
     in map_option (\<lambda>(_, nodes). (aabbs, t\<lparr>at_nodes := nodes\<rparr>)) (updateSkip (at_root t) (at_nodes t)))"

subsection \<open>Query, update and height\<close>

function query_loop :: "AABB \<Rightarrow> AABBNode list \<Rightarrow> nat \<Rightarrow> nat \<Rightarrow> nat list \<Rightarrow> nat \<Rightarrow> nat list \<times> nat" where
  "query_loop aabb nodes num i hits counts =
    (if i < num then
       let node = nodes ! i in
       if overlap (nd_aabb node) aabb then
         query_loop aabb nodes num (i + 1)
           (if nd_left node = INVALID_NODE then hits @ map (\<lambda>k. nd_particles node ! k) [0..<nd_num_particles node] else hits) (counts + 1)
       else query_loop aabb nodes num (i + nd_skip node + 1) hits (counts + 1)
     else (hits, counts))"
  by pat_completeness auto
termination by (relation "measure (\<lambda>(a, n, num, i, h, c). num - i)") auto

declare query_loop.simps [simp del]

definition query :: "AABB \<Rightarrow> nat list \<Rightarrow> AABBTree \<Rightarrow> nat list \<times> nat" where
  "query aabb hits t = query_loop aabb (at_nodes t) (at_num_nodes t) 0 hits 0"

partial_function (option) update_parents :: "nat \<Rightarrow> AABBNode list \<Rightarrow> AABBNode list option" where
  "update_parents current_node nodes =
    (if current_node = INVALID_NODE then Some nodes
     else let left_idx = nd_left (nodes ! current_node); right_idx = nd_right (nodes ! current_node);
              nodes = nodes[current_node := (nodes ! current_node)\<lparr>nd_aabb := merge (nd_aabb (nodes ! left_idx)) (nd_aabb (nodes ! right_idx))\<rparr>]
          in update_parents (nd_parent (nodes ! current_node)) nodes)"

definition update :: "nat \<Rightarrow> AABB \<Rightarrow> AABBTree \<Rightarrow> AABBTree option" where
  "update idx aabb t =
    (let node_idx = at_mapping t ! idx; nodes = at_nodes t in
     if \<not> contains (nd_aabb (nodes ! node_idx)) aabb then
       let nodes = nodes[node_idx := (nodes ! node_idx)\<lparr>nd_aabb := merge (nd_aabb (nodes ! node_idx)) aabb\<rparr>]
       in map_option (\<lambda>nodes. t\<lparr>at_nodes := nodes\<rparr>) (update_parents (nd_parent (nodes ! node_idx)) nodes)
     else Some t)"

partial_function (option) count_parents :: "AABBNode list \<Rightarrow> nat \<Rightarrow> nat \<Rightarrow> nat option" where
  "count_parents nodes current_node h =
    (if current_node = INVALID_NODE then Some h else count_parents nodes (nd_parent (nodes ! current_node)) (h + 1))"

definition tree_height :: "nat \<Rightarrow> AABBTree \<Rightarrow> nat option" where
  "tree_height idx t =
    (let node_idx = at_mapping t ! idx in
     if node_idx = INVALID_NODE then Some 0 else count_parents (at_nodes t) (nd_parent (at_nodes t ! node_idx)) 1)"

end
