(* ===== verification/AABB_Query.thy ===== *)
theory AABB_Query
  imports AABB_Tree
begin

section \<open>AABBTree: the tree in the array and its queries\<close>

text \<open>
  The build lays out a binary tree \<open>bvh\<close> in preorder (\<open>tree_at\<close>) whose boxes enclose the boxes of the particles below
  them (\<open>bounded\<close>). Updates keep this, whatever their order, and the stackless query returns what the recursive search of
  the tree returns.
\<close>

subsection \<open>Boxes\<close>

lemma contains_refl [simp]: "contains a a"
  by (simp add: contains_def)

lemma contains_trans: "contains a b \<Longrightarrow> contains b c \<Longrightarrow> contains a c"
  by (auto simp: contains_def)

lemma contains_merge [simp]: "contains (merge a b) a" "contains (merge a b) b"
  by (auto simp: contains_def merge_def)

lemma overlap_contains: "contains a b \<Longrightarrow> overlap b c \<Longrightarrow> overlap a c"
  by (auto simp: contains_def overlap_def)

lemma overlap_commute: "overlap a b \<Longrightarrow> overlap b a"
  by (auto simp: overlap_def)

lemma merge_all_contains:
  assumes "i < len"
  shows "contains (merge_all aabbs start len) (aabbs ! (start + i))"
proof -
  have acc: "contains (fold (\<lambda>i b. merge b (aabbs ! (start + i))) ks b) b" for ks b
    by (induction ks arbitrary: b) (auto intro: contains_trans contains_merge(1))
  have mem: "contains (fold (\<lambda>i b. merge b (aabbs ! (start + i))) ks b) (aabbs ! (start + i))" if "i \<in> set ks" for ks b
    using that by (induction ks arbitrary: b) (auto intro: contains_trans [OF acc] contains_merge(2))
  show ?thesis
    using acc mem [of "[1..<len]"] assms by (cases "i = 0") (auto simp: merge_all_def)
qed

lemma merge_all_least:
  assumes "0 < len" and "\<And>i. i < len \<Longrightarrow> contains c (aabbs ! (start + i))"
  shows "contains c (merge_all aabbs start len)"
proof -
  have step: "contains c a \<Longrightarrow> contains c b \<Longrightarrow> contains c (merge a b)" for a b by (auto simp: contains_def merge_def)
  have "contains c (fold (\<lambda>i b. merge b (aabbs ! (start + i))) ks b)" if "contains c b" "set ks \<subseteq> {..<len}" for ks b
    using that by (induction ks arbitrary: b) (auto intro: step assms(2))
  then show ?thesis using assms(2) [of 0] assms(1) unfolding merge_all_def by (simp add: subset_iff)
qed

subsection \<open>Rearranging a section of two parallel arrays\<close>

definition section_of :: "nat \<Rightarrow> nat \<Rightarrow> 'a list \<Rightarrow> 'a list" where
  "section_of s n xs = take n (drop s xs)"

lemma section_length: "s + n \<le> length xs \<Longrightarrow> length (section_of s n xs) = n"
  by (simp add: section_of_def)

lemma section_nth: "s + n \<le> length xs \<Longrightarrow> i < n \<Longrightarrow> section_of s n xs ! i = xs ! (s + i)"
  by (simp add: section_of_def)

lemma section_add: "section_of s (m + n) xs = section_of s m xs @ section_of (s + m) n xs"
  by (simp add: section_of_def take_add add.commute)

lemma section_set: "s + n \<le> length xs \<Longrightarrow> set (section_of s n xs) = {xs ! i | i. s \<le> i \<and> i < s + n}"
proof (intro set_eqI iffI)
  assume n: "s + n \<le> length xs"
  fix v
  show "v \<in> {xs ! i | i. s \<le> i \<and> i < s + n}" if "v \<in> set (section_of s n xs)"
    using that n by (force simp: in_set_conv_nth section_length section_nth)
  assume "v \<in> {xs ! i | i. s \<le> i \<and> i < s + n}"
  then obtain i where "v = xs ! i" "s \<le> i" "i < s + n" by blast
  then show "v \<in> set (section_of s n xs)"
    using n section_nth [OF n, of "i - s"] section_length [OF n] nth_mem [of "i - s" "section_of s n xs"] by simp
qed

lemma section_cong:
  assumes "length ys = length xs" and "s + n \<le> length xs" and "\<And>i. s \<le> i \<Longrightarrow> i < s + n \<Longrightarrow> ys ! i = xs ! i"
  shows "section_of s n ys = section_of s n xs"
  using assms by (auto intro!: nth_equalityI simp: section_length section_nth)

definition rearranges :: "nat \<Rightarrow> nat \<Rightarrow> 'a list \<times> 'b list \<Rightarrow> 'a list \<times> 'b list \<Rightarrow> bool" where
  "rearranges s n ax by \<longleftrightarrow>
    (case ax of (a, x) \<Rightarrow> case by of (b, y) \<Rightarrow>
       length b = length a \<and> length y = length x
     \<and> (\<forall>j. j < s \<or> s + n \<le> j \<longrightarrow> b ! j = a ! j \<and> y ! j = x ! j)
     \<and> mset (section_of s n y) = mset (section_of s n x)
     \<and> (\<forall>f. (\<forall>j. s \<le> j \<and> j < s + n \<longrightarrow> a ! j = f (x ! j)) \<longrightarrow> (\<forall>j. s \<le> j \<and> j < s + n \<longrightarrow> b ! j = f (y ! j))))"

lemma rearranges_refl: "rearranges s n ax ax"
  by (simp add: rearranges_def split: prod.split)

lemma rearranges_trans: "rearranges s n ax by \<Longrightarrow> rearranges s n by cz \<Longrightarrow> rearranges s n ax cz"
  by (fastforce simp: rearranges_def split: prod.splits)

lemma rearranges_widen:
  assumes "rearranges s' n' (a, x) (b, y)" and "s \<le> s'" and "s' + n' \<le> s + n" and "s + n \<le> length x"
  shows "rearranges s n (a, x) (b, y)"
proof -
  have out: "length b = length a" "length y = length x" "\<And>j. j < s' \<or> s' + n' \<le> j \<Longrightarrow> b ! j = a ! j \<and> y ! j = x ! j"
    and m: "mset (section_of s' n' y) = mset (section_of s' n' x)"
    and f: "\<And>f. (\<forall>j. s' \<le> j \<and> j < s' + n' \<longrightarrow> a ! j = f (x ! j)) \<longrightarrow> (\<forall>j. s' \<le> j \<and> j < s' + n' \<longrightarrow> b ! j = f (y ! j))"
    using assms(1) by (auto simp: rearranges_def)
  obtain p q where p: "s' = s + p" and q: "n = p + (n' + q)"
    using assms(2,3) by (metis add.assoc add_le_cancel_left le_Suc_ex)
  have split: "section_of s n z = section_of s p z @ section_of s' n' z @ section_of (s' + n') q z" for z :: "'b list"
    by (simp add: p q section_add add.assoc)
  have "section_of s p y = section_of s p x" "section_of (s' + n') q y = section_of (s' + n') q x"
    using assms(4) out(2,3) p q by (auto intro!: section_cong)
  then have "mset (section_of s n y) = mset (section_of s n x)" unfolding split using m by simp
  moreover have "b ! j = g (y ! j)" if g: "\<forall>j. s \<le> j \<and> j < s + n \<longrightarrow> a ! j = g (x ! j)" and j: "s \<le> j" "j < s + n" for g j
  proof (cases "s' \<le> j \<and> j < s' + n'")
    case True
    have "\<forall>j. s' \<le> j \<and> j < s' + n' \<longrightarrow> a ! j = g (x ! j)" using g assms(2,3) by auto
    with f [of g] True show ?thesis by blast
  next
    case False
    then show ?thesis using out(3) [of j] g j by auto
  qed
  ultimately show ?thesis using out assms(2,3) by (auto simp: rearranges_def)
qed

lemma swap_at_length [simp]: "length (swap_at i k xs) = length xs"
  by (simp add: swap_at_def)

lemma swap_at_nth: "i < length xs \<Longrightarrow> k < length xs \<Longrightarrow> swap_at i k xs ! j = (if j = i then xs ! k else if j = k then xs ! i else xs ! j)"
  by (auto simp: swap_at_def nth_list_update)

lemma swap_rearranges:
  assumes "i < n" and "k < n" and "s + n \<le> length x" and "length a = length x"
  shows "rearranges s n (a, x) (swap_at (s + i) (s + k) a, swap_at (s + i) (s + k) x)"
proof -
  have "section_of s n (swap_at (s + i) (s + k) x) = (section_of s n x)[i := section_of s n x ! k, k := section_of s n x ! i]"
    using assms by (intro nth_equalityI) (auto simp: section_length section_nth swap_at_nth nth_list_update swap_at_def)
  then have "mset (section_of s n (swap_at (s + i) (s + k) x)) = mset (section_of s n x)"
    using mset_swap [of k "section_of s n x" i] assms by (simp add: section_length)
  then show ?thesis using assms by (auto simp: rearranges_def swap_at_nth)
qed

lemma split_loop_rearranges:
  assumes "r \<le> n" and "s + n \<le> length x" and "length a = length x"
  shows "rearranges s n (a, x) (snd (split_loop c m s i r a x))"
  using assms
proof (induction c m s i r a x rule: split_loop.induct)
  case (1 c m s i r a x)
  consider "\<not> i < r" | "i < r" "c (aabb_getPosition (a ! (s + i))) < m" | "i < r" "\<not> c (aabb_getPosition (a ! (s + i))) < m" by blast
  then show ?case
  proof cases
    case 1
    then show ?thesis by (subst split_loop.simps) (simp add: rearranges_refl)
  next
    case 2
    then show ?thesis using 1 by (subst split_loop.simps) simp
  next
    case 3
    let ?a = "swap_at (s + i) (s + r - 1) a" and ?x = "swap_at (s + i) (s + r - 1) x"
    have "rearranges s n (a, x) (?a, ?x)" using swap_rearranges [of i n "r - 1" s x a] 3 "1.prems" by simp
    from rearranges_trans [OF this] have "rearranges s n (?a, ?x) (snd (split_loop c m s i (r - 1) ?a ?x))
      \<Longrightarrow> rearranges s n (a, x) (snd (split_loop c m s i (r - 1) ?a ?x))" .
    moreover have "rearranges s n (?a, ?x) (snd (split_loop c m s i (r - 1) ?a ?x))"
      using 3 "1.prems" by (intro "1.IH"(2)) auto
    ultimately show ?thesis using 3 by (subst split_loop.simps) simp
  qed
qed

lemma split_aabbs_rearranges:
  assumes "s + n \<le> length x" and "length a = length x" and "split_aabbs b s n a x = (r, a', x')"
  shows "rearranges s n (a, x) (a', x')"
proof -
  have "rearranges s n (a, x) (snd (choose_split b s n a x))"
    by (rule choose_split_rule) (use assms(1,2) in \<open>simp_all add: rearranges_refl split_loop_rearranges\<close>)
  then show ?thesis using assms(3) by (auto simp: split_aabbs_def Let_def split: prod.splits)
qed

subsection \<open>The tree that an array holds\<close>

datatype bvh = Leaf (bvh_box: AABB) "nat list" "nat list" | Node (bvh_box: AABB) bvh bvh

fun bvh_size :: "bvh \<Rightarrow> nat" where
  "bvh_size (Leaf b ps ts) = 1"
| "bvh_size (Node b l r) = Suc (bvh_size l + bvh_size r)"

fun bvh_particles :: "bvh \<Rightarrow> nat list" where
  "bvh_particles (Leaf b ps ts) = ps"
| "bvh_particles (Node b l r) = bvh_particles l @ bvh_particles r"

fun bvh_tags :: "bvh \<Rightarrow> nat list" where
  "bvh_tags (Leaf b ps ts) = ts"
| "bvh_tags (Node b l r) = bvh_tags l @ bvh_tags r"

fun bounded :: "(nat \<Rightarrow> AABB) \<Rightarrow> bvh \<Rightarrow> bool" where
  "bounded box_of (Leaf b ps ts) \<longleftrightarrow> ps \<noteq> [] \<and> (\<forall>p \<in> set ps. contains b (box_of p))"
| "bounded box_of (Node b l r) \<longleftrightarrow> contains b (bvh_box l) \<and> contains b (bvh_box r) \<and> bounded box_of l \<and> bounded box_of r"

definition tight :: "(nat \<Rightarrow> AABB) \<Rightarrow> nat list \<Rightarrow> AABB \<Rightarrow> bool" where
  "tight box_of ps b \<longleftrightarrow> (\<forall>c. (\<forall>p \<in> set ps. contains c (box_of p)) \<longrightarrow> contains c b)"

lemma bounded_box: "bounded box_of t \<Longrightarrow> p \<in> set (bvh_particles t) \<Longrightarrow> contains (bvh_box t) (box_of p)"
  by (induction t) (auto intro: contains_trans)

fun tree_at :: "bool \<Rightarrow> AABBNode list \<Rightarrow> nat list \<Rightarrow> nat \<Rightarrow> nat \<Rightarrow> bvh \<Rightarrow> bool" where
  "tree_at skips ns mp parent k (Leaf b ps ts) \<longleftrightarrow>
    k < length ns \<and> nd_aabb (ns ! k) = b \<and> nd_left (ns ! k) = INVALID_NODE \<and> nd_parent (ns ! k) = parent \<and> nd_skip (ns ! k) = 0
    \<and> map (\<lambda>i. nd_particles (ns ! k) ! i) [0..<nd_num_particles (ns ! k)] = ps
    \<and> map (\<lambda>i. nd_particle_tags (ns ! k) ! i) [0..<nd_num_particles (ns ! k)] = ts
    \<and> (\<forall>p \<in> set ps. mp ! p = k)"
| "tree_at skips ns mp parent k (Node b l r) \<longleftrightarrow>
    k < length ns \<and> nd_aabb (ns ! k) = b \<and> nd_left (ns ! k) = Suc k \<and> nd_right (ns ! k) = Suc k + bvh_size l \<and> nd_parent (ns ! k) = parent
    \<and> nd_skip (ns ! k) = (if skips then bvh_size l + bvh_size r else 0)
    \<and> tree_at skips ns mp k (Suc k) l \<and> tree_at skips ns mp k (Suc k + bvh_size l) r"

lemma bvh_size_pos [simp]: "0 < bvh_size t"
  by (cases t) simp_all

lemma tree_at_left:
  assumes "tree_at sk ns mp par k (Node b l r)" and "k + bvh_size (Node b l r) \<le> INVALID_NODE"
  shows "nd_left (ns ! k) \<noteq> INVALID_NODE"
proof -
  have "Suc k < k + bvh_size (Node b l r)" by simp
  also have "\<dots> \<le> INVALID_NODE" by (rule assms(2))
  finally show ?thesis using assms(1) by simp
qed

lemma tree_at_length: "tree_at sk ns mp par k t \<Longrightarrow> k + bvh_size t \<le> length ns"
  by (induction t arbitrary: par k) fastforce+

lemma tree_at_cong:
  assumes "tree_at sk ns mp par k t" and "k + bvh_size t \<le> length ns'"
    and "\<And>i. k \<le> i \<Longrightarrow> i < k + bvh_size t \<Longrightarrow> ns' ! i = ns ! i"
    and "\<And>p. p \<in> set (bvh_particles t) \<Longrightarrow> mp' ! p = mp ! p"
  shows "tree_at sk ns' mp' par k t"
  using assms
proof (induction t arbitrary: par k)
  case (Leaf b ps ts)
  then show ?case by simp
next
  case (Node b l r)
  have "tree_at sk ns' mp' k (Suc k) l" using Node.prems by (intro Node.IH(1)) auto
  moreover have "tree_at sk ns' mp' k (Suc k + bvh_size l) r" using Node.prems by (intro Node.IH(2)) auto
  ultimately show ?case using Node.prems by simp
qed

definition mem_ok :: "AABBTree \<Rightarrow> bool" where
  "mem_ok t \<longleftrightarrow> length (at_nodes t) = at_node_capacity t \<and> at_num_nodes t \<le> at_node_capacity t"

lemma allocateNode_ok:
  assumes "mem_ok t" and "allocateNode t = (k, t')"
  shows "k = at_num_nodes t" "at_num_nodes t' = Suc (at_num_nodes t)" "mem_ok t'" "at_nodes t' ! k = AABBNode_default"
    "\<And>i. i < at_num_nodes t \<Longrightarrow> at_nodes t' ! i = at_nodes t ! i" "at_mapping t' = at_mapping t"
proof -
  define u where "u = (if at_num_nodes t \<ge> at_node_capacity t then
      let c = at_node_capacity t * 2; c = (if c = 0 then 16 else c)
      in t\<lparr>at_nodes := take (at_num_nodes t) (at_nodes t) @ replicate (c - at_num_nodes t) AABBNode_default, at_node_capacity := c\<rparr> else t)"
  have u: "at_num_nodes u = at_num_nodes t" "at_num_nodes t < at_node_capacity u" "length (at_nodes u) = at_node_capacity u"
      "\<And>i. i < at_num_nodes t \<Longrightarrow> at_nodes u ! i = at_nodes t ! i" "at_mapping u = at_mapping t"
    using assms(1) by (auto simp: u_def mem_ok_def Let_def nth_append)
  have e: "k = at_num_nodes t" "t' = u\<lparr>at_nodes := (at_nodes u)[at_num_nodes t := AABBNode_default], at_num_nodes := Suc (at_num_nodes t)\<rparr>"
    using assms(2) u(1) by (auto simp: allocateNode_def u_def [symmetric] Let_def)
  show "k = at_num_nodes t" by (rule e)
  show "at_num_nodes t' = Suc (at_num_nodes t)" "mem_ok t'" "at_nodes t' ! k = AABBNode_default"
    "\<And>i. i < at_num_nodes t \<Longrightarrow> at_nodes t' ! i = at_nodes t ! i" "at_mapping t' = at_mapping t"
    using u by (simp_all add: e mem_ok_def)
qed

lemma fill_leaf:
  assumes "n \<le> NODE_CAPACITY" and "length (nd_particles nd) = NODE_CAPACITY" and "length (nd_particle_tags nd) = NODE_CAPACITY"
  shows "fold (\<lambda>i n. n\<lparr>nd_particles := (nd_particles n)[i := f i], nd_particle_tags := (nd_particle_tags n)[i := g i]\<rparr>) [0..<n] nd
    = nd\<lparr>nd_particles := map f [0..<n] @ drop n (nd_particles nd), nd_particle_tags := map g [0..<n] @ drop n (nd_particle_tags nd)\<rparr>"
  using assms
proof (induction n)
  case (Suc n)
  have up: "(map h [0..<n] @ drop n xs)[n := h n] = map h [0..<Suc n] @ drop (Suc n) xs" if "n < length xs" for h and xs :: "nat list"
    using that by (simp add: list_update_append Cons_nth_drop_Suc [symmetric])
  show ?case using Suc up [of "nd_particles nd" f] up [of "nd_particle_tags nd" g] by simp
qed simp

lemma fold_mapping:
  "length (fold (\<lambda>i mp. mp[f i := k]) is mp) = length mp
    \<and> (\<forall>p. p < length mp \<longrightarrow> fold (\<lambda>i mp. mp[f i := k]) is mp ! p = (if p \<in> f ` set is then k else mp ! p))"
  by (induction "is" arbitrary: mp) (auto simp: nth_list_update)

text \<open>What a call of \<open>buildNode\<close> for the positions from \<open>start\<close> on leaves behind.\<close>

definition built :: "(nat \<Rightarrow> AABB) \<Rightarrow> nat \<Rightarrow> nat list \<Rightarrow> AABBTree \<Rightarrow> AABBTree \<Rightarrow> bvh \<Rightarrow> bool" where
  "built box_of parent ps t t' tr \<longleftrightarrow>
    mem_ok t' \<and> at_num_nodes t' = at_num_nodes t + bvh_size tr \<and> bvh_size tr < 2 * length ps
    \<and> tree_at False (at_nodes t') (at_mapping t') parent (at_num_nodes t) tr
    \<and> bounded box_of tr \<and> tight box_of ps (bvh_box tr) \<and> bvh_tags tr = map (\<lambda>p. aabb_tag (box_of p)) (bvh_particles tr)
    \<and> mset (bvh_particles tr) = mset ps
    \<and> (\<forall>i < at_num_nodes t. at_nodes t' ! i = at_nodes t ! i)
    \<and> length (at_mapping t') = length (at_mapping t)
    \<and> (\<forall>p < length (at_mapping t). p \<notin> set ps \<longrightarrow> at_mapping t' ! p = at_mapping t ! p)"

lemma make_leaf_built:
  assumes mem: "mem_ok t" and len: "0 < len" "len \<le> NODE_CAPACITY" and sec: "start + len \<le> length idx"
    and box: "\<forall>j. start \<le> j \<and> j < start + len \<longrightarrow> aabbs ! j = box_of (idx ! j)"
    and range: "\<forall>p \<in> set (section_of start len idx). p < length (at_mapping t)"
    and leaf: "make_leaf (merge_all aabbs start len) parent start len aabbs idx t = (k, t')"
  shows "k = at_num_nodes t \<and> (\<exists>tr. built box_of parent (section_of start len idx) t t' tr)"
proof -
  let ?ps = "section_of start len idx" and ?b = "merge_all aabbs start len"
  have ps: "map (\<lambda>i. idx ! (start + i)) [0..<len] = ?ps" using sec by (auto intro!: nth_equalityI simp: section_length section_nth)
  have bx: "map (\<lambda>i. aabb_tag (aabbs ! (start + i))) [0..<len] = map (\<lambda>p. aabb_tag (box_of p)) ?ps"
    using box by (simp flip: ps)
  obtain t1 where a: "allocateNode t = (k, t1)" using leaf by (auto simp: make_leaf_def Let_def split: prod.splits)
  note a = allocateNode_ok [OF mem a] a
  define nd where "nd = (at_nodes t1 ! k)\<lparr>nd_aabb := ?b, nd_parent := parent, nd_num_particles := len,
      nd_particles := ?ps @ drop len (replicate NODE_CAPACITY 0), nd_particle_tags := map (\<lambda>p. aabb_tag (box_of p)) ?ps @ drop len (replicate NODE_CAPACITY 0)\<rparr>"
  have nd: "fold (\<lambda>i n. n\<lparr>nd_particles := (nd_particles n)[i := idx ! (start + i)], nd_particle_tags := (nd_particle_tags n)[i := aabb_tag (aabbs ! (start + i))]\<rparr>) [0..<len]
      ((at_nodes t1 ! k)\<lparr>nd_aabb := ?b, nd_parent := parent, nd_num_particles := len\<rparr>) = nd"
    using len by (subst fill_leaf) (simp_all add: a(4) AABBNode_default_def nd_def ps bx)
  define mp where "mp = fold (\<lambda>i mp. mp[idx ! (start + i) := k]) [0..<len] (at_mapping t1)"
  have mp: "length mp = length (at_mapping t)" "\<And>p. p < length (at_mapping t) \<Longrightarrow> mp ! p = (if p \<in> set ?ps then k else at_mapping t ! p)"
    using fold_mapping [of "\<lambda>i. idx ! (start + i)" k "[0..<len]" "at_mapping t1"] a(6) by (auto simp: mp_def simp flip: ps)
  have t': "t' = t1\<lparr>at_nodes := (at_nodes t1)[k := nd], at_mapping := mp\<rparr>"
    using leaf a(7) by (simp add: make_leaf_def nd mp_def)
  have k: "k < length (at_nodes t1)" using a(1-3) by (simp add: mem_ok_def)
  have ne: "?ps \<noteq> []" "length ?ps = len" using section_length [OF sec] len by auto
  have "contains ?b (box_of p)" if "p \<in> set ?ps" for p
    using that merge_all_contains [of _ len aabbs start] box by (auto simp flip: ps)
  moreover have "tight box_of ?ps ?b"
    using merge_all_least [OF len(1), of _ aabbs start] box by (auto simp: tight_def simp flip: ps)
  moreover have "map (\<lambda>i. nd_particles nd ! i) [0..<len] = ?ps" "map (\<lambda>i. nd_particle_tags nd ! i) [0..<len] = map (\<lambda>p. aabb_tag (box_of p)) ?ps"
    using ne by (auto intro!: nth_equalityI simp: nd_def nth_append)
  ultimately have "built box_of parent ?ps t t' (Leaf ?b ?ps (map (\<lambda>p. aabb_tag (box_of p)) ?ps))"
    using a k mp ne range len by (auto simp: built_def t' mem_ok_def nd_def AABBNode_default_def)
  then show ?thesis using a(1) by blast
qed

lemma built_node:
  assumes mem: "mem_ok t" and a: "allocateNode t = (k, t1)"
    and l: "built box_of k ls t1 t2 tL" and r: "built box_of k rs t2 t3 tR"
    and disj: "set ls \<inter> set rs = {}" "\<forall>p \<in> set ls. p < length (at_mapping t)"
    and b: "\<forall>p \<in> set ls \<union> set rs. contains b (box_of p)" "tight box_of (ls @ rs) b"
  shows "built box_of parent (ls @ rs) t
    (t3\<lparr>at_nodes := (at_nodes t3)[k := (at_nodes t3 ! k)\<lparr>nd_aabb := b, nd_parent := parent, nd_left := at_num_nodes t1, nd_right := at_num_nodes t2\<rparr>]\<rparr>)
    (Node b tL tR)"
proof -
  note a = allocateNode_ok [OF mem a]
  let ?n = "(at_nodes t3 ! k)\<lparr>nd_aabb := b, nd_parent := parent, nd_left := at_num_nodes t1, nd_right := at_num_nodes t2\<rparr>"
  have num: "at_num_nodes t1 = Suc k" "at_num_nodes t2 = Suc k + bvh_size tL" "at_num_nodes t3 = Suc k + bvh_size tL + bvh_size tR"
    using a(1,2) l r by (simp_all add: built_def)
  have len: "at_num_nodes t3 \<le> length (at_nodes t3)" using r by (simp add: built_def mem_ok_def)
  have ps: "set (bvh_particles tL) = set ls" "set (bvh_particles tR) = set rs"
    using l r by (auto simp: built_def dest: mset_eq_setD)
  have k3: "at_nodes t3 ! k = AABBNode_default" using a(4) l r num by (simp add: built_def)
  have tL: "tree_at False ((at_nodes t3)[k := ?n]) (at_mapping t3) k (Suc k) tL"
  proof (rule tree_at_cong)
    show "tree_at False (at_nodes t2) (at_mapping t2) k (Suc k) tL" using l num by (simp add: built_def)
    show "Suc k + bvh_size tL \<le> length ((at_nodes t3)[k := ?n])" using len num by simp
    show "(at_nodes t3)[k := ?n] ! i = at_nodes t2 ! i" if "Suc k \<le> i" "i < Suc k + bvh_size tL" for i
      using that r num by (simp add: built_def)
    show "at_mapping t3 ! p = at_mapping t2 ! p" if "p \<in> set (bvh_particles tL)" for p
      using that disj l r a(6) ps(1) by (auto simp: built_def)
  qed
  have tR: "tree_at False ((at_nodes t3)[k := ?n]) (at_mapping t3) k (Suc k + bvh_size tL) tR"
    by (rule tree_at_cong [where ns = "at_nodes t3" and mp = "at_mapping t3"]) (use r num len in \<open>auto simp: built_def\<close>)
  have out: "at_nodes t3 ! i = at_nodes t ! i" if "i < at_num_nodes t" for i
    using that a(1,2,5) l r by (simp add: built_def)
  have map: "at_mapping t3 ! p = at_mapping t ! p" if "p < length (at_mapping t)" "p \<notin> set ls" "p \<notin> set rs" for p
    using that a(6) l r by (simp add: built_def)
  have "contains b (bvh_box tL)" "contains b (bvh_box tR)" using l r b(1) by (auto simp: built_def tight_def)
  moreover have "nd_skip (at_nodes t1 ! k) = 0" using a(4) by (simp add: AABBNode_default_def)
  ultimately show ?thesis unfolding built_def
    using tL tR out map b num a(1,6) l r len ps by (auto simp: built_def k3 AABBNode_default_def mem_ok_def)
qed

lemma buildNode_leaf:
  "len \<le> NODE_CAPACITY \<Longrightarrow> buildNode aabbs idx start len parent t =
    (let (k, t') = make_leaf (merge_all aabbs start len) parent start len aabbs idx t in (k, aabbs, idx, t'))"
  by (subst buildNode.simps) (simp add: Let_def)

lemma buildNode_inner:
  assumes "\<not> len \<le> NODE_CAPACITY" and "allocateNode t = (k, t1)" and "split_aabbs (merge_all aabbs start len) start len aabbs idx = (sr, a1, x1)"
    and "buildNode a1 x1 start sr k t1 = (kl, a2, x2, t2)" and "buildNode a2 x2 (start + sr) (len - sr) k t2 = (kr, a3, x3, t3)"
  shows "buildNode aabbs idx start len parent t = (k, a3, x3,
    t3\<lparr>at_nodes := (at_nodes t3)[k := (at_nodes t3 ! k)\<lparr>nd_aabb := merge_all aabbs start len, nd_parent := parent, nd_left := kl, nd_right := kr\<rparr>]\<rparr>)"
  by (subst buildNode.simps) (simp add: Let_def assms)

text \<open>The precondition of \<open>buildNode\<close> on the arrays, and how the two recursive calls inherit it.\<close>

definition ready :: "(nat \<Rightarrow> AABB) \<Rightarrow> nat \<Rightarrow> nat \<Rightarrow> nat \<Rightarrow> AABB list \<times> nat list \<Rightarrow> bool" where
  "ready box_of M start len ax \<longleftrightarrow>
    (case ax of (aabbs, idx) \<Rightarrow> start + len \<le> length idx \<and> length aabbs = length idx
     \<and> (\<forall>j. start \<le> j \<and> j < start + len \<longrightarrow> aabbs ! j = box_of (idx ! j))
     \<and> (\<forall>p \<in> set (section_of start len idx). p < M) \<and> distinct (section_of start len idx))"

lemma ready_rearranged: "ready box_of M start len ax \<Longrightarrow> rearranges start len ax by \<Longrightarrow> ready box_of M start len by"
  by (auto simp: ready_def rearranges_def dest: mset_eq_setD mset_eq_imp_distinct_iff)

lemma ready_part:
  assumes "ready box_of M start len ax" and "len = m + n"
  shows "ready box_of M start m ax" "ready box_of M (start + m) n ax"
  using assms by (auto simp: ready_def section_add)

lemma ready_elsewhere:
  assumes "ready box_of M start len ax" and "rearranges s n ax by" and "s + n \<le> start \<or> start + len \<le> s"
  shows "ready box_of M start len by" "section_of start len (snd by) = section_of start len (snd ax)"
proof -
  obtain a x b y where e: "ax = (a, x)" "by = (b, y)" by (cases ax, cases "by")
  have same: "\<And>j. start \<le> j \<Longrightarrow> j < start + len \<Longrightarrow> b ! j = a ! j \<and> y ! j = x ! j" "length y = length x" "length b = length a"
    using assms(2,3) by (auto simp: rearranges_def e)
  have "section_of start len y = section_of start len x"
    using assms(1) same by (intro section_cong) (auto simp: ready_def e)
  then show "section_of start len (snd by) = section_of start len (snd ax)" "ready box_of M start len by"
    using assms(1) same by (auto simp: ready_def e)
qed

definition build_spec :: "(nat \<Rightarrow> AABB) \<Rightarrow> nat \<Rightarrow> nat \<Rightarrow> nat \<Rightarrow> AABB list \<times> nat list \<Rightarrow> AABBTree \<Rightarrow> nat \<times> AABB list \<times> nat list \<times> AABBTree \<Rightarrow> bool" where
  "build_spec box_of parent start len ax t res \<longleftrightarrow>
    (case res of (k, aabbs', idx', t') \<Rightarrow> k = at_num_nodes t \<and> rearranges start len ax (aabbs', idx')
      \<and> (\<exists>ps tr. mset ps = mset (section_of start len (snd ax)) \<and> built box_of parent ps t t' tr))"

lemma build_step:
  assumes mem: "mem_ok t" and pre: "ready box_of (length (at_mapping t)) start len ax" and a: "allocateNode t = (k, t1)"
    and p1: "rearranges start len ax ax1" and sr: "sr < len"
    and L: "build_spec box_of k start sr ax1 t1 (kl, a2, x2, t2)"
    and R: "build_spec box_of k (start + sr) (len - sr) (a2, x2) t2 (kr, a3, x3, t3)"
    and b: "\<forall>p \<in> set (section_of start len (snd ax)). contains b (box_of p)" "tight box_of (section_of start len (snd ax)) b"
  shows "build_spec box_of parent start len ax t (k, a3, x3,
    t3\<lparr>at_nodes := (at_nodes t3)[k := (at_nodes t3 ! k)\<lparr>nd_aabb := b, nd_parent := parent, nd_left := kl, nd_right := kr\<rparr>]\<rparr>)"
proof -
  obtain ls tL where l: "mset ls = mset (section_of start sr (snd ax1))" "built box_of k ls t1 t2 tL" "kl = at_num_nodes t1"
      "rearranges start sr ax1 (a2, x2)" using L by (auto simp: build_spec_def)
  obtain rs tR where r: "mset rs = mset (section_of (start + sr) (len - sr) x2)" "built box_of k rs t2 t3 tR" "kr = at_num_nodes t2"
      "rearranges (start + sr) (len - sr) (a2, x2) (a3, x3)" using R by (auto simp: build_spec_def)
  have pre1: "ready box_of (length (at_mapping t)) start len ax1" by (rule ready_rearranged [OF pre p1])
  have len: "len = sr + (len - sr)" using sr by simp
  have "section_of (start + sr) (len - sr) x2 = section_of (start + sr) (len - sr) (snd ax1)"
    using ready_elsewhere(2) [OF ready_part(2) [OF pre1 len] l(4)] by simp
  then have all: "mset (ls @ rs) = mset (section_of start len (snd ax1))"
    using l(1) r(1) section_add [of start sr "len - sr" "snd ax1"] sr by simp
  also have same: "\<dots> = mset (section_of start len (snd ax))" using p1 by (auto simp: rearranges_def split: prod.splits)
  finally have ps: "mset (ls @ rs) = mset (section_of start len (snd ax))" .
  have sec: "distinct (section_of start len (snd ax))" "\<forall>p \<in> set (section_of start len (snd ax)). p < length (at_mapping t)"
    using pre by (auto simp: ready_def split: prod.splits)
  have set: "set ls \<union> set rs = set (section_of start len (snd ax))" using mset_eq_setD [OF ps] by simp
  have "distinct (ls @ rs)" using mset_eq_imp_distinct_iff [OF ps] sec(1) by simp
  then have node: "built box_of parent (ls @ rs) t
      (t3\<lparr>at_nodes := (at_nodes t3)[k := (at_nodes t3 ! k)\<lparr>nd_aabb := b, nd_parent := parent, nd_left := at_num_nodes t1, nd_right := at_num_nodes t2\<rparr>]\<rparr>) (Node b tL tR)"
    using set b sec(2) by (intro built_node [OF mem a l(2) r(2)]) (auto simp: tight_def)
  obtain a0 x0 a1 x1 where e: "ax = (a0, x0)" "ax1 = (a1, x1)" by (cases ax, cases ax1)
  have bounds: "start + len \<le> length x1" "length x2 = length x1" using pre1 l(4) by (auto simp: ready_def rearranges_def e)
  have "rearranges start len ax1 (a2, x2)" "rearranges start len (a2, x2) (a3, x3)"
    using l(4) r(4) sr bounds unfolding e by (auto intro: rearranges_widen)
  then have "rearranges start len ax (a3, x3)" using p1 rearranges_trans by blast
  then show ?thesis unfolding build_spec_def prod.case l(3) r(3) using allocateNode_ok(1) [OF mem a] node ps by blast
qed

lemma ready_boxes:
  assumes "ready box_of M start len (aabbs, idx)"
  shows "p \<in> set (section_of start len idx) \<Longrightarrow> contains (merge_all aabbs start len) (box_of p)"
    and "0 < len \<Longrightarrow> tight box_of (section_of start len idx) (merge_all aabbs start len)"
proof -
  have sec: "start + len \<le> length idx" using assms(1) by (simp add: ready_def)
  show "contains (merge_all aabbs start len) (box_of p)" if p: "p \<in> set (section_of start len idx)"
  proof -
    obtain i where "p = idx ! i" "start \<le> i" "i < start + len" using p section_set [OF sec] by auto
    then show ?thesis using assms(1) merge_all_contains [of "i - start" len aabbs start] by (simp add: ready_def)
  qed
  show "tight box_of (section_of start len idx) (merge_all aabbs start len)" if "0 < len"
    unfolding tight_def
  proof (intro allI impI merge_all_least [OF that])
    fix c i assume c: "\<forall>p \<in> set (section_of start len idx). contains c (box_of p)" and i: "i < len"
    have "idx ! (start + i) \<in> set (section_of start len idx)" using section_set [OF sec] i by auto
    then show "contains c (aabbs ! (start + i))" using c assms i by (auto simp: ready_def)
  qed
qed

lemma buildNode_spec:
  assumes "mem_ok t" and "0 < len" and "ready box_of (length (at_mapping t)) start len (aabbs, idx)"
  shows "build_spec box_of parent start len (aabbs, idx) t (buildNode aabbs idx start len parent t)"
  using assms
proof (induction len arbitrary: aabbs idx start parent t rule: less_induct)
  case (less len)
  show ?case
  proof (cases "len \<le> NODE_CAPACITY")
    case True
    obtain k t' where leaf: "make_leaf (merge_all aabbs start len) parent start len aabbs idx t = (k, t')" by fastforce
    have "k = at_num_nodes t \<and> (\<exists>tr. built box_of parent (section_of start len idx) t t' tr)"
      using less.prems by (intro make_leaf_built [OF _ _ True _ _ _ leaf]) (auto simp: ready_def)
    moreover have "buildNode aabbs idx start len parent t = (k, aabbs, idx, t')" using True leaf by (simp add: buildNode_leaf)
    ultimately show ?thesis by (auto simp: build_spec_def rearranges_refl intro: exI [of _ "section_of start len idx"])
  next
    case False
    let ?b = "merge_all aabbs start len"
    obtain k t1 where a: "allocateNode t = (k, t1)" by fastforce
    obtain sr a1 x1 where sp: "split_aabbs ?b start len aabbs idx = (sr, a1, x1)" by (metis prod_cases3)
    obtain kl a2 x2 t2 where bl: "buildNode a1 x1 start sr k t1 = (kl, a2, x2, t2)" by (metis prod_cases4)
    obtain kr a3 x3 t3 where br: "buildNode a2 x2 (start + sr) (len - sr) k t2 = (kr, a3, x3, t3)" by (metis prod_cases4)
    note al = allocateNode_ok [OF less.prems(1) a]
    have sr: "1 \<le> sr" "sr < len" "len = sr + (len - sr)" using split_aabbs_bounds [OF _ sp] False by (auto simp: NODE_CAPACITY_def)
    have p1: "rearranges start len (aabbs, idx) (a1, x1)"
      using less.prems(3) by (intro split_aabbs_rearranges [OF _ _ sp]) (auto simp: ready_def)
    have pre1: "ready box_of (length (at_mapping t1)) start len (a1, x1)" using ready_rearranged [OF less.prems(3) p1] al(6) by simp
    have L: "build_spec box_of k start sr (a1, x1) t1 (kl, a2, x2, t2)"
      unfolding bl [symmetric] using sr al(3) ready_part(1) [OF pre1 sr(3)] by (intro less.IH) auto
    then have l: "mem_ok t2" "length (at_mapping t2) = length (at_mapping t1)" "rearranges start sr (a1, x1) (a2, x2)"
      by (auto simp: build_spec_def built_def)
    have "ready box_of (length (at_mapping t2)) (start + sr) (len - sr) (a2, x2)"
      using ready_elsewhere(1) [OF ready_part(2) [OF pre1 sr(3)] l(3)] l(2) by simp
    then have R: "build_spec box_of k (start + sr) (len - sr) (a2, x2) t2 (kr, a3, x3, t3)"
      unfolding br [symmetric] using sr l(1) by (intro less.IH) auto
    show ?thesis unfolding buildNode_inner [OF False a sp bl br]
      using ready_boxes [OF less.prems(3)] less.prems(2) by (intro build_step [OF less.prems(1,3) a p1 sr(2) L R]) auto
  qed
qed

subsection \<open>Skip counts\<close>

lemma updateSkip_ok:
  assumes "tree_at False ns mp par k t" and "k + bvh_size t \<le> INVALID_NODE"
  shows "\<exists>ns'. updateSkip k ns = Some (bvh_size t, ns') \<and> tree_at True ns' mp par k t \<and> length ns' = length ns
    \<and> (\<forall>i. i < k \<or> k + bvh_size t \<le> i \<longrightarrow> ns' ! i = ns ! i)"
  using assms
proof (induction t arbitrary: ns par k)
  case (Leaf b ps ts)
  then show ?case by (subst updateSkip.simps) (simp add: isNodeLeaf_def)
next
  case (Node b l r)
  have inner: "\<not> isNodeLeaf ns k" using tree_at_left [OF Node.prems] by (simp add: isNodeLeaf_def)
  obtain n1 where l: "updateSkip (Suc k) ns = Some (bvh_size l, n1)" "tree_at True n1 mp k (Suc k) l" "length n1 = length ns"
      "\<And>i. i < Suc k \<or> Suc k + bvh_size l \<le> i \<Longrightarrow> n1 ! i = ns ! i"
    using Node.IH(1) [of ns k "Suc k"] Node.prems by auto
  have at: "tree_at False ns mp k (Suc k + bvh_size l) r" using Node.prems by simp
  have "tree_at False n1 mp k (Suc k + bvh_size l) r"
    by (rule tree_at_cong [OF at]) (use tree_at_length [OF at] l in simp_all)
  then obtain n2 where r: "updateSkip (Suc k + bvh_size l) n1 = Some (bvh_size r, n2)" "tree_at True n2 mp k (Suc k + bvh_size l) r" "length n2 = length n1"
      "\<And>i. i < Suc k + bvh_size l \<or> Suc k + bvh_size l + bvh_size r \<le> i \<Longrightarrow> n2 ! i = n1 ! i"
    using Node.IH(2) [of n1 k "Suc k + bvh_size l"] Node.prems by auto
  let ?n3 = "n2[k := (n2 ! k)\<lparr>nd_skip := bvh_size l + bvh_size r\<rparr>]"
  have "tree_at True ?n3 mp k (Suc k) l"
    by (rule tree_at_cong [OF l(2)]) (use tree_at_length [OF l(2)] r in simp_all)
  moreover have "tree_at True ?n3 mp k (Suc k + bvh_size l) r"
    by (rule tree_at_cong [OF r(2)]) (use tree_at_length [OF r(2)] in simp_all)
  moreover have "n2 ! k = ns ! k" using l r by simp
  moreover have "updateSkip k ns = Some (Suc (bvh_size l + bvh_size r), ?n3)"
    using inner l r Node.prems by (subst updateSkip.simps) (simp add: Let_def)
  ultimately show ?case using Node.prems l r by (auto simp: nth_list_update)
qed

subsection \<open>Query\<close>

fun bvh_query :: "AABB \<Rightarrow> bvh \<Rightarrow> nat list" where
  "bvh_query q (Leaf b ps ts) = (if overlap b q then ps else [])"
| "bvh_query q (Node b l r) = (if overlap b q then bvh_query q l @ bvh_query q r else [])"

fun bvh_checks :: "AABB \<Rightarrow> bvh \<Rightarrow> nat" where
  "bvh_checks q (Leaf b ps ts) = 1"
| "bvh_checks q (Node b l r) = (if overlap b q then Suc (bvh_checks q l + bvh_checks q r) else 1)"

lemma query_loop_tree:
  assumes "tree_at True ns mp par k t" and "k + bvh_size t \<le> num" and "k + bvh_size t \<le> INVALID_NODE"
  shows "query_loop q ns num k hits c = query_loop q ns num (k + bvh_size t) (hits @ bvh_query q t) (c + bvh_checks q t)"
  using assms
proof (induction t arbitrary: par k hits c)
  case (Leaf b ps ts)
  then show ?case by (subst query_loop.simps) (simp add: Let_def)
next
  case (Node b l r)
  have left: "nd_left (ns ! k) \<noteq> INVALID_NODE" using tree_at_left Node.prems by blast
  show ?case
  proof (cases "overlap b q")
    case True
    have "query_loop q ns num k hits c = query_loop q ns num (Suc k) hits (Suc c)"
      using True left Node.prems by (subst query_loop.simps) (simp add: Let_def)
    also have "\<dots> = query_loop q ns num (Suc k + bvh_size l) (hits @ bvh_query q l) (Suc c + bvh_checks q l)"
      using Node.prems by (intro Node.IH(1)) auto
    also have "\<dots> = query_loop q ns num (Suc k + bvh_size l + bvh_size r) (hits @ bvh_query q l @ bvh_query q r) (Suc c + bvh_checks q l + bvh_checks q r)"
      using Node.prems Node.IH(2) [of k "Suc k + bvh_size l" "hits @ bvh_query q l" "Suc c + bvh_checks q l"] by simp
    finally show ?thesis using True by (simp add: add.assoc)
  next
    case False
    then show ?thesis using Node.prems by (subst query_loop.simps) (simp add: Let_def add.assoc)
  qed
qed

lemma bvh_checks_le: "bvh_checks q t \<le> bvh_size t"
  by (induction t) auto

lemma bvh_query_sublist: "set (bvh_query q t) \<subseteq> set (bvh_particles t)"
  by (induction t) auto

lemma bvh_query_distinct: "distinct (bvh_particles t) \<Longrightarrow> distinct (bvh_query q t)"
  using bvh_query_sublist by (induction t) (auto dest!: subsetD [OF bvh_query_sublist])

lemma bvh_query_complete:
  assumes "bounded box_of t" and "p \<in> set (bvh_particles t)" and "overlap (box_of p) q"
  shows "p \<in> set (bvh_query q t)"
  using assms
proof (induction t)
  case (Node b l r)
  have "overlap b q" using overlap_contains [OF bounded_box [OF Node.prems(1,2)] Node.prems(3)] by simp
  then show ?case using Node by auto
qed (auto dest: overlap_contains)

subsection \<open>Update and height\<close>

fun bvh_insert_box :: "nat \<Rightarrow> AABB \<Rightarrow> bvh \<Rightarrow> bvh" where
  "bvh_insert_box p a (Leaf b ps ts) = (if p \<in> set ps then Leaf (merge b a) ps ts else Leaf b ps ts)"
| "bvh_insert_box p a (Node b l r) =
    (if p \<in> set (bvh_particles l) \<union> set (bvh_particles r)
     then let l = bvh_insert_box p a l; r = bvh_insert_box p a r in Node (merge (bvh_box l) (bvh_box r)) l r
     else Node b l r)"

fun bvh_depth :: "nat \<Rightarrow> bvh \<Rightarrow> nat" where
  "bvh_depth p (Leaf b ps ts) = 1"
| "bvh_depth p (Node b l r) = Suc (bvh_depth p (if p \<in> set (bvh_particles l) then l else r))"

lemma insert_box_same [simp]:
  "bvh_size (bvh_insert_box p a t) = bvh_size t" "bvh_particles (bvh_insert_box p a t) = bvh_particles t"
  "bvh_tags (bvh_insert_box p a t) = bvh_tags t" "p \<notin> set (bvh_particles t) \<Longrightarrow> bvh_insert_box p a t = t"
  by (induction t) (auto simp: Let_def)

lemma insert_box_bounded:
  assumes "bounded box_of t" and "f p = a" and "\<And>x. x \<noteq> p \<Longrightarrow> f x = box_of x"
  shows "bounded f (bvh_insert_box p a t)"
  using assms(1)
proof (induction t)
  case (Leaf b ps ts)
  have "contains (merge b a) (f x)" if "x \<in> set ps" for x
    using that Leaf assms(2) assms(3) [of x] by (cases "x = p") (auto intro: contains_trans [OF contains_merge(1)])
  moreover have "contains b (f x)" if "x \<in> set ps" "p \<notin> set ps" for x
    using that Leaf assms(3) [of x] by (cases "x = p") simp_all
  ultimately show ?case using Leaf by simp
next
  case (Node b l r)
  then have "bounded f (bvh_insert_box p a l)" "bounded f (bvh_insert_box p a r)" by simp_all
  then show ?case using Node.prems by (auto simp: Let_def)
qed

text \<open>A box inside the box of the leaf of its particle needs no change.\<close>

lemma leaf_box_bounded:
  assumes "bounded box_of t" and "tree_at sk ns mp par k t" and "contains (nd_aabb (ns ! (mp ! p))) a"
    and "f p = a" and "\<And>x. x \<noteq> p \<Longrightarrow> f x = box_of x"
  shows "bounded f t"
  using assms(1,2)
proof (induction t arbitrary: par k)
  case (Leaf b ps ts)
  have "contains b (f x)" if "x \<in> set ps" for x
    using that Leaf assms(3,4) assms(5) [of x] by (cases "x = p") auto
  then show ?case using Leaf by simp
qed auto

lemma update_parents_inner:
  "k \<noteq> INVALID_NODE \<Longrightarrow> k < length ns \<Longrightarrow> update_parents k ns =
    update_parents (nd_parent (ns ! k))
      (ns[k := (ns ! k)\<lparr>nd_aabb := merge (nd_aabb (ns ! nd_left (ns ! k))) (nd_aabb (ns ! nd_right (ns ! k)))\<rparr>])"
  by (subst update_parents.simps) (simp add: Let_def)

lemma tree_at_box: "tree_at sk ns mp par k t \<Longrightarrow> nd_aabb (ns ! k) = bvh_box t"
  by (cases t) simp_all

text \<open>The walk along the parents, started in a leaf of a subtree, reaches the parent of the subtree with the boxes of the
  subtree extended. The first lemma is the step from a child to the node above it.\<close>

lemma walk_node:
  assumes at: "tree_at sk ns mp par k (Node b l r)" and INV: "k + bvh_size (Node b l r) \<le> INVALID_NODE"
    and p: "p \<in> set (bvh_particles l) \<union> set (bvh_particles r)"
    and n2: "tree_at sk n2 mp k (Suc k) (bvh_insert_box p a l)" "tree_at sk n2 mp k (Suc k + bvh_size l) (bvh_insert_box p a r)"
      "length n2 = length ns" "\<And>i. i < Suc k \<or> k + bvh_size (Node b l r) \<le> i \<Longrightarrow> n2 ! i = ns ! i"
  shows "\<exists>n3. update_parents k n2 = update_parents par n3 \<and> tree_at sk n3 mp par k (bvh_insert_box p a (Node b l r))
    \<and> length n3 = length ns \<and> (\<forall>i. i < k \<or> k + bvh_size (Node b l r) \<le> i \<longrightarrow> n3 ! i = ns ! i)"
proof -
  let ?box = "merge (bvh_box (bvh_insert_box p a l)) (bvh_box (bvh_insert_box p a r))"
  let ?n3 = "n2[k := (n2 ! k)\<lparr>nd_aabb := ?box\<rparr>]"
  have same: "n2 ! k = ns ! k" using n2(4) by simp
  have k: "k \<noteq> INVALID_NODE" "k < length n2" using INV at n2(3) by auto
  have "update_parents k n2 = update_parents par ?n3"
    using update_parents_inner [OF k] at tree_at_box [OF n2(1)] tree_at_box [OF n2(2)] by (simp add: same)
  moreover have "tree_at sk ?n3 mp k (Suc k) (bvh_insert_box p a l)"
    by (rule tree_at_cong [OF n2(1)]) (use tree_at_length [OF n2(1)] in simp_all)
  moreover have "tree_at sk ?n3 mp k (Suc k + bvh_size l) (bvh_insert_box p a r)"
    by (rule tree_at_cong [OF n2(2)]) (use tree_at_length [OF n2(2)] in simp_all)
  ultimately show ?thesis using n2 at p same by (intro exI [of _ ?n3]) (auto simp: Let_def nth_list_update)
qed

lemma update_walk:
  assumes "tree_at sk ns mp par k t" and "k + bvh_size t \<le> INVALID_NODE" and "p \<in> set (bvh_particles t)" and "distinct (bvh_particles t)"
    and "m = mp ! p" and "n1 = ns[m := (ns ! m)\<lparr>nd_aabb := merge (nd_aabb (ns ! m)) a\<rparr>]"
  shows "\<exists>n2. update_parents (nd_parent (ns ! m)) n1 = update_parents par n2 \<and> tree_at sk n2 mp par k (bvh_insert_box p a t)
    \<and> length n2 = length ns \<and> (\<forall>i. i < k \<or> k + bvh_size t \<le> i \<longrightarrow> n2 ! i = ns ! i)"
  using assms(1-4)
proof (induction t arbitrary: par k)
  case (Leaf b ps ts)
  then have "m = k" "nd_parent (ns ! m) = par" using assms(5) by auto
  then show ?case using Leaf assms(6) by (intro exI [of _ n1]) auto
next
  case (Node b l r)
  let ?kr = "Suc k + bvh_size l"
  have at: "tree_at sk ns mp k (Suc k) l" "tree_at sk ns mp k ?kr r" using Node.prems by simp_all
  have only: "p \<in> set (bvh_particles l) \<Longrightarrow> p \<notin> set (bvh_particles r)" using Node.prems(4) by auto
  have p: "p \<in> set (bvh_particles l) \<union> set (bvh_particles r)" using Node.prems(3) by simp
  show ?case
  proof (cases "p \<in> set (bvh_particles l)")
    case True
    then obtain n2 where n2: "update_parents (nd_parent (ns ! m)) n1 = update_parents k n2" "tree_at sk n2 mp k (Suc k) (bvh_insert_box p a l)"
        "length n2 = length ns" "\<And>i. i < Suc k \<or> Suc k + bvh_size l \<le> i \<Longrightarrow> n2 ! i = ns ! i"
      using Node.IH(1) [OF at(1)] Node.prems by auto
    have "tree_at sk n2 mp k ?kr r" by (rule tree_at_cong [OF at(2)]) (use tree_at_length [OF at(2)] n2 in simp_all)
    then show ?thesis unfolding n2(1) using n2 only True by (intro walk_node [OF Node.prems(1,2) p]) auto
  next
    case False
    then obtain n2 where n2: "update_parents (nd_parent (ns ! m)) n1 = update_parents k n2" "tree_at sk n2 mp k ?kr (bvh_insert_box p a r)"
        "length n2 = length ns" "\<And>i. i < ?kr \<or> ?kr + bvh_size r \<le> i \<Longrightarrow> n2 ! i = ns ! i"
      using Node.IH(2) [OF at(2)] Node.prems by auto
    have "tree_at sk n2 mp k (Suc k) l" by (rule tree_at_cong [OF at(1)]) (use tree_at_length [OF at(1)] n2 in simp_all)
    then show ?thesis unfolding n2(1) using n2 False by (intro walk_node [OF Node.prems(1,2) p]) auto
  qed
qed

lemma bvh_depth_bounds: "0 < bvh_depth p t" "bvh_depth p t \<le> bvh_size t"
  by (induction t) auto

lemma count_walk:
  assumes "tree_at sk ns mp par k t" and "k + bvh_size t \<le> INVALID_NODE" and "p \<in> set (bvh_particles t)"
  shows "count_parents ns (nd_parent (ns ! (mp ! p))) h = count_parents ns par (h + bvh_depth p t - 1)"
  using assms
proof (induction t arbitrary: par k)
  case (Node b l r)
  have k: "k \<noteq> INVALID_NODE" "nd_parent (ns ! k) = par" using Node.prems by auto
  have "count_parents ns (nd_parent (ns ! (mp ! p))) h
      = count_parents ns k (h + bvh_depth p (if p \<in> set (bvh_particles l) then l else r) - 1)"
    using Node.prems Node.IH(1) [of k "Suc k"] Node.IH(2) [of k "Suc k + bvh_size l"] by auto
  also have "\<dots> = count_parents ns par (Suc (h + bvh_depth p (if p \<in> set (bvh_particles l) then l else r) - 1))"
    using k by (subst count_parents.simps) simp
  finally show ?case using bvh_depth_bounds(1) [of p "if p \<in> set (bvh_particles l) then l else r"] by simp
qed auto

subsection \<open>The whole tree\<close>

definition tree_ok :: "AABBTree \<Rightarrow> (nat \<Rightarrow> AABB) \<Rightarrow> nat \<Rightarrow> bvh \<Rightarrow> bool" where
  "tree_ok t box_of N tr \<longleftrightarrow> mem_ok t \<and> at_num_nodes t = bvh_size tr \<and> bvh_size tr < 2 * N \<and> bvh_size tr \<le> INVALID_NODE
    \<and> tree_at True (at_nodes t) (at_mapping t) INVALID_NODE 0 tr \<and> bounded box_of tr \<and> mset (bvh_particles tr) = mset [0..<N]"

lemma tree_ok_particles:
  assumes "tree_ok t box_of N tr"
  shows "distinct (bvh_particles tr)" "set (bvh_particles tr) = {..<N}"
proof -
  have m: "mset (bvh_particles tr) = mset [0..<N]" using assms unfolding tree_ok_def by blast
  show "distinct (bvh_particles tr)" unfolding mset_eq_imp_distinct_iff [OF m] by simp
  show "set (bvh_particles tr) = {..<N}" unfolding mset_eq_setD [OF m] by (simp add: lessThan_atLeast0)
qed

lemma section_full: "section_of 0 (length xs) xs = xs"
  by (simp add: section_of_def)

lemma buildTree_ok:
  assumes "mem_ok t0" and "0 < N" and "N \<le> 2147483648" and "length aabbs = N"
  shows "\<exists>aabbs' t tr. buildTree aabbs N t0 = Some (aabbs', t) \<and> tree_ok t ((!) aabbs) N tr \<and> bvh_tags tr = map (\<lambda>p. aabb_tag (aabbs ! p)) (bvh_particles tr)
    \<and> length aabbs' = N"
proof -
  let ?t = "tree_init N t0"
  have init: "mem_ok ?t" "at_num_nodes ?t = 0" "length (at_mapping ?t) = N" using assms(1) by (simp_all add: tree_init_def mem_ok_def)
  have sec: "section_of 0 N [0..<N] = [0..<N]" using section_full [of "[0..<N]"] by simp
  have "ready ((!) aabbs) (length (at_mapping ?t)) 0 N (aabbs, [0..<N])" using assms init by (simp add: ready_def sec)
  from buildNode_spec [OF init(1) assms(2) this, of INVALID_NODE]
  obtain a x t1 ps tr where b: "buildNode aabbs [0..<N] 0 N INVALID_NODE ?t = (0, a, x, t1)" "mset ps = mset [0..<N]"
      "built ((!) aabbs) INVALID_NODE ps ?t t1 tr" "length a = N"
    using assms(4) by (auto simp: build_spec_def rearranges_def init sec split: prod.splits)
  have size: "bvh_size tr < 2 * N" "bvh_size tr \<le> INVALID_NODE"
    using b(2,3) assms(3) mset_eq_length [OF b(2)] by (auto simp: built_def INVALID_NODE_def)
  obtain ns where sk: "updateSkip 0 (at_nodes t1) = Some (bvh_size tr, ns)" "tree_at True ns (at_mapping t1) INVALID_NODE 0 tr" "length ns = length (at_nodes t1)"
    using updateSkip_ok [of "at_nodes t1" "at_mapping t1" INVALID_NODE 0 tr] b(3) size init by (auto simp: built_def)
  have "buildTree aabbs N t0 = Some (a, t1\<lparr>at_root := 0, at_nodes := ns\<rparr>)" using b(1) sk(1) by (simp add: buildTree_def)
  moreover have "tree_ok (t1\<lparr>at_root := 0, at_nodes := ns\<rparr>) ((!) aabbs) N tr"
    using b sk size init by (simp add: tree_ok_def built_def mem_ok_def)
  ultimately show ?thesis using b(3,4) by (auto simp: built_def)
qed

lemma query_ok:
  assumes "tree_ok t box_of N tr"
  shows "query q hits t = (hits @ bvh_query q tr, bvh_checks q tr)"
proof -
  have "query q hits t = query_loop q (at_nodes t) (at_num_nodes t) (0 + bvh_size tr) (hits @ bvh_query q tr) (0 + bvh_checks q tr)"
    unfolding query_def using assms by (intro query_loop_tree) (auto simp: tree_ok_def)
  also have "\<dots> = (hits @ bvh_query q tr, bvh_checks q tr)" using assms by (subst query_loop.simps) (simp add: tree_ok_def)
  finally show ?thesis .
qed

lemma update_ok:
  assumes ok: "tree_ok t box_of N tr" and p: "p < N"
  shows "\<exists>t' tr'. update p a t = Some t' \<and> tree_ok t' (box_of(p := a)) N tr' \<and> bvh_tags tr' = bvh_tags tr"
proof -
  let ?m = "at_mapping t ! p"
  let ?n1 = "(at_nodes t)[?m := (at_nodes t ! ?m)\<lparr>nd_aabb := merge (nd_aabb (at_nodes t ! ?m)) a\<rparr>]"
  have at: "tree_at True (at_nodes t) (at_mapping t) INVALID_NODE 0 tr" "0 + bvh_size tr \<le> INVALID_NODE" "bounded box_of tr"
    using ok unfolding tree_ok_def by auto
  have p: "p \<in> set (bvh_particles tr)" "distinct (bvh_particles tr)" using tree_ok_particles [OF ok] p by auto
  show ?thesis
  proof (cases "contains (nd_aabb (at_nodes t ! ?m)) a")
    case True
    have "bounded (box_of(p := a)) tr" by (rule leaf_box_bounded [OF at(3,1) True]) simp_all
    then have "tree_ok t (box_of(p := a)) N tr" using ok unfolding tree_ok_def by blast
    moreover have "update p a t = Some t" using True by (simp add: update_def)
    ultimately show ?thesis by blast
  next
    case False
    obtain n2 where n2: "update_parents (nd_parent (at_nodes t ! ?m)) ?n1 = update_parents INVALID_NODE n2"
        "tree_at True n2 (at_mapping t) INVALID_NODE 0 (bvh_insert_box p a tr)" "length n2 = length (at_nodes t)"
      using update_walk [OF at(1,2) p refl refl, of a] by blast
    have "nd_parent (?n1 ! ?m) = nd_parent (at_nodes t ! ?m)" by (simp add: nth_update_iff)
    then have "update p a t = Some (t\<lparr>at_nodes := n2\<rparr>)"
      using False n2(1) update_parents.simps [of INVALID_NODE n2] by (simp add: update_def Let_def)
    moreover have "bounded (box_of(p := a)) (bvh_insert_box p a tr)" by (rule insert_box_bounded [OF at(3)]) simp_all
    then have "tree_ok (t\<lparr>at_nodes := n2\<rparr>) (box_of(p := a)) N (bvh_insert_box p a tr)"
      using ok n2(2,3) unfolding tree_ok_def mem_ok_def insert_box_same by simp
    ultimately show ?thesis using insert_box_same(3) by blast
  qed
qed

lemma height_ok:
  assumes ok: "tree_ok t box_of N tr" and p: "p < N"
  shows "tree_height p t = Some (bvh_depth p tr)"
proof -
  have at: "tree_at True (at_nodes t) (at_mapping t) INVALID_NODE 0 tr" "0 + bvh_size tr \<le> INVALID_NODE"
    using ok unfolding tree_ok_def by auto
  have p: "p \<in> set (bvh_particles tr)" using tree_ok_particles [OF ok] p by simp
  have "at_mapping t ! p \<noteq> INVALID_NODE"
  proof -
    have "at_mapping t ! p < k + bvh_size s" if "tree_at True (at_nodes t) (at_mapping t) par k s" "p \<in> set (bvh_particles s)" for par k s
      using that by (induction s arbitrary: par k) fastforce+
    from this [OF at(1) p] at(2) show ?thesis by simp
  qed
  moreover have "count_parents (at_nodes t) INVALID_NODE (bvh_depth p tr) = Some (bvh_depth p tr)"
    by (subst count_parents.simps) simp
  ultimately show ?thesis using count_walk [OF at p, of 1] by (simp add: tree_height_def)
qed

subsection \<open>The contract of a spatial index\<close>

text \<open>What the clients rely on: a particle can be moved, and a search returns every particle whose current box overlaps the query
  box, none twice.\<close>

locale spatial_index =
  fixes holds :: "'t \<Rightarrow> (nat \<Rightarrow> AABB) \<Rightarrow> nat \<Rightarrow> bool"
    and move :: "nat \<Rightarrow> AABB \<Rightarrow> 't \<Rightarrow> 't option"
    and search :: "AABB \<Rightarrow> 't \<Rightarrow> nat list"
  assumes move_holds: "holds t box_of N \<Longrightarrow> p < N \<Longrightarrow> \<exists>t'. move p a t = Some t' \<and> holds t' (box_of(p := a)) N"
    and search_particles: "holds t box_of N \<Longrightarrow> distinct (search q t) \<and> set (search q t) \<subseteq> {..<N}"
    and search_complete: "holds t box_of N \<Longrightarrow> p < N \<Longrightarrow> overlap (box_of p) q \<Longrightarrow> p \<in> set (search q t)"
begin

lemma moves_hold:
  assumes "holds t box_of N" and "\<forall>u \<in> set us. fst u < N"
  shows "\<exists>t'. fold (\<lambda>(p, a) r. Option.bind r (move p a)) us (Some t) = Some t' \<and> holds t' (fold (\<lambda>(p, a) b. b(p := a)) us box_of) N"
  using assms
proof (induction us arbitrary: t box_of)
  case (Cons u us)
  obtain p a where u: "u = (p, a)" by (cases u)
  obtain t1 where "move p a t = Some t1" "holds t1 (box_of(p := a)) N" using move_holds Cons.prems u by fastforce
  then show ?case using Cons.IH [of t1 "box_of(p := a)"] Cons.prems by (simp add: u del: fun_upd_apply)
qed simp

lemma search_after_moves:
  assumes "holds t box_of N" and "\<forall>u \<in> set us. fst u < N"
  shows "\<exists>t'. fold (\<lambda>(p, a) r. Option.bind r (move p a)) us (Some t) = Some t'
    \<and> (\<forall>q. distinct (search q t') \<and> set (search q t') \<subseteq> {..<N}
          \<and> (\<forall>p < N. overlap (fold (\<lambda>(p, a) b. b(p := a)) us box_of p) q \<longrightarrow> p \<in> set (search q t')))"
  using moves_hold [OF assms] search_particles search_complete by meson

end

definition tree_holds :: "AABBTree \<Rightarrow> (nat \<Rightarrow> AABB) \<Rightarrow> nat \<Rightarrow> bool" where
  "tree_holds t box_of N \<longleftrightarrow> (\<exists>tr. tree_ok t box_of N tr)"

definition hits_of :: "AABB \<Rightarrow> AABBTree \<Rightarrow> nat list" where
  "hits_of q t = fst (query q [] t)"

interpretation aabb_index: spatial_index tree_holds update hits_of
proof unfold_locales
  fix t :: AABBTree and box_of N
  assume "tree_holds t box_of N"
  then obtain tr where ok: "tree_ok t box_of N tr" by (auto simp: tree_holds_def)
  show "\<exists>t'. update p a t = Some t' \<and> tree_holds t' (box_of(p := a)) N" if "p < N" for p a
    using update_ok [OF ok that] unfolding tree_holds_def by blast
  show "distinct (hits_of q t) \<and> set (hits_of q t) \<subseteq> {..<N}" for q
    using query_ok [OF ok, of q "[]"] bvh_query_sublist [of q tr] bvh_query_distinct [of tr q] tree_ok_particles [OF ok]
    by (simp add: hits_of_def)
  show "p \<in> set (hits_of q t)" if "p < N" "overlap (box_of p) q" for p q
    using query_ok [OF ok, of q "[]"] bvh_query_complete [of box_of tr p q] that ok tree_ok_particles(2) [OF ok]
    by (simp add: hits_of_def tree_ok_def)
qed

definition run_updates :: "(nat \<times> AABB) list \<Rightarrow> AABBTree \<Rightarrow> AABBTree option" where
  "run_updates us t = fold (\<lambda>(p, a) r. Option.bind r (update p a)) us (Some t)"

definition current_boxes :: "AABB list \<Rightarrow> (nat \<times> AABB) list \<Rightarrow> nat \<Rightarrow> AABB" where
  "current_boxes aabbs us = fold (\<lambda>(p, a) b. b(p := a)) us ((!) aabbs)"


definition point_row :: "AABB list" where
  "point_row = map (\<lambda>i. AABB_point (real i, 0, 0) i) [0..<20]"

lemma AABBTree_new_mem: "mem_ok AABBTree_new"
  by (simp add: mem_ok_def AABBTree_new_def)


text \<open>
  C5: The recursion over node links ends: \<open>buildTree\<close>, every update and every \<open>height\<close> of a particle return; the tree has
  fewer than \<open>2 N\<close> nodes, and no height and no number of box tests of a query exceeds the number of nodes.
\<close>

theorem aabb_tree_terminates:
  assumes "mem_ok t0" and "0 < N" and "N \<le> 2147483648" and "length aabbs = N" and "\<forall>u \<in> set us. fst u < N"
  shows "\<exists>aabbs' t t'. buildTree aabbs N t0 = Some (aabbs', t) \<and> run_updates us t = Some t' \<and> at_num_nodes t' < 2 * N
    \<and> (\<forall>p < N. \<exists>h. tree_height p t' = Some h \<and> 1 \<le> h \<and> h \<le> at_num_nodes t')
    \<and> (\<forall>q hits. snd (query q hits t') \<le> at_num_nodes t')"
proof -
  obtain aabbs' t tr where b: "buildTree aabbs N t0 = Some (aabbs', t)" and ok: "tree_ok t ((!) aabbs) N tr"
    using buildTree_ok [OF assms(1-4)] by blast
  from ok have "tree_holds t ((!) aabbs) N" unfolding tree_holds_def by blast
  from aabb_index.moves_hold [OF this assms(5)] obtain t' tr' where u: "run_updates us t = Some t'" and ok': "tree_ok t' (current_boxes aabbs us) N tr'"
    unfolding run_updates_def current_boxes_def tree_holds_def by blast
  have n: "at_num_nodes t' = bvh_size tr'" "bvh_size tr' < 2 * N" using ok' by (auto simp: tree_ok_def)
  have "\<exists>h. tree_height p t' = Some h \<and> 1 \<le> h \<and> h \<le> at_num_nodes t'" if "p < N" for p
    using height_ok [OF ok' that] bvh_depth_bounds [of p tr'] n by (auto simp: Suc_le_eq)
  moreover have "snd (query q hits t') \<le> at_num_nodes t'" for q hits
    using query_ok [OF ok'] bvh_checks_le n by simp
  moreover have "at_num_nodes t' < 2 * N" using n by simp
  ultimately show ?thesis using b u by blast
qed

theorem aabb_tree_terminates_witness:
  "\<exists>aabbs' t t' h. buildTree point_row 20 AABBTree_new = Some (aabbs', t) \<and> run_updates [(3, AABB_point (50, 0, 0) 3)] t = Some t'
    \<and> tree_height 3 t' = Some h \<and> h < 40"
proof -
  obtain aabbs' t t' where b: "buildTree point_row 20 AABBTree_new = Some (aabbs', t)" "run_updates [(3, AABB_point (50, 0, 0) 3)] t = Some t'"
    "at_num_nodes t' < 40" "\<And>p. p < 20 \<Longrightarrow> \<exists>h. tree_height p t' = Some h \<and> 1 \<le> h \<and> h \<le> at_num_nodes t'"
    using aabb_tree_terminates [OF AABBTree_new_mem, of 20 point_row "[(3, AABB_point (50, 0, 0) 3)]"] by (auto simp: point_row_def)
  from b(4) [of 3] obtain h where "tree_height 3 t' = Some h" "h \<le> at_num_nodes t'" by auto
  then show ?thesis using b(1-3) by (intro exI [of _ aabbs'] exI [of _ t] exI [of _ t'] exI [of _ h]) simp
qed

end
