(* ===== verification/Neighbor_Tree.thy ===== *)
theory Neighbor_Tree
  imports Neighbor_List AABB_Query
begin

section \<open>NeighborListTree: neighbours from bounding volume hierarchies\<close>

text \<open>
  The class of \<^verbatim>\<open>hoomd/md/NeighborListTree.h\<close> and \<^verbatim>\<open>hoomd/md/NeighborListTree.cc\<close>, which derives from \<open>NeighborList\<close>: one tree of
  point boxes per particle type, searched once per particle, type and periodic image. The trees are those of
  \<open>AABB_Tree\<close>; a build that does not return is \<open>None\<close>.
\<close>

subsection \<open>State\<close>

record NeighborListTree = NeighborList +
  nt_box_changed :: bool
  nt_max_num_changed :: bool
  nt_remap_particles :: bool
  nt_types_allocated :: bool
  nt_aabb_trees :: "AABBTree list"
  nt_aabbs :: "AABB list"
  nt_num_per_type :: "nat list"
  nt_type_head :: "nat list"
  nt_map_pid_tree :: "nat list"
  nt_image_list :: "vec3 list"
  nt_n_images :: nat

definition make_NeighborListTree :: "NeighborList \<Rightarrow> NeighborListTree" where
  "make_NeighborListTree nb = NeighborList.extend nb
    (NeighborListTree.fields True True True False [] [] [] [] [] [] 0)"

definition slotBoxChanged :: "NeighborListTree \<Rightarrow> NeighborListTree" where
  "slotBoxChanged nt = nt\<lparr>nt_box_changed := True\<rparr>"

definition slotMaxNumChanged :: "NeighborListTree \<Rightarrow> NeighborListTree" where
  "slotMaxNumChanged nt = nt\<lparr>nt_max_num_changed := True\<rparr>"

definition slotRemapParticles :: "NeighborListTree \<Rightarrow> NeighborListTree" where
  "slotRemapParticles nt = nt\<lparr>nt_remap_particles := True\<rparr>"

definition n_local :: "ParticleData \<Rightarrow> nat" where
  "n_local pd = pd_nparticles pd + pd_nghosts pd"

definition type_of :: "ParticleData \<Rightarrow> nat \<Rightarrow> nat" where
  "type_of pd i = pe_type (pd_elems pd ! i)"

definition pos_of :: "ParticleData \<Rightarrow> nat \<Rightarrow> vec3" where
  "pos_of pd i = pe_pos (pd_elems pd ! i)"

subsection \<open>Sorting the particles by type\<close>

definition map_step :: "ParticleData \<Rightarrow> nat \<Rightarrow> nat list \<times> nat list \<Rightarrow> nat list \<times> nat list" where
  "map_step pd i st =
    (let (map_pid_tree, num_per_type) = st; my_type = type_of pd i
     in (map_pid_tree[i := num_per_type ! my_type], num_per_type[my_type := num_per_type ! my_type + 1]))"

definition head_step :: "nat list \<Rightarrow> nat \<Rightarrow> nat list \<times> nat \<Rightarrow> nat list \<times> nat" where
  "head_step num_per_type i st = (let (type_head, local_head) = st in (type_head[i := local_head], local_head + num_per_type ! i))"

definition mapParticlesByType :: "ParticleData \<Rightarrow> NeighborListTree \<Rightarrow> NeighborListTree" where
  "mapParticlesByType pd nt =
    (let n_types = nb_ntypes nt;
         num_per_type = fold (\<lambda>i l. l[i := 0]) [0..<n_types] (nt_num_per_type nt);
         (map_pid_tree, num_per_type) = fold (map_step pd) [0..<n_local pd] (nt_map_pid_tree nt, num_per_type);
         (type_head, local_head) = fold (head_step num_per_type) [0..<n_types] (nt_type_head nt, 0)
     in nt\<lparr>nt_map_pid_tree := map_pid_tree, nt_num_per_type := num_per_type, nt_type_head := type_head\<rparr>)"

subsection \<open>Image vectors\<close>

definition image_vector :: "BoxDim \<Rightarrow> int3 \<Rightarrow> vec3" where
  "image_vector box c =
    vadd (vadd (vscale (of_int (xc c)) (getLatticeVector box 0)) (vscale (of_int (yc c)) (getLatticeVector box 1)))
         (vscale (of_int (zc c)) (getLatticeVector box 2))"

definition image_used :: "bool \<times> bool \<times> bool \<Rightarrow> bool \<Rightarrow> int3 \<Rightarrow> bool" where
  "image_used periodic sys3d c \<longleftrightarrow>
    c \<noteq> (0, 0, 0) \<and> \<not> (xc c \<noteq> 0 \<and> \<not> xc periodic) \<and> \<not> (yc c \<noteq> 0 \<and> \<not> yc periodic)
    \<and> \<not> (zc c \<noteq> 0 \<and> (\<not> sys3d \<or> \<not> zc periodic))"

definition image_step :: "BoxDim \<Rightarrow> bool \<Rightarrow> nat \<Rightarrow> int3 \<Rightarrow> nat \<times> vec3 list \<Rightarrow> nat \<times> vec3 list" where
  "image_step box sys3d max_images c st =
    (let (n_images, image_list) = st in
     if n_images < max_images \<and> image_used (box_periodic box) sys3d c then (n_images + 1, image_list[n_images := image_vector box c]) else st)"

definition updateImageVectors :: "nl_system \<Rightarrow> NeighborListTree \<Rightarrow> NeighborListTree" where
  "updateImageVectors sy nt =
    (let box = sy_box sy; (px, py, pz) = box_periodic box; sys3d = (sy_ndim sy = 3);
         n_dim_periodic = of_bool px + of_bool py + of_bool sys3d * of_bool pz;
         max_images = fold (\<lambda>dim n. n * 3) [0..<n_dim_periodic] 1;
         image_list = (if max_images > length (nt_image_list nt) then resized (0, 0, 0) max_images (nt_image_list nt) else nt_image_list nt);
         (n_images, image_list) =
           fold (image_step box sys3d max_images) (List.product [-1, 0, 1] (List.product [-1, 0, 1] [-1, 0, 1])) (1, image_list[0 := (0, 0, 0)])
     in nt\<lparr>nt_n_images := max_images, nt_image_list := image_list\<rparr>)"

definition setupTree :: "nl_system \<Rightarrow> ParticleData \<Rightarrow> NeighborListTree \<Rightarrow> NeighborListTree" where
  "setupTree sy pd nt =
    (let nt = (if nt_max_num_changed nt
               then nt\<lparr>nt_aabbs := resized AABB_default (pd_max_nparticles pd) (nt_aabbs nt),
                       nt_map_pid_tree := resized 0 (pd_max_nparticles pd) (nt_map_pid_tree nt), nt_max_num_changed := False\<rparr>
               else nt);
         nt = (if \<not> nt_types_allocated nt
               then nt\<lparr>nt_aabb_trees := replicate (nb_ntypes nt) AABBTree_new, nt_num_per_type := resized 0 (nb_ntypes nt) (nt_num_per_type nt),
                       nt_type_head := resized 0 (nb_ntypes nt) (nt_type_head nt), nt_remap_particles := True, nt_types_allocated := True\<rparr>
               else nt);
         nt = (if nt_remap_particles nt then (mapParticlesByType pd nt)\<lparr>nt_remap_particles := False\<rparr> else nt)
     in if nt_box_changed nt then (updateImageVectors sy nt)\<lparr>nt_box_changed := False\<rparr> else nt)"

subsection \<open>Building the trees\<close>

definition build_ghost_width :: "nl_system \<Rightarrow> vec3" where
  "build_ghost_width sy =
    (let (px, py, pz) = box_periodic (sy_box sy); w = sy_ghost_layer sy
     in (if \<not> px then w else 0, if \<not> py then w else 0, if sy_ndim sy = 3 \<and> \<not> pz then w else 0))"

definition out_of_bounds :: "vec3 \<Rightarrow> bool" where
  "out_of_bounds f \<longleftrightarrow>
    (xc f < - (1 / 100000) \<or> xc f \<ge> 1 + 1 / 100000) \<or> (yc f < - (1 / 100000) \<or> yc f \<ge> 1 + 1 / 100000)
    \<or> (zc f < - (1 / 100000) \<or> zc f \<ge> 1 + 1 / 100000)"

fun fill_aabbs :: "nl_system \<Rightarrow> ParticleData \<Rightarrow> NeighborListTree \<Rightarrow> nat list \<Rightarrow> AABB list \<Rightarrow> AABB list result" where
  "fill_aabbs sy pd nt [] aabbs = Inr aabbs"
| "fill_aabbs sy pd nt (i # is) aabbs =
    (let my_pos = pos_of pd i; f = makeFraction (sy_box sy) my_pos (build_ghost_width sy) in
     if out_of_bounds f \<and> i < pd_nparticles pd then Inl (RuntimeError ''Error updating neighborlist'')
     else fill_aabbs sy pd nt is (aabbs[nt_type_head nt ! type_of pd i + nt_map_pid_tree nt ! i := AABB_point my_pos i]))"

fun build_trees :: "NeighborListTree \<Rightarrow> nat list \<Rightarrow> AABB list \<Rightarrow> AABBTree list \<Rightarrow> (AABB list \<times> AABBTree list) option" where
  "build_trees nt [] aabbs trees = Some (aabbs, trees)"
| "build_trees nt (i # is) aabbs trees =
    (let head = nt_type_head nt ! i; num = nt_num_per_type nt ! i in
     if num > 0 then
       Option.bind (buildTree (take num (drop head aabbs)) num (trees ! i)) (\<lambda>(sorted_aabbs, tree).
         build_trees nt is (take head aabbs @ sorted_aabbs @ drop (head + num) aabbs) (trees[i := tree]))
     else build_trees nt is aabbs trees)"

definition nt_buildTree :: "nl_system \<Rightarrow> ParticleData \<Rightarrow> NeighborListTree \<Rightarrow> NeighborListTree result option" where
  "nt_buildTree sy pd nt =
    (case fill_aabbs sy pd nt [0..<n_local pd] (nt_aabbs nt) of
       Inl e \<Rightarrow> Some (Inl e)
     | Inr aabbs \<Rightarrow> map_option (\<lambda>(aabbs, trees). Inr (nt\<lparr>nt_aabbs := aabbs, nt_aabb_trees := trees\<rparr>))
         (build_trees nt [0..<nb_ntypes nt] aabbs (nt_aabb_trees nt)))"

subsection \<open>Traversal\<close>

text \<open>The stackless loop over the nodes of a tree; \<open>visit\<close> is the body for one particle of a leaf.\<close>

function traverse_loop :: "AABB \<Rightarrow> AABBNode list \<Rightarrow> nat \<Rightarrow> (nat \<Rightarrow> 's \<Rightarrow> 's) \<Rightarrow> nat \<Rightarrow> 's \<Rightarrow> 's" where
  "traverse_loop aabb nodes num visit i s =
    (if i < num then
       if overlap (nd_aabb (nodes ! i)) aabb then
         traverse_loop aabb nodes num visit (i + 1)
           (if isNodeLeaf nodes i then fold (\<lambda>cur_p. visit (nd_particle_tags (nodes ! i) ! cur_p)) [0..<nd_num_particles (nodes ! i)] s else s)
       else traverse_loop aabb nodes num visit (i + nd_skip (nodes ! i) + 1) s
     else s)"
  by pat_completeness auto
termination by (relation "measure (\<lambda>(a, n, num, v, i, s). num - i)") auto

declare traverse_loop.simps [simp del]

text \<open>Whether \<open>j\<close> is a neighbour of the image of \<open>i\<close> at \<open>pos\<close>, with the cutoff \<open>r_cut_i\<close> that includes the buffer.\<close>

definition nt_accept :: "'a NeighborList_scheme \<Rightarrow> ParticleData \<Rightarrow> nat \<Rightarrow> vec3 \<Rightarrow> Scalar \<Rightarrow> nat \<Rightarrow> bool" where
  "nt_accept nb pd i pos r_cut_i j =
    (let excluded = (i = j);
         body_i = pe_body (pd_elems pd ! i);
         excluded = (if nb_filter_body nb \<and> body_i \<noteq> NO_BODY then excluded \<or> body_i = pe_body (pd_elems pd ! j) else excluded)
     in if \<not> excluded then
          let delta = (pe_diameter (pd_elems pd ! i) + pe_diameter (pd_elems pd ! j)) * (1 / 2) - 1;
              sqshift = (if nb_diameter_shift nb then (delta + 2 * r_cut_i) * delta else 0);
              drij = vsub (pos_of pd j) pos; dr_sq = dot3 drij drij
          in dr_sq \<le> r_cut_i * r_cut_i + sqshift \<and> (nb_storage_mode nb = full_mode \<or> i < j)
        else False)"

text \<open>The lists being written: the neighbours, the overflow conditions and the number of neighbours found so far.\<close>

definition nt_store :: "'a NeighborList_scheme \<Rightarrow> ParticleData \<Rightarrow> nat \<Rightarrow> nat \<Rightarrow> nat list \<times> nat list \<times> nat \<Rightarrow> nat list \<times> nat list \<times> nat" where
  "nt_store nb pd i j st =
    (let (nlist, conditions, n_neigh_i) = st; type_i = type_of pd i in
     if n_neigh_i < nb_Nmax nb ! type_i then (nlist[nb_head_list nb ! i + n_neigh_i := j], conditions, n_neigh_i + 1)
     else (nlist, conditions[type_i := max (conditions ! type_i) (n_neigh_i + 1)], n_neigh_i + 1))"

definition nt_visit :: "'a NeighborList_scheme \<Rightarrow> ParticleData \<Rightarrow> nat \<Rightarrow> vec3 \<Rightarrow> Scalar \<Rightarrow> nat \<Rightarrow> nat list \<times> nat list \<times> nat \<Rightarrow> nat list \<times> nat list \<times> nat" where
  "nt_visit nb pd i pos r_cut_i j st = (if nt_accept nb pd i pos r_cut_i j then nt_store nb pd i j st else st)"

definition traverse_image :: "NeighborListTree \<Rightarrow> ParticleData \<Rightarrow> nat \<Rightarrow> nat \<Rightarrow> Scalar \<Rightarrow> nat \<Rightarrow> nat list \<times> nat list \<times> nat \<Rightarrow> nat list \<times> nat list \<times> nat" where
  "traverse_image nt pd i cur_pair_type r_cut_i cur_image =
    (let pos_i_image = vadd (pos_of pd i) (nt_image_list nt ! cur_image);
         r_list_i = (if nb_diameter_shift nt then r_cut_i + (nb_d_max nt - 1) else r_cut_i);
         aabb = AABB_sphere pos_i_image r_list_i;
         tree = nt_aabb_trees nt ! cur_pair_type
     in traverse_loop aabb (at_nodes tree) (at_num_nodes tree) (nt_visit nt pd i pos_i_image r_cut_i) 0)"

definition traverse_type :: "NeighborListTree \<Rightarrow> ParticleData \<Rightarrow> nat \<Rightarrow> nat \<Rightarrow> nat list \<times> nat list \<times> nat \<Rightarrow> nat list \<times> nat list \<times> nat" where
  "traverse_type nt pd i cur_pair_type st =
    (if nt_num_per_type nt ! cur_pair_type = 0 then st
     else
       let r_cut = nb_r_cut nt ! nb_typpair nt (type_of pd i) cur_pair_type in
       if r_cut \<le> 0 then st
       else fold (traverse_image nt pd i cur_pair_type (r_cut + nb_r_buff nt)) [0..<nt_n_images nt] st)"

definition traverse_particle :: "NeighborListTree \<Rightarrow> ParticleData \<Rightarrow> nat \<Rightarrow> nat list \<times> nat list \<times> nat list \<Rightarrow> nat list \<times> nat list \<times> nat list" where
  "traverse_particle nt pd i st =
    (let (nlist, conditions, n_neigh) = st;
         (nlist, conditions, n_neigh_i) = fold (traverse_type nt pd i) [0..<nb_ntypes nt] (nlist, conditions, 0)
     in (nlist, conditions, n_neigh[i := n_neigh_i]))"

definition traverseTree :: "ParticleData \<Rightarrow> NeighborListTree \<Rightarrow> NeighborListTree" where
  "traverseTree pd nt =
    (let (nlist, conditions, n_neigh) =
           fold (traverse_particle nt pd) [0..<pd_nparticles pd] (nb_nlist nt, nb_conditions nt, nb_n_neigh nt)
     in nt\<lparr>nb_nlist := nlist, nb_conditions := conditions, nb_n_neigh := n_neigh\<rparr>)"

definition nt_buildNlist :: "nl_system \<Rightarrow> ParticleData \<Rightarrow> NeighborListTree \<Rightarrow> NeighborListTree result option" where
  "nt_buildNlist sy pd nt = map_option (map_sum id (traverseTree pd)) (nt_buildTree sy pd (setupTree sy pd nt))"

definition nt_compute :: "(nat \<Rightarrow> Scalar list) \<Rightarrow> bool \<Rightarrow> nl_system \<Rightarrow> topology \<Rightarrow> ParticleData \<Rightarrow> u64 \<Rightarrow> NeighborListTree \<Rightarrow> NeighborListTree result option" where
  "nt_compute mats others sy tp pd = nl_compute (nt_buildNlist sy pd) mats others sy tp pd"

definition nlist_of :: "'a NeighborList_scheme \<Rightarrow> nlist_data" where
  "nlist_of nb = \<lparr>nl_half = (nb_storage_mode nb = half_mode), nl_n_neigh = nb_n_neigh nb, nl_head_list = nb_head_list nb, nl_nlist = nb_nlist nb\<rparr>"

end
