(* ===== verification/Neighbor_Sort.thy ===== *)
theory Neighbor_Sort
  imports Neighbor_Tree
begin

section \<open>NeighborListTree: the trees hold the particles of their types\<close>

text \<open>
  The counting sort of the particles by type, the array of point boxes and the trees built on its sections: the tree of a
  type holds the boxes of the particles of this type, each once, tagged with its index.
\<close>

subsection \<open>Counting\<close>

definition of_type :: "ParticleData \<Rightarrow> nat \<Rightarrow> nat \<Rightarrow> nat list" where
  "of_type pd n ty = filter (\<lambda>k. type_of pd k = ty) [0..<n]"

lemma of_type_0 [simp]: "of_type pd 0 ty = []"
  by (simp add: of_type_def)

lemma of_type_Suc: "of_type pd (Suc n) ty = of_type pd n ty @ (if type_of pd n = ty then [n] else [])"
  by (simp add: of_type_def)

lemma of_type_set [simp]: "set (of_type pd n ty) = {k. k < n \<and> type_of pd k = ty}"
  by (auto simp: of_type_def)

lemma of_type_distinct [simp]: "distinct (of_type pd n ty)"
  by (simp add: of_type_def)

lemma of_type_rank: "i < n \<Longrightarrow> type_of pd i = ty \<Longrightarrow> length (of_type pd i ty) < length (of_type pd n ty) \<and> of_type pd n ty ! length (of_type pd i ty) = i"
  by (induction n) (auto simp: of_type_Suc nth_append less_Suc_eq)

lemma sum_of_type: "(\<And>k. k < n \<Longrightarrow> type_of pd k < T) \<Longrightarrow> (\<Sum>ty < T. length (of_type pd n ty)) = n"
proof (induction n)
  case (Suc n)
  have "length (of_type pd (Suc n) ty) = length (of_type pd n ty) + (if type_of pd n = ty then 1 else 0)" for ty by (simp add: of_type_Suc)
  then have "(\<Sum>ty < T. length (of_type pd (Suc n) ty)) = (\<Sum>ty < T. length (of_type pd n ty)) + (\<Sum>ty < T. if type_of pd n = ty then 1 else 0)"
    by (simp only: sum.distrib)
  then show ?case using Suc by simp
qed simp

definition head_of :: "ParticleData \<Rightarrow> nat \<Rightarrow> nat \<Rightarrow> nat" where
  "head_of pd n ty = (\<Sum>t < ty. length (of_type pd n t))"

definition sorted_by_type :: "ParticleData \<Rightarrow> NeighborListTree \<Rightarrow> bool" where
  "sorted_by_type pd nt \<longleftrightarrow>
    length (nt_num_per_type nt) = nb_ntypes nt \<and> length (nt_type_head nt) = nb_ntypes nt \<and> n_local pd \<le> length (nt_map_pid_tree nt)
    \<and> (\<forall>ty < nb_ntypes nt. nt_num_per_type nt ! ty = length (of_type pd (n_local pd) ty) \<and> nt_type_head nt ! ty = head_of pd (n_local pd) ty)
    \<and> (\<forall>i < n_local pd. nt_map_pid_tree nt ! i = length (of_type pd i (type_of pd i)))"

lemma map_step_eq [simp]:
  "map_step pd i (mp, num) = (mp[i := num ! type_of pd i], num[type_of pd i := num ! type_of pd i + 1])"
  by (simp add: map_step_def Let_def)

lemma head_step_eq [simp]: "head_step num i (th, h) = (th[i := h], h + num ! i)"
  by (simp add: head_step_def)

lemma map_fold:
  assumes "n \<le> length mp" and "\<And>k. k < n \<Longrightarrow> type_of pd k < length num" and "\<And>ty. ty < length num \<Longrightarrow> num ! ty = 0"
  shows "\<exists>mp' num'. fold (map_step pd) [0..<n] (mp, num) = (mp', num') \<and> length mp' = length mp \<and> length num' = length num
    \<and> (\<forall>i < n. mp' ! i = length (of_type pd i (type_of pd i))) \<and> (\<forall>ty < length num. num' ! ty = length (of_type pd n ty))"
  using assms
proof (induction n)
  case (Suc n)
  then obtain mp' num' where f: "fold (map_step pd) [0..<n] (mp, num) = (mp', num')" "length mp' = length mp" "length num' = length num"
    "\<forall>i < n. mp' ! i = length (of_type pd i (type_of pd i))" "\<forall>ty < length num. num' ! ty = length (of_type pd n ty)" by auto
  have t: "type_of pd n < length num" "n < length mp" using Suc.prems by auto
  let ?mp = "mp'[n := num' ! type_of pd n]" and ?num = "num'[type_of pd n := num' ! type_of pd n + 1]"
  have "fold (map_step pd) [0..<Suc n] (mp, num) = (?mp, ?num)" using f(1) by simp
  moreover have "\<forall>i < Suc n. ?mp ! i = length (of_type pd i (type_of pd i))" using f t by (auto simp: nth_list_update less_Suc_eq)
  moreover have "\<forall>ty < length num. ?num ! ty = length (of_type pd (Suc n) ty)" using f t by (auto simp: nth_list_update of_type_Suc)
  moreover have "length ?mp = length mp" "length ?num = length num" using f by simp_all
  ultimately show ?case by blast
qed simp

lemma head_fold:
  assumes "n \<le> length th"
  shows "\<exists>th'. fold (head_step num) [0..<n] (th, 0) = (th', \<Sum>t < n. num ! t) \<and> length th' = length th \<and> (\<forall>ty < n. th' ! ty = (\<Sum>t < ty. num ! t))"
  using assms
proof (induction n)
  case (Suc n)
  then obtain th' where "fold (head_step num) [0..<n] (th, 0) = (th', \<Sum>t < n. num ! t)" "length th' = length th" "\<forall>ty < n. th' ! ty = (\<Sum>t < ty. num ! t)" by auto
  then show ?case using Suc.prems
    by (intro exI [of _ "th'[n := \<Sum>t < n. num ! t]"]) (auto simp: nth_list_update less_Suc_eq Suc_le_eq)
qed simp

lemma zero_fold: "length (fold (\<lambda>i l. l[i := z]) [0..<n] xs) = length xs \<and> (\<forall>k < length xs. fold (\<lambda>i l. l[i := z]) [0..<n] xs ! k = (if k < n then z else xs ! k))"
  by (induction n) (auto simp: nth_list_update less_Suc_eq)

lemma mapParticlesByType_sorted:
  assumes "n_local pd \<le> length (nt_map_pid_tree nt)" and "\<forall>k < n_local pd. type_of pd k < nb_ntypes nt"
    and "length (nt_num_per_type nt) = nb_ntypes nt" and "length (nt_type_head nt) = nb_ntypes nt"
  shows "sorted_by_type pd (mapParticlesByType pd nt) \<and> (\<exists>mp num th. mapParticlesByType pd nt = nt\<lparr>nt_map_pid_tree := mp, nt_num_per_type := num, nt_type_head := th\<rparr>)"
proof -
  let ?T = "nb_ntypes nt" and ?z = "fold (\<lambda>i l. l[i := 0]) [0..<nb_ntypes nt] (nt_num_per_type nt)"
  have z: "length ?z = ?T" "\<And>ty. ty < length ?z \<Longrightarrow> ?z ! ty = 0" using zero_fold [of 0 ?T "nt_num_per_type nt"] assms(3) by auto
  obtain mp num where m: "fold (map_step pd) [0..<n_local pd] (nt_map_pid_tree nt, ?z) = (mp, num)" "length mp = length (nt_map_pid_tree nt)"
      "length num = ?T" "\<forall>i < n_local pd. mp ! i = length (of_type pd i (type_of pd i))" "\<forall>ty < ?T. num ! ty = length (of_type pd (n_local pd) ty)"
    using map_fold [OF assms(1), of pd ?z] assms(2) z by auto
  obtain th where h: "fold (head_step num) [0..<?T] (nt_type_head nt, 0) = (th, \<Sum>t < ?T. num ! t)" "length th = ?T" "\<forall>ty < ?T. th ! ty = (\<Sum>t < ty. num ! t)"
    using head_fold [of ?T "nt_type_head nt" num] assms(4) by auto
  have e: "mapParticlesByType pd nt = nt\<lparr>nt_map_pid_tree := mp, nt_num_per_type := num, nt_type_head := th\<rparr>"
    unfolding mapParticlesByType_def Let_def m(1) prod.case h(1) by simp
  have "\<forall>ty < ?T. th ! ty = head_of pd (n_local pd) ty" using h(3) m(5) by (auto simp: head_of_def intro!: sum.cong)
  then show ?thesis using m h assms(1) by (auto simp: e sorted_by_type_def)
qed

subsection \<open>Cells of the array of boxes\<close>

definition cell_of :: "ParticleData \<Rightarrow> nat \<Rightarrow> nat \<Rightarrow> nat" where
  "cell_of pd n i = head_of pd n (type_of pd i) + length (of_type pd i (type_of pd i))"

lemma head_of_mono: "s < t \<Longrightarrow> head_of pd n s + length (of_type pd n s) \<le> head_of pd n t"
proof -
  assume "s < t"
  have "head_of pd n s + length (of_type pd n s) = (\<Sum>u < Suc s. length (of_type pd n u))" by (simp add: head_of_def)
  also have "\<dots> \<le> head_of pd n t" unfolding head_of_def using \<open>s < t\<close> by (intro sum_mono2) auto
  finally show ?thesis .
qed

lemma head_of_end:
  assumes "\<And>k. k < n \<Longrightarrow> type_of pd k < T" and "ty < T"
  shows "head_of pd n ty + length (of_type pd n ty) \<le> n"
  using head_of_mono [OF assms(2), of pd n] sum_of_type [OF assms(1)] unfolding head_of_def by simp

lemma cell_of_section: "i < n \<Longrightarrow> head_of pd n (type_of pd i) \<le> cell_of pd n i \<and> cell_of pd n i < head_of pd n (type_of pd i) + length (of_type pd n (type_of pd i))"
  using of_type_rank [OF _ refl, of i n pd] by (simp add: cell_of_def)

lemma cell_of_inj:
  assumes "i < n" and "k < n" and "cell_of pd n i = cell_of pd n k"
  shows "i = k"
proof -
  note i = cell_of_section [OF assms(1), of pd] and k = cell_of_section [OF assms(2), of pd]
  show ?thesis
  proof (cases "type_of pd i" "type_of pd k" rule: linorder_cases)
    case less
    from head_of_mono [OF this, of pd n] i k assms(3) show ?thesis by linarith
  next
    case equal
    have len: "length (of_type pd i (type_of pd i)) = length (of_type pd k (type_of pd k))" using assms(3) equal by (simp add: cell_of_def)
    have "i = of_type pd n (type_of pd i) ! length (of_type pd i (type_of pd i))" using of_type_rank [OF assms(1) refl] by metis
    also have "\<dots> = of_type pd n (type_of pd k) ! length (of_type pd k (type_of pd k))" unfolding len by (simp only: equal)
    also have "\<dots> = k" using of_type_rank [OF assms(2) refl] by blast
    finally show ?thesis .
  next
    case greater
    from head_of_mono [OF this, of pd n] i k assms(3) show ?thesis by linarith
  qed
qed

definition in_bounds :: "nl_system \<Rightarrow> ParticleData \<Rightarrow> nat \<Rightarrow> bool" where
  "in_bounds sy pd i \<longleftrightarrow> \<not> out_of_bounds (makeFraction (sy_box sy) (pos_of pd i) (build_ghost_width sy))"

lemma fill_aabbs_fold:
  "fill_aabbs sy pd nt is aabbs =
    (if \<forall>i \<in> set is. i < pd_nparticles pd \<longrightarrow> in_bounds sy pd i
     then Inr (fold (\<lambda>i a. a[nt_type_head nt ! type_of pd i + nt_map_pid_tree nt ! i := AABB_point (pos_of pd i) i]) is aabbs)
     else Inl (RuntimeError ''Error updating neighborlist''))"
  by (induction "is" arbitrary: aabbs) (auto simp: in_bounds_def Let_def)

lemma fold_write_cells:
  assumes "\<And>i k. i < n \<Longrightarrow> k < n \<Longrightarrow> c i = c k \<Longrightarrow> i = k" and "\<And>i. i < n \<Longrightarrow> c i < length xs"
  shows "length (fold (\<lambda>i a. a[c i := v i]) [0..<n] xs) = length xs \<and> (\<forall>i < n. fold (\<lambda>i a. a[c i := v i]) [0..<n] xs ! c i = v i)"
  using assms
proof (induction n)
  case (Suc n)
  then have "length (fold (\<lambda>i a. a[c i := v i]) [0..<n] xs) = length xs \<and> (\<forall>i < n. fold (\<lambda>i a. a[c i := v i]) [0..<n] xs ! c i = v i)" by simp
  moreover have "c n \<noteq> c i" if "i < n" for i using Suc.prems(1) [of n i] that by auto
  ultimately show ?case using Suc.prems(2) by (auto simp: nth_list_update less_Suc_eq)
qed simp

text \<open>The boxes of the particles of one type, in the order of their indices.\<close>

definition type_boxes :: "ParticleData \<Rightarrow> nat \<Rightarrow> AABB list" where
  "type_boxes pd ty = map (\<lambda>i. AABB_point (pos_of pd i) i) (of_type pd (n_local pd) ty)"

lemma fill_aabbs_sections:
  assumes s: "sorted_by_type pd nt" and t: "\<forall>k < n_local pd. type_of pd k < nb_ntypes nt" and len: "n_local pd \<le> length aabbs"
    and b: "\<forall>i < pd_nparticles pd. in_bounds sy pd i"
  shows "\<exists>a. fill_aabbs sy pd nt [0..<n_local pd] aabbs = Inr a \<and> length a = length aabbs
    \<and> (\<forall>ty < nb_ntypes nt. section_of (nt_type_head nt ! ty) (nt_num_per_type nt ! ty) a = type_boxes pd ty)"
proof -
  let ?n = "n_local pd"
  let ?f = "\<lambda>c. fold (\<lambda>i a. a[c i := AABB_point (pos_of pd i) i]) [0..<?n] aabbs"
  have cells: "nt_type_head nt ! type_of pd i + nt_map_pid_tree nt ! i = cell_of pd ?n i" if "i < ?n" for i
    using s t that by (simp add: sorted_by_type_def cell_of_def)
  have eq: "?f (\<lambda>i. nt_type_head nt ! type_of pd i + nt_map_pid_tree nt ! i) = ?f (cell_of pd ?n)"
    by (intro fold_cong) (auto simp: cells)
  have "cell_of pd ?n i < length aabbs" if "i < ?n" for i
    using cell_of_section [OF that, of pd] head_of_end [of ?n pd "nb_ntypes nt" "type_of pd i"] t that len by fastforce
  then have w: "length (?f (cell_of pd ?n)) = length aabbs" "\<And>i. i < ?n \<Longrightarrow> ?f (cell_of pd ?n) ! cell_of pd ?n i = AABB_point (pos_of pd i) i"
    using fold_write_cells [of ?n "cell_of pd ?n" aabbs "\<lambda>i. AABB_point (pos_of pd i) i"] cell_of_inj by blast+
  have "section_of (nt_type_head nt ! ty) (nt_num_per_type nt ! ty) (?f (cell_of pd ?n)) = type_boxes pd ty" if ty: "ty < nb_ntypes nt" for ty
  proof (rule nth_equalityI)
    have e: "nt_type_head nt ! ty = head_of pd ?n ty" "nt_num_per_type nt ! ty = length (of_type pd ?n ty)" using s ty by (auto simp: sorted_by_type_def)
    have fits: "head_of pd ?n ty + length (of_type pd ?n ty) \<le> length (?f (cell_of pd ?n))" using head_of_end [of ?n pd "nb_ntypes nt" ty] t ty len w(1) by auto
    show "length (section_of (nt_type_head nt ! ty) (nt_num_per_type nt ! ty) (?f (cell_of pd ?n))) = length (type_boxes pd ty)"
      using section_length [OF fits] by (simp add: e type_boxes_def)
    fix k assume "k < length (section_of (nt_type_head nt ! ty) (nt_num_per_type nt ! ty) (?f (cell_of pd ?n)))"
    then have k: "k < length (of_type pd ?n ty)" using section_length [OF fits] by (simp add: e)
    let ?i = "of_type pd ?n ty ! k"
    have i: "?i < ?n" "type_of pd ?i = ty" using nth_mem [OF k] by auto
    have "length (of_type pd ?i ty) = k" using of_type_rank [OF i] k nth_eq_iff_index_eq [OF of_type_distinct [of pd ?n ty]] by blast
    then have "head_of pd ?n ty + k = cell_of pd ?n ?i" using i by (simp add: cell_of_def)
    then show "section_of (nt_type_head nt ! ty) (nt_num_per_type nt ! ty) (?f (cell_of pd ?n)) ! k = type_boxes pd ty ! k"
      using section_nth [OF fits k] w(2) [OF i(1)] k by (simp add: e type_boxes_def)
  qed
  moreover have "fill_aabbs sy pd nt [0..<?n] aabbs = Inr (?f (cell_of pd ?n))" using b by (simp add: fill_aabbs_fold eq)
  ultimately show ?thesis using w(1) by blast
qed

subsection \<open>One tree per type\<close>

definition tree_of_type :: "ParticleData \<Rightarrow> AABBTree \<Rightarrow> nat \<Rightarrow> bool" where
  "tree_of_type pd t ty \<longleftrightarrow>
    (\<exists>tr. tree_ok t ((!) (type_boxes pd ty)) (length (type_boxes pd ty)) tr
      \<and> bvh_tags tr = map (\<lambda>p. aabb_tag (type_boxes pd ty ! p)) (bvh_particles tr))"

lemma section_replaced:
  assumes "length b = n" and "h + n \<le> length a" and "s + m \<le> h \<or> h + n \<le> s" and "s + m \<le> length a"
  shows "section_of s m (take h a @ b @ drop (h + n) a) = section_of s m a"
  using assms by (intro section_cong) (auto simp: nth_append)

lemma build_trees_ok:
  assumes "distinct is" and "\<forall>ty \<in> set is. ty < length trees \<and> head ! ty + num ! ty \<le> length aabbs
      \<and> section_of (head ! ty) (num ! ty) aabbs = type_boxes pd ty \<and> num ! ty \<le> 2147483648"
    and "\<forall>s \<in> set is. \<forall>t \<in> set is. s < t \<longrightarrow> head ! s + num ! s \<le> head ! t"
    and "\<forall>t \<in> set trees. mem_ok t" and "nt_type_head nt = head" and "nt_num_per_type nt = num"
  shows "\<exists>aabbs' trees'. build_trees nt is aabbs trees = Some (aabbs', trees') \<and> length aabbs' = length aabbs \<and> length trees' = length trees
    \<and> (\<forall>t \<in> set trees'. mem_ok t) \<and> (\<forall>ty. ty \<notin> set is \<longrightarrow> trees' ! ty = trees ! ty)
    \<and> (\<forall>ty \<in> set is. num ! ty > 0 \<longrightarrow> tree_of_type pd (trees' ! ty) ty)"
  using assms
proof (induction "is" arbitrary: aabbs trees)
  case (Cons i "is")
  show ?case
  proof (cases "num ! i > 0")
    case False
    obtain aabbs' trees' where "build_trees nt is aabbs trees = Some (aabbs', trees')" "length aabbs' = length aabbs" "length trees' = length trees"
        "\<forall>t \<in> set trees'. mem_ok t" "\<forall>ty. ty \<notin> set is \<longrightarrow> trees' ! ty = trees ! ty" "\<forall>ty \<in> set is. num ! ty > 0 \<longrightarrow> tree_of_type pd (trees' ! ty) ty"
      using Cons.IH [of trees aabbs] Cons.prems by auto
    then show ?thesis using False Cons.prems(5,6) by (intro exI [of _ aabbs'] exI [of _ trees']) (auto simp: Let_def)
  next
    case True
    let ?h = "head ! i" and ?n = "num ! i"
    have i: "i < length trees" "?h + ?n \<le> length aabbs" "section_of ?h ?n aabbs = type_boxes pd i" "?n \<le> 2147483648" using Cons.prems(2) by auto
    have len: "length (type_boxes pd i) = ?n" using section_length [OF i(2)] i(3) by simp
    have "mem_ok (trees ! i)" using Cons.prems(4) i(1) by simp
    from buildTree_ok [OF this True i(4) len] obtain b t tr where b: "buildTree (type_boxes pd i) ?n (trees ! i) = Some (b, t)"
        "tree_ok t ((!) (type_boxes pd i)) ?n tr" "bvh_tags tr = map (\<lambda>p. aabb_tag (type_boxes pd i ! p)) (bvh_particles tr)" "length b = ?n" by blast
    let ?a = "take ?h aabbs @ b @ drop (?h + ?n) aabbs"
    have l: "length ?a = length aabbs" using i(2) b(4) by simp
    have mem: "\<forall>t' \<in> set (trees[i := t]). mem_ok t'" using Cons.prems(4) b(2) set_update_subset_insert [of trees i t] by (auto simp: tree_ok_def)
    have sec: "section_of (head ! ty) (num ! ty) ?a = type_boxes pd ty" if ty: "ty \<in> set is" for ty
    proof -
      have "i \<noteq> ty" using ty Cons.prems(1) by auto
      then have "head ! ty + num ! ty \<le> ?h \<or> ?h + ?n \<le> head ! ty" using Cons.prems(3) ty by (cases i ty rule: linorder_cases) auto
      then show ?thesis using section_replaced [OF b(4) i(2)] Cons.prems(2) ty by auto
    qed
    have d: "distinct is" "i \<notin> set is" using Cons.prems(1) by auto
    obtain aabbs' trees' where r: "build_trees nt is ?a (trees[i := t]) = Some (aabbs', trees')" "length aabbs' = length ?a" "length trees' = length (trees[i := t])"
        "\<forall>t \<in> set trees'. mem_ok t" "\<forall>ty. ty \<notin> set is \<longrightarrow> trees' ! ty = trees[i := t] ! ty" "\<forall>ty \<in> set is. num ! ty > 0 \<longrightarrow> tree_of_type pd (trees' ! ty) ty"
      using Cons.IH [OF d(1), of "trees[i := t]" ?a] Cons.prems sec mem l by auto
    have "tree_of_type pd t i" unfolding tree_of_type_def using b(2,3) len by auto
    then have "tree_of_type pd (trees' ! i) i" using r(5) d(2) i(1) by simp
    moreover have "build_trees nt (i # is) aabbs trees = Some (aabbs', trees')"
      using True b(1) i(3) r(1) Cons.prems(5,6) by (simp add: Let_def section_of_def)
    ultimately show ?thesis using r l by auto
  qed
qed simp

definition trees_ready :: "ParticleData \<Rightarrow> NeighborListTree \<Rightarrow> bool" where
  "trees_ready pd nt \<longleftrightarrow> sorted_by_type pd nt \<and> (\<forall>k < n_local pd. type_of pd k < nb_ntypes nt) \<and> n_local pd \<le> length (nt_aabbs nt)
    \<and> n_local pd \<le> 2147483648 \<and> length (nt_aabb_trees nt) = nb_ntypes nt \<and> (\<forall>t \<in> set (nt_aabb_trees nt). mem_ok t)"

lemma nt_buildTree_ok:
  assumes r: "trees_ready pd nt" and b: "\<forall>i < pd_nparticles pd. in_bounds sy pd i"
  shows "\<exists>a ts. nt_buildTree sy pd nt = Some (Inr (nt\<lparr>nt_aabbs := a, nt_aabb_trees := ts\<rparr>)) \<and> trees_ready pd (nt\<lparr>nt_aabbs := a, nt_aabb_trees := ts\<rparr>)
    \<and> (\<forall>ty < nb_ntypes nt. nt_num_per_type nt ! ty > 0 \<longrightarrow> tree_of_type pd (ts ! ty) ty)"
proof -
  let ?n = "n_local pd" and ?T = "nb_ntypes nt"
  have s: "sorted_by_type pd nt" and t: "\<forall>k < ?n. type_of pd k < ?T" and l: "?n \<le> length (nt_aabbs nt)" using r by (auto simp: trees_ready_def)
  have e: "nt_type_head nt ! ty = head_of pd ?n ty" "nt_num_per_type nt ! ty = length (of_type pd ?n ty)" if "ty < ?T" for ty
    using s that by (auto simp: sorted_by_type_def)
  obtain a where a: "fill_aabbs sy pd nt [0..<?n] (nt_aabbs nt) = Inr a" "length a = length (nt_aabbs nt)"
      "\<forall>ty < ?T. section_of (nt_type_head nt ! ty) (nt_num_per_type nt ! ty) a = type_boxes pd ty"
    using fill_aabbs_sections [OF s t l b] by blast
  have ends: "head_of pd ?n ty + length (of_type pd ?n ty) \<le> ?n" if "ty < ?T" for ty using head_of_end [OF _ that] t by blast
  have fits: "\<forall>ty \<in> set [0..<?T]. ty < length (nt_aabb_trees nt) \<and> nt_type_head nt ! ty + nt_num_per_type nt ! ty \<le> length a
      \<and> section_of (nt_type_head nt ! ty) (nt_num_per_type nt ! ty) a = type_boxes pd ty \<and> nt_num_per_type nt ! ty \<le> 2147483648"
  proof
    fix ty assume "ty \<in> set [0..<?T]"
    then have "ty < ?T" by simp
    then show "ty < length (nt_aabb_trees nt) \<and> nt_type_head nt ! ty + nt_num_per_type nt ! ty \<le> length a
      \<and> section_of (nt_type_head nt ! ty) (nt_num_per_type nt ! ty) a = type_boxes pd ty \<and> nt_num_per_type nt ! ty \<le> 2147483648"
      using ends [of ty] e [of ty] a l r by (auto simp: trees_ready_def)
  qed
  have ord: "\<forall>s \<in> set [0..<?T]. \<forall>t \<in> set [0..<?T]. s < t \<longrightarrow> nt_type_head nt ! s + nt_num_per_type nt ! s \<le> nt_type_head nt ! t"
    using e head_of_mono by simp
  have "\<forall>t \<in> set (nt_aabb_trees nt). mem_ok t" using r by (simp add: trees_ready_def)
  from build_trees_ok [OF distinct_upt fits ord this refl refl] obtain a' ts where b: "build_trees nt [0..<?T] a (nt_aabb_trees nt) = Some (a', ts)"
      "length a' = length a" "length ts = length (nt_aabb_trees nt)" "\<forall>t \<in> set ts. mem_ok t"
      "\<forall>ty < ?T. nt_num_per_type nt ! ty > 0 \<longrightarrow> tree_of_type pd (ts ! ty) ty" by auto
  have "nt_buildTree sy pd nt = Some (Inr (nt\<lparr>nt_aabbs := a', nt_aabb_trees := ts\<rparr>))" using a(1) b(1) by (simp add: nt_buildTree_def)
  moreover have "trees_ready pd (nt\<lparr>nt_aabbs := a', nt_aabb_trees := ts\<rparr>)" using r b a by (auto simp: trees_ready_def sorted_by_type_def)
  ultimately show ?thesis using b(5) by blast
qed

lemma nt_buildTree_error:
  assumes "\<exists>i < pd_nparticles pd. \<not> in_bounds sy pd i"
  shows "nt_buildTree sy pd nt = Some (Inl (RuntimeError ''Error updating neighborlist''))"
  using assms by (auto simp: nt_buildTree_def fill_aabbs_fold n_local_def)

end
