(* ===== verification/Neighbor_Search.thy ===== *)
theory Neighbor_Search
  imports Neighbor_Sort
begin

section \<open>NeighborListTree: what the traversal writes\<close>

text \<open>
  The stackless traversal visits the particles of the leaves whose boxes overlap the search box. The particles that pass the
  tests are exactly those of the specification \<open>neighbor_spec\<close>, which knows neither trees nor types; they are written to
  the segment of the particle as far as it has room, and the overflow conditions record what would have been needed.
\<close>

subsection \<open>Traversal of one tree\<close>

fun bvh_tag_query :: "AABB \<Rightarrow> bvh \<Rightarrow> nat list" where
  "bvh_tag_query q (Leaf b ps ts) = (if overlap b q then ts else [])"
| "bvh_tag_query q (Node b l r) = (if overlap b q then bvh_tag_query q l @ bvh_tag_query q r else [])"

lemma traverse_loop_tree:
  assumes "tree_at True ns mp par k t" and "k + bvh_size t \<le> num" and "k + bvh_size t \<le> INVALID_NODE"
  shows "traverse_loop q ns num visit k s = traverse_loop q ns num visit (k + bvh_size t) (fold visit (bvh_tag_query q t) s)"
  using assms
proof (induction t arbitrary: par k s)
  case (Leaf b ps ts)
  have "fold (\<lambda>i. visit (nd_particle_tags (ns ! k) ! i)) [0..<nd_num_particles (ns ! k)] s = fold visit ts s"
    using Leaf.prems(1) by (auto simp: fold_map comp_def)
  then show ?case using Leaf by (subst traverse_loop.simps) (simp add: isNodeLeaf_def)
next
  case (Node b l r)
  have left: "\<not> isNodeLeaf ns k" using tree_at_left Node.prems unfolding isNodeLeaf_def by blast
  show ?case
  proof (cases "overlap b q")
    case True
    have "traverse_loop q ns num visit k s = traverse_loop q ns num visit (Suc k) s"
      using True left Node.prems by (subst traverse_loop.simps) simp
    also have "\<dots> = traverse_loop q ns num visit (Suc k + bvh_size l) (fold visit (bvh_tag_query q l) s)"
      using Node.prems by (intro Node.IH(1)) auto
    also have "\<dots> = traverse_loop q ns num visit (Suc k + bvh_size l + bvh_size r) (fold visit (bvh_tag_query q r) (fold visit (bvh_tag_query q l) s))"
      using Node.prems by (intro Node.IH(2)) auto
    finally show ?thesis using True by (simp add: add.assoc)
  next
    case False
    then show ?thesis using Node.prems by (subst traverse_loop.simps) (simp add: add.assoc)
  qed
qed

lemma tree_at_tag_length: "tree_at sk ns mp par k t \<Longrightarrow> length (bvh_tags t) = length (bvh_particles t)"
  by (induction t arbitrary: par k) auto

lemma tag_query_map:
  assumes "tree_at sk ns mp par k t" and "bvh_tags t = map f (bvh_particles t)"
  shows "bvh_tag_query q t = map f (bvh_query q t)"
  using assms
proof (induction t arbitrary: par k)
  case (Node b l r)
  have "length (bvh_tags l) = length (bvh_particles l)" using Node.prems(1) tree_at_tag_length by auto
  then have "bvh_tags l = map f (bvh_particles l)" "bvh_tags r = map f (bvh_particles r)" using Node.prems(2) by simp_all
  moreover have "tree_at sk ns mp k (Suc k) l" "tree_at sk ns mp k (Suc k + bvh_size l) r" using Node.prems(1) by auto
  ultimately have "bvh_tag_query q l = map f (bvh_query q l)" "bvh_tag_query q r = map f (bvh_query q r)" using Node.IH by blast+
  then show ?case by simp
qed simp

text \<open>The particles that a search visits, in order.\<close>

definition tree_tags :: "AABB \<Rightarrow> AABBTree \<Rightarrow> nat list" where
  "tree_tags q t = traverse_loop q (at_nodes t) (at_num_nodes t) (\<lambda>j l. l @ [j]) 0 []"

lemma fold_snoc: "fold (\<lambda>j l. l @ [j]) js l = l @ js"
  by (induction js arbitrary: l) auto

lemma traverse_tree_ok:
  assumes "tree_ok t box_of N tr"
  shows "traverse_loop q (at_nodes t) (at_num_nodes t) visit 0 s = fold visit (bvh_tag_query q tr) s"
proof -
  have "traverse_loop q (at_nodes t) (at_num_nodes t) visit 0 s = traverse_loop q (at_nodes t) (at_num_nodes t) visit (0 + bvh_size tr) (fold visit (bvh_tag_query q tr) s)"
    using assms by (intro traverse_loop_tree) (auto simp: tree_ok_def)
  also have "\<dots> = fold visit (bvh_tag_query q tr) s" using assms by (subst traverse_loop.simps) (simp add: tree_ok_def)
  finally show ?thesis .
qed

lemma traverse_tags:
  assumes "tree_of_type pd t ty"
  shows "traverse_loop q (at_nodes t) (at_num_nodes t) visit 0 s = fold visit (tree_tags q t) s"
proof -
  obtain tr where "tree_ok t ((!) (type_boxes pd ty)) (length (type_boxes pd ty)) tr" using assms by (auto simp: tree_of_type_def)
  then show ?thesis by (simp add: tree_tags_def fold_snoc traverse_tree_ok)
qed

lemma tree_tags_filter:
  assumes t: "tree_of_type pd t ty" and P: "\<And>j. j < n_local pd \<Longrightarrow> type_of pd j = ty \<Longrightarrow> P j \<Longrightarrow> overlap (AABB_point (pos_of pd j) j) q"
  shows "mset (filter P (tree_tags q t)) = mset (filter P (of_type pd (n_local pd) ty))"
proof -
  let ?b = "type_boxes pd ty" and ?l = "of_type pd (n_local pd) ty"
  obtain tr where ok: "tree_ok t ((!) ?b) (length ?b) tr" and tags: "bvh_tags tr = map (\<lambda>p. aabb_tag (?b ! p)) (bvh_particles tr)"
    using t by (auto simp: tree_of_type_def)
  note ps = tree_ok_particles [OF ok]
  have len: "length ?b = length ?l" by (simp add: type_boxes_def)
  have at: "tree_at True (at_nodes t) (at_mapping t) INVALID_NODE 0 tr" "bounded ((!) ?b) tr" using ok by (auto simp: tree_ok_def)
  have sub: "set (bvh_query q tr) \<subseteq> {..<length ?l}" using bvh_query_sublist [of q tr] ps(2) len by simp
  have "tree_tags q t = bvh_tag_query q tr" by (simp add: tree_tags_def fold_snoc traverse_tree_ok [OF ok])
  also have "\<dots> = map (\<lambda>p. aabb_tag (?b ! p)) (bvh_query q tr)" by (rule tag_query_map [OF at(1) tags])
  also have "\<dots> = map ((!) ?l) (bvh_query q tr)" using sub by (auto simp: type_boxes_def AABB_point_def)
  finally have e: "tree_tags q t = map ((!) ?l) (bvh_query q tr)" .
  have "inj_on ((!) ?l) (set (bvh_query q tr))" by (rule inj_on_nth [OF of_type_distinct]) (use sub in blast)
  then have "distinct (tree_tags q t)" using bvh_query_distinct [OF ps(1)] by (simp add: e distinct_map)
  moreover have "j \<in> set (tree_tags q t)" if j: "j \<in> set ?l" "P j" for j
  proof -
    obtain p where p: "p < length ?l" "?l ! p = j" using j(1) unfolding in_set_conv_nth by blast
    have "?b ! p = AABB_point (pos_of pd j) j" using p by (simp add: type_boxes_def)
    moreover have "j < n_local pd" "type_of pd j = ty" using j(1) by simp_all
    ultimately have "overlap (?b ! p) q" using P [OF _ _ j(2)] by simp
    moreover have "p \<in> set (bvh_particles tr)" unfolding ps(2) len using p(1) by simp
    ultimately have "p \<in> set (bvh_query q tr)" using bvh_query_complete [OF at(2)] by blast
    then show ?thesis unfolding e set_map p(2) [symmetric] by (rule imageI)
  qed
  moreover have "set (tree_tags q t) \<subseteq> set ?l" unfolding e set_map using sub by (auto simp del: of_type_set intro!: nth_mem)
  ultimately have "set (filter P (tree_tags q t)) = set (filter P ?l)" "distinct (filter P (tree_tags q t))"
    unfolding set_filter by (blast, simp)
  then show ?thesis using set_eq_iff_mset_eq_distinct distinct_filter [OF of_type_distinct] by blast
qed

subsection \<open>The neighbours of a particle\<close>

definition images_of :: "NeighborListTree \<Rightarrow> vec3 list" where
  "images_of nt = map ((!) (nt_image_list nt)) [0..<nt_n_images nt]"

definition rcut_of :: "'a NeighborList_scheme \<Rightarrow> ParticleData \<Rightarrow> nat \<Rightarrow> nat \<Rightarrow> Scalar" where
  "rcut_of nb pd i ty = nb_r_cut nb ! nb_typpair nb (type_of pd i) ty"

text \<open>Specification: \<open>j\<close> counts once for every image vector with which \<open>i\<close> comes into the range of \<open>j\<close>.\<close>

definition accept_at :: "'a NeighborList_scheme \<Rightarrow> ParticleData \<Rightarrow> nat \<Rightarrow> vec3 \<Rightarrow> nat \<Rightarrow> bool" where
  "accept_at nb pd i t j \<longleftrightarrow> 0 < rcut_of nb pd i (type_of pd j)
    \<and> nt_accept nb pd i (vadd (pos_of pd i) t) (rcut_of nb pd i (type_of pd j) + nb_r_buff nb) j"

definition neighbor_spec :: "'a NeighborList_scheme \<Rightarrow> ParticleData \<Rightarrow> vec3 list \<Rightarrow> nat \<Rightarrow> nat multiset" where
  "neighbor_spec nb pd ts i = mset (concat (map (\<lambda>t. filter (accept_at nb pd i t) [0..<n_local pd]) ts))"

definition found_at :: "NeighborListTree \<Rightarrow> ParticleData \<Rightarrow> nat \<Rightarrow> nat \<Rightarrow> nat \<Rightarrow> nat list" where
  "found_at nt pd i ty k =
    (let r = rcut_of nt pd i ty + nb_r_buff nt; pos = vadd (pos_of pd i) (nt_image_list nt ! k) in
     filter (nt_accept nt pd i pos r) (tree_tags (AABB_sphere pos (add_shift nt r)) (nt_aabb_trees nt ! ty)))"

definition found_in :: "NeighborListTree \<Rightarrow> ParticleData \<Rightarrow> nat \<Rightarrow> nat \<Rightarrow> nat list" where
  "found_in nt pd i ty =
    (if nt_num_per_type nt ! ty = 0 \<or> rcut_of nt pd i ty \<le> 0 then [] else concat (map (found_at nt pd i ty) [0..<nt_n_images nt]))"

definition found :: "NeighborListTree \<Rightarrow> ParticleData \<Rightarrow> nat \<Rightarrow> nat list" where
  "found nt pd i = concat (map (found_in nt pd i) [0..<nb_ntypes nt])"

definition trees_hold :: "ParticleData \<Rightarrow> NeighborListTree \<Rightarrow> bool" where
  "trees_hold pd nt \<longleftrightarrow> trees_ready pd nt \<and> (\<forall>ty < nb_ntypes nt. nt_num_per_type nt ! ty > 0 \<longrightarrow> tree_of_type pd (nt_aabb_trees nt ! ty) ty)"

lemma fold_concat_map: "(\<And>x. x \<in> set xs \<Longrightarrow> f x = fold g (h x)) \<Longrightarrow> fold f xs st = fold g (concat (map h xs)) st"
  by (induction xs arbitrary: st) auto

lemma fold_visit: "fold (nt_visit nb pd i pos r) js st = fold (nt_store nb pd i) (filter (nt_accept nb pd i pos r) js) st"
  by (induction js arbitrary: st) (auto simp: nt_visit_def)

lemma traverse_found:
  assumes "trees_hold pd nt"
  shows "fold (traverse_type nt pd i) [0..<nb_ntypes nt] st = fold (nt_store nt pd i) (found nt pd i) st"
  unfolding found_def
proof (rule fold_concat_map)
  fix ty assume "ty \<in> set [0..<nb_ntypes nt]"
  then have t: "nt_num_per_type nt ! ty > 0 \<Longrightarrow> tree_of_type pd (nt_aabb_trees nt ! ty) ty" using assms by (simp add: trees_hold_def)
  have im: "traverse_image nt pd i ty (rcut_of nt pd i ty + nb_r_buff nt) k = fold (nt_store nt pd i) (found_at nt pd i ty k)"
    if "nt_num_per_type nt ! ty > 0" for k
    by (auto simp: traverse_image_def found_at_def add_shift_def Let_def fold_visit fun_eq_iff traverse_tags [OF t [OF that]])
  show "traverse_type nt pd i ty = fold (nt_store nt pd i) (found_in nt pd i ty)"
  proof
    fix st
    show "traverse_type nt pd i ty st = fold (nt_store nt pd i) (found_in nt pd i ty) st"
    proof (cases "nt_num_per_type nt ! ty = 0 \<or> rcut_of nt pd i ty \<le> 0")
      case True
      then show ?thesis by (auto simp: traverse_type_def found_in_def rcut_of_def Let_def)
    next
      case False
      then have "traverse_type nt pd i ty st = fold (traverse_image nt pd i ty (rcut_of nt pd i ty + nb_r_buff nt)) [0..<nt_n_images nt] st"
        by (simp add: traverse_type_def rcut_of_def)
      also have "\<dots> = fold (nt_store nt pd i) (concat (map (found_at nt pd i ty) [0..<nt_n_images nt])) st"
        using False by (intro fold_concat_map im) simp
      finally show ?thesis using False by (simp add: found_in_def)
    qed
  qed
qed

subsection \<open>The neighbours found are the specified ones\<close>

lemma dot3_component: "dot3 d d \<le> R * R \<Longrightarrow> 0 \<le> R \<Longrightarrow> \<bar>xc d\<bar> \<le> R \<and> \<bar>yc d\<bar> \<le> R \<and> \<bar>zc d\<bar> \<le> R"
proof -
  assume d: "dot3 d d \<le> R * R" and R: "0 \<le> R"
  have "a\<^sup>2 \<le> R\<^sup>2 \<Longrightarrow> \<bar>a\<bar> \<le> R" for a :: real using R by (simp add: abs_le_square_iff [symmetric])
  moreover have "(xc d)\<^sup>2 \<le> R\<^sup>2" "(yc d)\<^sup>2 \<le> R\<^sup>2" "(zc d)\<^sup>2 \<le> R\<^sup>2"
    using d zero_le_square [of "xc d"] zero_le_square [of "yc d"] zero_le_square [of "zc d"] unfolding dot3_def power2_eq_square by linarith+
  ultimately show ?thesis by blast
qed

lemma sphere_overlap:
  assumes "dot3 (vsub p c) (vsub p c) \<le> R * R" and "0 \<le> R"
  shows "overlap (AABB_point p j) (AABB_sphere c R)"
  using dot3_component [OF assms] by (auto simp: overlap_def AABB_point_def AABB_sphere_def vsub_def)

text \<open>The radius within which a pair is stored.\<close>

definition list_radius :: "'a NeighborList_scheme \<Rightarrow> ParticleData \<Rightarrow> nat \<Rightarrow> nat \<Rightarrow> Scalar" where
  "list_radius nb pd i j = rcut_of nb pd i (type_of pd j) + nb_r_buff nb
    + (if nb_diameter_shift nb then (pe_diameter (pd_elems pd ! i) + pe_diameter (pd_elems pd ! j)) / 2 - 1 else 0)"

definition kept_pair :: "'a NeighborList_scheme \<Rightarrow> ParticleData \<Rightarrow> nat \<Rightarrow> nat \<Rightarrow> bool" where
  "kept_pair nb pd i j \<longleftrightarrow> i \<noteq> j \<and> 0 < rcut_of nb pd i (type_of pd j)
    \<and> \<not> (nb_filter_body nb \<and> pe_body (pd_elems pd ! i) \<noteq> NO_BODY \<and> pe_body (pd_elems pd ! i) = pe_body (pd_elems pd ! j))
    \<and> (nb_storage_mode nb = full_mode \<or> i < j)"

lemma accept_at_iff:
  "accept_at nb pd i t j \<longleftrightarrow> kept_pair nb pd i j
    \<and> dot3 (vsub (pos_of pd j) (vadd (pos_of pd i) t)) (vsub (pos_of pd j) (vadd (pos_of pd i) t)) \<le> list_radius nb pd i j * list_radius nb pd i j"
proof -
  define r where "r = rcut_of nb pd i (type_of pd j) + nb_r_buff nb"
  define d where "d = (pe_diameter (pd_elems pd ! i) + pe_diameter (pd_elems pd ! j)) * (1 / 2) - 1"
  have l: "list_radius nb pd i j = r + (if nb_diameter_shift nb then d else 0)" by (simp add: list_radius_def r_def d_def)
  have sq: "r * r + (if nb_diameter_shift nb then (d + 2 * r) * d else 0) = list_radius nb pd i j * list_radius nb pd i j"
    unfolding l by (cases "nb_diameter_shift nb") (simp_all add: algebra_simps)
  show ?thesis unfolding accept_at_def nt_accept_def kept_pair_def Let_def r_def [symmetric] d_def [symmetric] sq by auto
qed

text \<open>The buffer is not negative, no diameter exceeds \<open>d_max\<close> and no diameter shift makes a radius negative.\<close>

definition radii_ok :: "'a NeighborList_scheme \<Rightarrow> ParticleData \<Rightarrow> bool" where
  "radii_ok nb pd \<longleftrightarrow> 0 \<le> nb_r_buff nb
    \<and> (nb_diameter_shift nb \<longrightarrow> (\<forall>k < n_local pd. pe_diameter (pd_elems pd ! k) \<le> nb_d_max nb)
        \<and> (\<forall>i < pd_nparticles pd. \<forall>j < n_local pd. 0 < rcut_of nb pd i (type_of pd j) \<longrightarrow> 0 \<le> list_radius nb pd i j))"

lemma list_radius_bounds:
  assumes "radii_ok nb pd" and "i < pd_nparticles pd" and "j < n_local pd" and "0 < rcut_of nb pd i (type_of pd j)"
  shows "0 \<le> list_radius nb pd i j \<and> list_radius nb pd i j \<le> add_shift nb (rcut_of nb pd i (type_of pd j) + nb_r_buff nb)"
proof (cases "nb_diameter_shift nb")
  case True
  have "i < n_local pd" using assms(2) by (simp add: n_local_def)
  then have "pe_diameter (pd_elems pd ! i) \<le> nb_d_max nb" "pe_diameter (pd_elems pd ! j) \<le> nb_d_max nb" "0 \<le> list_radius nb pd i j"
    using assms True by (auto simp: radii_ok_def)
  then show ?thesis using True by (simp add: list_radius_def add_shift_def field_simps)
qed (use assms in \<open>auto simp: list_radius_def add_shift_def radii_ok_def\<close>)

lemma found_at_spec:
  assumes h: "trees_hold pd nt" and r: "radii_ok nt pd" and i: "i < pd_nparticles pd"
    and ty: "ty < nb_ntypes nt" "nt_num_per_type nt ! ty > 0" "0 < rcut_of nt pd i ty" and k: "k < nt_n_images nt"
  shows "mset (found_at nt pd i ty k) = mset (filter (accept_at nt pd i (images_of nt ! k)) (of_type pd (n_local pd) ty))"
proof -
  let ?pos = "vadd (pos_of pd i) (nt_image_list nt ! k)" and ?r = "rcut_of nt pd i ty + nb_r_buff nt"
  have im: "images_of nt ! k = nt_image_list nt ! k" using k by (simp add: images_of_def)
  have same: "nt_accept nt pd i ?pos ?r j = accept_at nt pd i (images_of nt ! k) j" if "type_of pd j = ty" for j
    using that ty(3) by (simp add: accept_at_def im)
  have t: "tree_of_type pd (nt_aabb_trees nt ! ty) ty" using h ty by (simp add: trees_hold_def)
  have "mset (found_at nt pd i ty k) = mset (filter (nt_accept nt pd i ?pos ?r) (of_type pd (n_local pd) ty))"
    unfolding found_at_def Let_def
  proof (rule tree_tags_filter [OF t])
    fix j assume j: "j < n_local pd" "type_of pd j = ty" "nt_accept nt pd i ?pos ?r j"
    have b: "0 \<le> list_radius nt pd i j" "list_radius nt pd i j \<le> add_shift nt ?r" using list_radius_bounds [OF r i j(1)] ty(3) j(2) by auto
    have "dot3 (vsub (pos_of pd j) ?pos) (vsub (pos_of pd j) ?pos) \<le> list_radius nt pd i j * list_radius nt pd i j"
      using j(3) same [OF j(2)] accept_at_iff [of nt pd i "images_of nt ! k" j] by (simp add: im)
    also have "\<dots> \<le> add_shift nt ?r * add_shift nt ?r" by (rule mult_mono [OF b(2,2)]) (use b in auto)
    finally show "overlap (AABB_point (pos_of pd j) j) (AABB_sphere ?pos (add_shift nt ?r))" by (rule sphere_overlap) (use b in auto)
  qed
  also have "filter (nt_accept nt pd i ?pos ?r) (of_type pd (n_local pd) ty) = filter (accept_at nt pd i (images_of nt ! k)) (of_type pd (n_local pd) ty)"
    by (rule filter_cong) (auto simp: same)
  finally show ?thesis .
qed

lemma mset_concat_upt: "mset (concat (map f [0..<n])) = (\<Sum>k < n. mset (f k))"
  by (induction n) auto

lemma sum_types: "(\<And>k. k < n \<Longrightarrow> type_of pd k < T) \<Longrightarrow> (\<Sum>ty < T. mset (filter P (of_type pd n ty))) = mset (filter P [0..<n])"
proof (induction n)
  case (Suc n)
  have e: "mset (filter P (of_type pd (Suc n) ty)) = mset (filter P (of_type pd n ty)) + (if type_of pd n = ty then mset (filter P [n]) else {#})" for ty
    by (simp add: of_type_Suc)
  have "(\<Sum>ty < T. mset (filter P (of_type pd (Suc n) ty)))
      = (\<Sum>ty < T. mset (filter P (of_type pd n ty))) + (\<Sum>ty < T. if type_of pd n = ty then mset (filter P [n]) else {#})"
    unfolding e by (rule sum.distrib)
  then show ?case using Suc by simp
qed simp

lemma found_in_spec:
  assumes h: "trees_hold pd nt" and r: "radii_ok nt pd" and i: "i < pd_nparticles pd" and ty: "ty < nb_ntypes nt"
  shows "mset (found_in nt pd i ty) = (\<Sum>k < nt_n_images nt. mset (filter (accept_at nt pd i (images_of nt ! k)) (of_type pd (n_local pd) ty)))"
proof (cases "nt_num_per_type nt ! ty = 0 \<or> rcut_of nt pd i ty \<le> 0")
  case True
  have "set (of_type pd (n_local pd) ty) = {}" if "nt_num_per_type nt ! ty = 0"
    using that h ty by (simp add: trees_hold_def trees_ready_def sorted_by_type_def del: of_type_set)
  then have "filter (accept_at nt pd i t) (of_type pd (n_local pd) ty) = []" for t
    using True unfolding filter_empty_conv accept_at_def by auto
  then show ?thesis using True by (simp add: found_in_def)
next
  case False
  then show ?thesis using found_at_spec [OF h r i ty] by (simp add: found_in_def mset_concat_upt)
qed

lemma found_spec:
  assumes h: "trees_hold pd nt" and r: "radii_ok nt pd" and i: "i < pd_nparticles pd"
  shows "mset (found nt pd i) = neighbor_spec nt pd (images_of nt) i"
proof -
  let ?f = "\<lambda>k ty. mset (filter (accept_at nt pd i (images_of nt ! k)) (of_type pd (n_local pd) ty))"
  have t: "\<And>k. k < n_local pd \<Longrightarrow> type_of pd k < nb_ntypes nt" using h by (simp add: trees_hold_def trees_ready_def)
  have "mset (found nt pd i) = (\<Sum>ty < nb_ntypes nt. \<Sum>k < nt_n_images nt. ?f k ty)"
    unfolding found_def mset_concat_upt using found_in_spec [OF h r i] by (intro sum.cong) auto
  also have "\<dots> = (\<Sum>k < nt_n_images nt. \<Sum>ty < nb_ntypes nt. ?f k ty)" by (rule sum.swap)
  also have "\<dots> = (\<Sum>k < nt_n_images nt. mset (filter (accept_at nt pd i (images_of nt ! k)) [0..<n_local pd]))"
    using sum_types [OF t] by simp
  also have "\<dots> = neighbor_spec nt pd (images_of nt) i"
  proof -
    have "images_of nt = map ((!) (images_of nt)) [0..<nt_n_images nt]" by (rule nth_equalityI) (simp_all add: images_of_def)
    then have "neighbor_spec nt pd (images_of nt) i = mset (concat (map (\<lambda>t. filter (accept_at nt pd i t) [0..<n_local pd]) (map ((!) (images_of nt)) [0..<nt_n_images nt])))"
      unfolding neighbor_spec_def by simp
    then show ?thesis by (simp only: map_map mset_concat_upt comp_def)
  qed
  finally show ?thesis .
qed

subsection \<open>Writing the list\<close>

lemma store_fold:
  assumes "nb_head_list nb ! i + nb_Nmax nb ! type_of pd i \<le> length nl" and "type_of pd i < length cd"
  shows "\<exists>nl' cd'. fold (nt_store nb pd i) js (nl, cd, n) = (nl', cd', n + length js) \<and> length nl' = length nl \<and> length cd' = length cd
    \<and> (\<forall>p. p < nb_head_list nb ! i + n \<or> nb_head_list nb ! i + nb_Nmax nb ! type_of pd i \<le> p \<longrightarrow> nl' ! p = nl ! p)
    \<and> (\<forall>k. n \<le> k \<and> k < min (nb_Nmax nb ! type_of pd i) (n + length js) \<longrightarrow> nl' ! (nb_head_list nb ! i + k) = js ! (k - n))
    \<and> (\<forall>u. u \<noteq> type_of pd i \<longrightarrow> cd' ! u = cd ! u)
    \<and> cd' ! type_of pd i = (if nb_Nmax nb ! type_of pd i < n + length js \<and> js \<noteq> [] then max (cd ! type_of pd i) (n + length js) else cd ! type_of pd i)"
  using assms
proof (induction js arbitrary: nl cd n)
  case (Cons j js)
  let ?h = "nb_head_list nb ! i" and ?M = "nb_Nmax nb ! type_of pd i"
  show ?case
  proof (cases "n < ?M")
    case True
    obtain nl' cd' where r: "fold (nt_store nb pd i) js (nl[?h + n := j], cd, Suc n) = (nl', cd', Suc n + length js)" "length nl' = length nl" "length cd' = length cd"
        "\<And>p. p < ?h + Suc n \<or> ?h + ?M \<le> p \<Longrightarrow> nl' ! p = nl[?h + n := j] ! p"
        "\<And>k. Suc n \<le> k \<Longrightarrow> k < min ?M (Suc n + length js) \<Longrightarrow> nl' ! (?h + k) = js ! (k - Suc n)"
        "\<And>u. u \<noteq> type_of pd i \<Longrightarrow> cd' ! u = cd ! u"
        "cd' ! type_of pd i = (if ?M < Suc n + length js \<and> js \<noteq> [] then max (cd ! type_of pd i) (Suc n + length js) else cd ! type_of pd i)"
      using Cons.IH [of "nl[?h + n := j]" cd "Suc n"] Cons.prems by auto
    have "nl' ! (?h + k) = (j # js) ! (k - n)" if "n \<le> k" "k < min ?M (n + length (j # js))" for k
      using that r(4) [of "?h + n"] r(5) [of k] Cons.prems True by (cases "k = n") (auto simp: nth_Cons')
    moreover have "fold (nt_store nb pd i) (j # js) (nl, cd, n) = (nl', cd', n + length (j # js))" using r(1) True by (simp add: nt_store_def Let_def)
    moreover have "cd' ! type_of pd i = (if ?M < n + length (j # js) \<and> j # js \<noteq> [] then max (cd ! type_of pd i) (n + length (j # js)) else cd ! type_of pd i)"
      using r(7) True by (cases js) auto
    ultimately show ?thesis using r(2-4,6) True
      by (intro exI [of _ nl'] exI [of _ cd']) (auto simp: nth_list_update)
  next
    case False
    let ?cd = "cd[type_of pd i := max (cd ! type_of pd i) (Suc n)]"
    obtain nl' cd' where r: "fold (nt_store nb pd i) js (nl, ?cd, Suc n) = (nl', cd', Suc n + length js)" "length nl' = length nl" "length cd' = length ?cd"
        "\<And>p. p < ?h + Suc n \<or> ?h + ?M \<le> p \<Longrightarrow> nl' ! p = nl ! p"
        "\<And>u. u \<noteq> type_of pd i \<Longrightarrow> cd' ! u = ?cd ! u"
        "cd' ! type_of pd i = (if ?M < Suc n + length js \<and> js \<noteq> [] then max (?cd ! type_of pd i) (Suc n + length js) else ?cd ! type_of pd i)"
      using Cons.IH [of nl ?cd "Suc n"] Cons.prems by auto
    have "fold (nt_store nb pd i) (j # js) (nl, cd, n) = (nl', cd', n + length (j # js))" using r(1) False by (simp add: nt_store_def Let_def)
    moreover have "cd' ! type_of pd i = (if ?M < n + length (j # js) \<and> j # js \<noteq> [] then max (cd ! type_of pd i) (n + length (j # js)) else cd ! type_of pd i)"
      using r(6) False Cons.prems(2) by (cases js) auto
    ultimately show ?thesis using r(2-5) False
      by (intro exI [of _ nl'] exI [of _ cd']) auto
  qed
qed auto

definition head_sum :: "ParticleData \<Rightarrow> 'a NeighborList_scheme \<Rightarrow> nat \<Rightarrow> nat" where
  "head_sum pd nb i = (\<Sum>k < i. nb_Nmax nb ! type_of pd k)"

text \<open>The segments of the particles follow each other in the array.\<close>

definition heads_ok :: "ParticleData \<Rightarrow> 'a NeighborList_scheme \<Rightarrow> bool" where
  "heads_ok pd nb \<longleftrightarrow> pd_nparticles pd \<le> length (nb_head_list nb) \<and> pd_nparticles pd \<le> length (nb_n_neigh nb)
    \<and> (\<forall>i < pd_nparticles pd. nb_head_list nb ! i = head_sum pd nb i) \<and> head_sum pd nb (pd_nparticles pd) \<le> length (nb_nlist nb)
    \<and> length (nb_conditions nb) = nb_ntypes nb \<and> length (nb_Nmax nb) = nb_ntypes nb"

lemma head_sum_mono: "i \<le> j \<Longrightarrow> head_sum pd nb i \<le> head_sum pd nb j"
  by (auto simp: head_sum_def intro: sum_mono2)

lemma head_sum_Suc: "head_sum pd nb (Suc i) = head_sum pd nb i + nb_Nmax nb ! type_of pd i"
  by (simp add: head_sum_def)

text \<open>What the arrays hold after the first \<open>m\<close> particles.\<close>

definition written :: "NeighborListTree \<Rightarrow> ParticleData \<Rightarrow> nat \<Rightarrow> nat list \<Rightarrow> nat list \<Rightarrow> nat list \<Rightarrow> bool" where
  "written nt pd m nl cd nn \<longleftrightarrow>
    length nl = length (nb_nlist nt) \<and> length cd = length (nb_conditions nt) \<and> length nn = length (nb_n_neigh nt)
    \<and> (\<forall>i < m. nn ! i = length (found nt pd i))
    \<and> (\<forall>i < m. \<forall>k < min (nb_Nmax nt ! type_of pd i) (length (found nt pd i)). nl ! (head_sum pd nt i + k) = found nt pd i ! k)
    \<and> (\<forall>i < m. nb_Nmax nt ! type_of pd i < length (found nt pd i) \<longrightarrow> length (found nt pd i) \<le> cd ! type_of pd i)
    \<and> (\<forall>ty < nb_ntypes nt. cd ! ty = nb_conditions nt ! ty \<or> (\<exists>i < m. type_of pd i = ty \<and> nb_Nmax nt ! ty < length (found nt pd i)))"

lemma traverse_written:
  assumes h: "trees_hold pd nt" and ok: "heads_ok pd nt" and m: "m \<le> pd_nparticles pd"
  shows "\<exists>nl cd nn. fold (traverse_particle nt pd) [0..<m] (nb_nlist nt, nb_conditions nt, nb_n_neigh nt) = (nl, cd, nn) \<and> written nt pd m nl cd nn"
  using m
proof (induction m)
  case 0
  then show ?case by (simp add: written_def)
next
  case (Suc m)
  let ?M = "nb_Nmax nt ! type_of pd m" and ?ty = "type_of pd m" and ?js = "found nt pd m" and ?h = "head_sum pd nt m"
  obtain nl cd nn where f: "fold (traverse_particle nt pd) [0..<m] (nb_nlist nt, nb_conditions nt, nb_n_neigh nt) = (nl, cd, nn)"
    and w: "written nt pd m nl cd nn" using Suc by auto
  have len: "length nl = length (nb_nlist nt)" "length cd = nb_ntypes nt" "length nn = length (nb_n_neigh nt)" using w ok by (auto simp: written_def heads_ok_def)
  have ty: "?ty < nb_ntypes nt" using h Suc.prems by (auto simp: trees_hold_def trees_ready_def n_local_def)
  have hd: "nb_head_list nt ! m = ?h" using ok Suc.prems by (simp add: heads_ok_def)
  have "?h + ?M \<le> length nl" using head_sum_mono [OF Suc.prems, of pd nt] ok len by (simp add: head_sum_Suc heads_ok_def)
  from store_fold [of nt m pd nl cd, unfolded hd, OF this, of ?js 0] ty len obtain nl' cd' where
    s: "fold (nt_store nt pd m) ?js (nl, cd, 0) = (nl', cd', length ?js)" "length nl' = length nl" "length cd' = length cd"
      "\<And>p. p < ?h \<Longrightarrow> nl' ! p = nl ! p" "\<And>k. k < min ?M (length ?js) \<Longrightarrow> nl' ! (?h + k) = ?js ! k" "\<And>u. u \<noteq> ?ty \<Longrightarrow> cd' ! u = cd ! u"
      "cd' ! ?ty = (if ?M < length ?js then max (cd ! ?ty) (length ?js) else cd ! ?ty)"
    by (auto split: if_splits)
  have step: "fold (traverse_particle nt pd) [0..<Suc m] (nb_nlist nt, nb_conditions nt, nb_n_neigh nt) = (nl', cd', nn[m := length ?js])"
    using f s(1) by (simp add: traverse_particle_def traverse_found [OF h])
  have old: "nl' ! (head_sum pd nt i + k) = nl ! (head_sum pd nt i + k)" if "i < m" "k < nb_Nmax nt ! type_of pd i" for i k
    using s(4) head_sum_mono [of "Suc i" m pd nt] that by (simp add: head_sum_Suc)
  have up: "cd ! u \<le> cd' ! u" for u using s(6,7) by (cases "u = ?ty") (auto split: if_splits)
  have "written nt pd (Suc m) nl' cd' (nn[m := length ?js])"
    unfolding written_def
  proof (intro conjI allI impI)
    show "length nl' = length (nb_nlist nt)" "length cd' = length (nb_conditions nt)" "length (nn[m := length ?js]) = length (nb_n_neigh nt)"
      using len s ok by (auto simp: heads_ok_def)
    fix i assume i: "i < Suc m"
    show "nn[m := length ?js] ! i = length (found nt pd i)" using i w len ok Suc.prems by (auto simp: written_def nth_list_update less_Suc_eq heads_ok_def)
    show "nl' ! (head_sum pd nt i + k) = found nt pd i ! k" if "k < min (nb_Nmax nt ! type_of pd i) (length (found nt pd i))" for k
      using i that w s(5) old by (cases "i = m") (auto simp: written_def)
    show "length (found nt pd i) \<le> cd' ! type_of pd i" if o: "nb_Nmax nt ! type_of pd i < length (found nt pd i)"
    proof (cases "i = m")
      case False
      then have "length (found nt pd i) \<le> cd ! type_of pd i" using i o w by (simp add: written_def)
      then show ?thesis using up le_trans by blast
    qed (use o s(7) in simp)
  next
    fix ty assume t: "ty < nb_ntypes nt"
    show "cd' ! ty = nb_conditions nt ! ty \<or> (\<exists>i < Suc m. type_of pd i = ty \<and> nb_Nmax nt ! ty < length (found nt pd i))"
      using w t s(6,7) by (cases "ty = ?ty") (auto simp: written_def less_Suc_eq split: if_splits)
  qed
  with step show ?case by blast
qed

end
