(* ===== verification/Neighbor_Rebuild.thy ===== *)
theory Neighbor_Rebuild
  imports Neighbor_Search
begin

section \<open>NeighborListTree: rebuilding until nothing overflows\<close>

text \<open>
  The image vectors, the set-up of the trees and the loop of \<open>compute\<close> that rebuilds the list until every particle has room
  for its neighbours. The loop ends after at most two builds, and then the list holds what \<open>neighbor_spec\<close> demands.
\<close>

subsection \<open>Image vectors\<close>

definition image_combinations :: "int3 list" where
  "image_combinations = List.product [-1, 0, 1] (List.product [-1, 0, 1] [-1, 0, 1])"

definition image_offsets :: "bool \<times> bool \<times> bool \<Rightarrow> bool \<Rightarrow> int3 list" where
  "image_offsets periodic sys3d = (0, 0, 0) # filter (image_used periodic sys3d) image_combinations"

definition image_list_of :: "nl_system \<Rightarrow> vec3 list" where
  "image_list_of sy = map (image_vector (sy_box sy)) (image_offsets (box_periodic (sy_box sy)) (sy_ndim sy = 3))"

lemma image_step_eq:
  "image_step box s3 M c (n, l) = (if n < M \<and> image_used (box_periodic box) s3 c then (n + 1, l[n := image_vector box c]) else (n, l))"
  by (simp add: image_step_def)

lemma image_fold:
  assumes "n + length (filter (image_used (box_periodic box) s3) cs) \<le> M" and "M \<le> length l"
  shows "\<exists>l'. fold (image_step box s3 M) cs (n, l) = (n + length (filter (image_used (box_periodic box) s3) cs), l') \<and> length l' = length l
    \<and> (\<forall>k < n. l' ! k = l ! k)
    \<and> (\<forall>k < length (filter (image_used (box_periodic box) s3) cs). l' ! (n + k) = image_vector box (filter (image_used (box_periodic box) s3) cs ! k))"
  using assms
proof (induction cs arbitrary: n l)
  case (Cons c cs)
  show ?case
  proof (cases "image_used (box_periodic box) s3 c")
    case True
    let ?l = "l[n := image_vector box c]" and ?fs = "filter (image_used (box_periodic box) s3) cs"
    obtain l' where r: "fold (image_step box s3 M) cs (Suc n, ?l) = (Suc n + length ?fs, l')" "length l' = length ?l" "\<And>k. k < Suc n \<Longrightarrow> l' ! k = ?l ! k"
        "\<And>k. k < length ?fs \<Longrightarrow> l' ! (Suc n + k) = image_vector box (?fs ! k)"
      using Cons.IH [of "Suc n" ?l] Cons.prems True by auto
    have "l' ! (n + k) = image_vector box ((c # ?fs) ! k)" if "k < Suc (length ?fs)" for k
      using that r(3) [of n] r(4) [of "k - 1"] Cons.prems True by (cases k) auto
    then show ?thesis using r(1-3) True Cons.prems by (intro exI [of _ l']) (auto simp: image_step_eq)
  next
    case False
    then show ?thesis using Cons by (simp add: image_step_eq)
  qed
qed auto

lemma image_count:
  "length (image_offsets (px, py, pz) s3) = 3 ^ (of_bool px + of_bool py + of_bool s3 * of_bool pz)"
  by (cases px; cases py; cases pz; cases s3) (simp_all add: image_offsets_def image_combinations_def image_used_def)

lemma power3_fold: "fold (\<lambda>dim n. n * 3) [0..<d] (1::nat) = 3 ^ d"
  by (induction d) (simp_all add: mult.commute)

lemma image_vector_zero [simp]: "image_vector box (0, 0, 0) = (0, 0, 0)"
  by (simp add: image_vector_def vadd_def vscale_def)

lemma updateImageVectors_ok:
  "images_of (updateImageVectors sy nt) = image_list_of sy \<and> (\<exists>n l. updateImageVectors sy nt = nt\<lparr>nt_n_images := n, nt_image_list := l\<rparr>)"
proof -
  obtain px py pz where p: "box_periodic (sy_box sy) = (px, py, pz)" by (metis prod_cases3)
  let ?s3 = "sy_ndim sy = 3" and ?box = "sy_box sy"
  let ?fs = "filter (image_used (px, py, pz) ?s3) image_combinations"
  define M where "M = (3::nat) ^ (of_bool px + of_bool py + of_bool ?s3 * of_bool pz)"
  have M: "M = Suc (length ?fs)" unfolding M_def using image_count [of px py pz ?s3] by (simp add: image_offsets_def)
  define l0 where "l0 = (if M > length (nt_image_list nt) then resized (0, 0, 0) M (nt_image_list nt) else nt_image_list nt)"
  define l where "l = l0[0 := (0, 0, 0)]"
  have len: "M \<le> length l" "M \<le> length l0" by (simp_all add: l_def l0_def)
  then have "l ! 0 = (0, 0, 0)" using M by (cases l0) (auto simp: l_def)
  then obtain l' where r: "fold (image_step ?box ?s3 M) image_combinations (1, l) = (M, l')" "l' ! 0 = (0, 0, 0)"
      "\<And>k. k < length ?fs \<Longrightarrow> l' ! Suc k = image_vector ?box (?fs ! k)"
    using image_fold [of 1 ?box ?s3 image_combinations M l] M len p by auto
  have e: "updateImageVectors sy nt = nt\<lparr>nt_n_images := M, nt_image_list := l'\<rparr>"
    unfolding updateImageVectors_def Let_def p prod.case power3_fold M_def [symmetric] l0_def [symmetric] l_def [symmetric] image_combinations_def [symmetric] r(1) by simp
  have "map ((!) l') [0..<M] = image_list_of sy"
  proof (rule nth_equalityI)
    show "length (map ((!) l') [0..<M]) = length (image_list_of sy)" by (simp add: image_list_of_def image_offsets_def p M)
    fix k assume "k < length (map ((!) l') [0..<M])"
    then have k: "k < M" by simp
    have "l' ! k = image_list_of sy ! k" using k r(2,3) M by (cases k) (auto simp: image_list_of_def image_offsets_def p)
    then show "map ((!) l') [0..<M] ! k = image_list_of sy ! k" using k by simp
  qed
  then show ?thesis by (auto simp: e images_of_def)
qed

subsection \<open>Set-up\<close>

definition sizes_ok :: "ParticleData \<Rightarrow> NeighborListTree \<Rightarrow> bool" where
  "sizes_ok pd nt \<longleftrightarrow> (\<forall>k < n_local pd. type_of pd k < nb_ntypes nt) \<and> n_local pd \<le> pd_max_nparticles pd \<and> n_local pd \<le> 2147483648"

text \<open>The flags of the tree list: what is not marked as changed is up to date.\<close>

definition setup_inv :: "nl_system \<Rightarrow> ParticleData \<Rightarrow> NeighborListTree \<Rightarrow> bool" where
  "setup_inv sy pd nt \<longleftrightarrow> sizes_ok pd nt
    \<and> (nt_max_num_changed nt \<or> n_local pd \<le> length (nt_aabbs nt) \<and> n_local pd \<le> length (nt_map_pid_tree nt))
    \<and> (nt_types_allocated nt \<longrightarrow> length (nt_aabb_trees nt) = nb_ntypes nt \<and> (\<forall>t \<in> set (nt_aabb_trees nt). mem_ok t)
         \<and> length (nt_num_per_type nt) = nb_ntypes nt \<and> length (nt_type_head nt) = nb_ntypes nt
         \<and> (\<not> nt_remap_particles nt \<longrightarrow> sorted_by_type pd nt))
    \<and> (\<not> nt_box_changed nt \<longrightarrow> images_of nt = image_list_of sy)"

definition set_up :: "nl_system \<Rightarrow> ParticleData \<Rightarrow> NeighborListTree \<Rightarrow> bool" where
  "set_up sy pd nt \<longleftrightarrow> trees_ready pd nt \<and> n_local pd \<le> pd_max_nparticles pd \<and> images_of nt = image_list_of sy
    \<and> \<not> nt_max_num_changed nt \<and> nt_types_allocated nt \<and> \<not> nt_remap_particles nt \<and> \<not> nt_box_changed nt"

lemma set_up_inv: "set_up sy pd nt \<Longrightarrow> setup_inv sy pd nt"
  by (auto simp: set_up_def setup_inv_def trees_ready_def sizes_ok_def sorted_by_type_def)

abbreviation base_of :: "'a NeighborList_scheme \<Rightarrow> NeighborList" where
  "base_of nb \<equiv> NeighborList.truncate nb"

lemma base_of_tree [simp]:
  "base_of (nt\<lparr>nt_box_changed := b\<rparr>) = base_of nt" "base_of (nt\<lparr>nt_max_num_changed := b\<rparr>) = base_of nt"
  "base_of (nt\<lparr>nt_remap_particles := b\<rparr>) = base_of nt" "base_of (nt\<lparr>nt_types_allocated := b\<rparr>) = base_of nt"
  "base_of (nt\<lparr>nt_aabb_trees := ts\<rparr>) = base_of nt" "base_of (nt\<lparr>nt_aabbs := a\<rparr>) = base_of nt"
  "base_of (nt\<lparr>nt_num_per_type := ns\<rparr>) = base_of nt" "base_of (nt\<lparr>nt_type_head := ns\<rparr>) = base_of nt"
  "base_of (nt\<lparr>nt_map_pid_tree := ns\<rparr>) = base_of nt" "base_of (nt\<lparr>nt_image_list := vs\<rparr>) = base_of nt"
  "base_of (nt\<lparr>nt_n_images := n\<rparr>) = base_of nt"
  by (simp_all add: NeighborList.truncate_def)

lemma base_of_sel [simp]:
  "nb_ntypes (base_of nb) = nb_ntypes nb" "nb_r_cut (base_of nb) = nb_r_cut nb" "nb_r_buff (base_of nb) = nb_r_buff nb" "nb_d_max (base_of nb) = nb_d_max nb"
  "nb_filter_body (base_of nb) = nb_filter_body nb" "nb_diameter_shift (base_of nb) = nb_diameter_shift nb"
  "nb_storage_mode (base_of nb) = nb_storage_mode nb" "nb_nlist (base_of nb) = nb_nlist nb" "nb_n_neigh (base_of nb) = nb_n_neigh nb"
  "nb_head_list (base_of nb) = nb_head_list nb" "nb_Nmax (base_of nb) = nb_Nmax nb" "nb_conditions (base_of nb) = nb_conditions nb"
  "nb_rcut_max_max (base_of nb) = nb_rcut_max_max nb" "nb_rcut_max (base_of nb) = nb_rcut_max nb"
  "nb_exclusions_set (base_of nb) = nb_exclusions_set nb" "nb_ex_list_idx (base_of nb) = nb_ex_list_idx nb" "nb_n_ex_idx (base_of nb) = nb_n_ex_idx nb"
  "nb_rcut_changed (base_of nb) = nb_rcut_changed nb" "nb_n_particles_changed (base_of nb) = nb_n_particles_changed nb"
  "nb_topology_changed (base_of nb) = nb_topology_changed nb"
  "nb_force_update (base_of nb) = nb_force_update nb" "nb_last_pos (base_of nb) = nb_last_pos nb" "nb_last_L (base_of nb) = nb_last_L nb"
  by (simp_all add: NeighborList.truncate_def)

text \<open>Two states with the same settings have the same neighbours by specification.\<close>

definition same_settings :: "'a NeighborList_scheme \<Rightarrow> 'b NeighborList_scheme \<Rightarrow> bool" where
  "same_settings nb nb' \<longleftrightarrow> nb_ntypes nb' = nb_ntypes nb \<and> nb_r_cut nb' = nb_r_cut nb \<and> nb_r_buff nb' = nb_r_buff nb \<and> nb_d_max nb' = nb_d_max nb
    \<and> nb_filter_body nb' = nb_filter_body nb \<and> nb_diameter_shift nb' = nb_diameter_shift nb \<and> nb_storage_mode nb' = nb_storage_mode nb"

lemma same_settings_spec:
  assumes "same_settings nb nb'"
  shows "neighbor_spec nb' pd ts i = neighbor_spec nb pd ts i" "radii_ok nb' pd = radii_ok nb pd"
proof -
  have "accept_at nb' pd i t = accept_at nb pd i t" for t
    using assms by (intro ext) (simp add: same_settings_def accept_at_def nt_accept_def rcut_of_def nb_typpair_def)
  then show "neighbor_spec nb' pd ts i = neighbor_spec nb pd ts i" by (simp add: neighbor_spec_def)
  show "radii_ok nb' pd = radii_ok nb pd"
    using assms by (simp add: same_settings_def rcut_of_def nb_typpair_def radii_ok_def list_radius_def)
qed

lemma base_same_settings: "base_of nb' = base_of nb \<Longrightarrow> same_settings nb nb'"
  unfolding same_settings_def by (metis base_of_sel(1-7))

lemma setup_arrays:
  assumes "setup_inv sy pd nt"
  defines "nt1 \<equiv> (if nt_max_num_changed nt
     then nt\<lparr>nt_aabbs := resized AABB_default (pd_max_nparticles pd) (nt_aabbs nt),
             nt_map_pid_tree := resized 0 (pd_max_nparticles pd) (nt_map_pid_tree nt), nt_max_num_changed := False\<rparr>
     else nt)"
  shows "setup_inv sy pd nt1 \<and> \<not> nt_max_num_changed nt1 \<and> base_of nt1 = base_of nt"
proof (cases "nt_max_num_changed nt")
  case True
  have "resized 0 (pd_max_nparticles pd) (nt_map_pid_tree nt) ! i = nt_map_pid_tree nt ! i" if "sorted_by_type pd nt" "sizes_ok pd nt" "i < n_local pd" for i
    using that by (auto simp: sorted_by_type_def sizes_ok_def resized_nth)
  then show ?thesis using assms(1) True by (auto simp: nt1_def setup_inv_def sizes_ok_def sorted_by_type_def images_of_def)
qed (use assms in simp)

lemma setup_types:
  assumes "setup_inv sy pd nt1" and "\<not> nt_max_num_changed nt1"
  defines "nt2 \<equiv> (if \<not> nt_types_allocated nt1
     then nt1\<lparr>nt_aabb_trees := replicate (nb_ntypes nt1) AABBTree_new, nt_num_per_type := resized 0 (nb_ntypes nt1) (nt_num_per_type nt1),
              nt_type_head := resized 0 (nb_ntypes nt1) (nt_type_head nt1), nt_remap_particles := True, nt_types_allocated := True\<rparr>
     else nt1)"
  shows "setup_inv sy pd nt2 \<and> \<not> nt_max_num_changed nt2 \<and> nt_types_allocated nt2 \<and> base_of nt2 = base_of nt1"
  using assms(1,2) AABBTree_new_mem by (auto simp: nt2_def setup_inv_def sizes_ok_def images_of_def)

lemma setup_map:
  assumes inv: "setup_inv sy pd nt2" "\<not> nt_max_num_changed nt2" "nt_types_allocated nt2"
  defines "nt3 \<equiv> (if nt_remap_particles nt2 then (mapParticlesByType pd nt2)\<lparr>nt_remap_particles := False\<rparr> else nt2)"
  shows "setup_inv sy pd nt3 \<and> \<not> nt_max_num_changed nt3 \<and> nt_types_allocated nt3 \<and> \<not> nt_remap_particles nt3 \<and> base_of nt3 = base_of nt2"
proof (cases "nt_remap_particles nt2")
  case True
  have "n_local pd \<le> length (nt_map_pid_tree nt2)" "\<forall>k < n_local pd. type_of pd k < nb_ntypes nt2"
    "length (nt_num_per_type nt2) = nb_ntypes nt2" "length (nt_type_head nt2) = nb_ntypes nt2" using inv by (auto simp: setup_inv_def sizes_ok_def)
  from mapParticlesByType_sorted [OF this] obtain mp num th where m: "sorted_by_type pd (mapParticlesByType pd nt2)"
    "mapParticlesByType pd nt2 = nt2\<lparr>nt_map_pid_tree := mp, nt_num_per_type := num, nt_type_head := th\<rparr>" by blast
  then show ?thesis using inv True by (auto simp: nt3_def setup_inv_def sizes_ok_def images_of_def sorted_by_type_def)
qed (use inv in \<open>simp add: nt3_def\<close>)

lemma setupTree_ok:
  assumes inv: "setup_inv sy pd nt"
  shows "set_up sy pd (setupTree sy pd nt) \<and> base_of (setupTree sy pd nt) = base_of nt"
proof -
  define nt1 where "nt1 = (if nt_max_num_changed nt
               then nt\<lparr>nt_aabbs := resized AABB_default (pd_max_nparticles pd) (nt_aabbs nt),
                       nt_map_pid_tree := resized 0 (pd_max_nparticles pd) (nt_map_pid_tree nt), nt_max_num_changed := False\<rparr>
               else nt)"
  define nt2 where "nt2 = (if \<not> nt_types_allocated nt1
               then nt1\<lparr>nt_aabb_trees := replicate (nb_ntypes nt1) AABBTree_new, nt_num_per_type := resized 0 (nb_ntypes nt1) (nt_num_per_type nt1),
                       nt_type_head := resized 0 (nb_ntypes nt1) (nt_type_head nt1), nt_remap_particles := True, nt_types_allocated := True\<rparr>
               else nt1)"
  define nt3 where "nt3 = (if nt_remap_particles nt2 then (mapParticlesByType pd nt2)\<lparr>nt_remap_particles := False\<rparr> else nt2)"
  have 1: "setup_inv sy pd nt1 \<and> \<not> nt_max_num_changed nt1 \<and> base_of nt1 = base_of nt" unfolding nt1_def by (rule setup_arrays [OF inv])
  then have 2: "setup_inv sy pd nt2 \<and> \<not> nt_max_num_changed nt2 \<and> nt_types_allocated nt2 \<and> base_of nt2 = base_of nt1" unfolding nt2_def using setup_types by blast
  then have 3: "setup_inv sy pd nt3 \<and> \<not> nt_max_num_changed nt3 \<and> nt_types_allocated nt3 \<and> \<not> nt_remap_particles nt3 \<and> base_of nt3 = base_of nt2"
    unfolding nt3_def using setup_map by blast
  have e: "setupTree sy pd nt = (if nt_box_changed nt3 then (updateImageVectors sy nt3)\<lparr>nt_box_changed := False\<rparr> else nt3)"
    unfolding setupTree_def Let_def nt1_def [symmetric] nt2_def [symmetric] nt3_def [symmetric] ..
  obtain n l where u: "updateImageVectors sy nt3 = nt3\<lparr>nt_n_images := n, nt_image_list := l\<rparr>" "images_of (updateImageVectors sy nt3) = image_list_of sy"
    using updateImageVectors_ok [of sy nt3] by blast
  have "set_up sy pd (setupTree sy pd nt)"
    using 3 u unfolding e by (auto simp: set_up_def setup_inv_def sizes_ok_def trees_ready_def sorted_by_type_def images_of_def)
  moreover have "base_of (setupTree sy pd nt) = base_of nt" using 1 2 3 u(1) unfolding e by simp
  ultimately show ?thesis ..
qed

subsection \<open>One build\<close>

text \<open>The state after a build: the list of every particle that has room, and the conditions of the types that overflow.\<close>

definition built_list :: "nl_system \<Rightarrow> ParticleData \<Rightarrow> NeighborListTree \<Rightarrow> NeighborListTree \<Rightarrow> bool" where
  "built_list sy pd nt nt' \<longleftrightarrow>
    set_up sy pd nt' \<and> heads_ok pd nt'
    \<and> (\<exists>nl cd nn. base_of nt' = (base_of nt)\<lparr>nb_nlist := nl, nb_conditions := cd, nb_n_neigh := nn\<rparr>)
    \<and> (\<forall>i < pd_nparticles pd. nb_n_neigh nt' ! i = size (neighbor_spec nt pd (image_list_of sy) i))
    \<and> (\<forall>i < pd_nparticles pd. size (neighbor_spec nt pd (image_list_of sy) i) \<le> nb_Nmax nt ! type_of pd i
         \<longrightarrow> mset (neighbors (nlist_of nt') i) = neighbor_spec nt pd (image_list_of sy) i)
    \<and> (\<forall>i < pd_nparticles pd. nb_Nmax nt ! type_of pd i < size (neighbor_spec nt pd (image_list_of sy) i)
         \<longrightarrow> size (neighbor_spec nt pd (image_list_of sy) i) \<le> nb_conditions nt' ! type_of pd i)
    \<and> (\<forall>ty < nb_ntypes nt. nb_conditions nt' ! ty = nb_conditions nt ! ty
         \<or> (\<exists>i < pd_nparticles pd. type_of pd i = ty \<and> nb_Nmax nt ! ty < size (neighbor_spec nt pd (image_list_of sy) i)))"

lemma nt_buildNlist_ok:
  assumes inv: "setup_inv sy pd nt" and ok: "heads_ok pd nt" and b: "\<forall>i < pd_nparticles pd. in_bounds sy pd i" and r: "radii_ok nt pd"
  shows "\<exists>nt'. nt_buildNlist sy pd nt = Some (Inr nt') \<and> built_list sy pd nt nt'"
proof -
  define nt1 where "nt1 = setupTree sy pd nt"
  have s: "set_up sy pd nt1" "base_of nt1 = base_of nt" using setupTree_ok [OF inv] by (auto simp: nt1_def)
  obtain a ts where t: "nt_buildTree sy pd nt1 = Some (Inr (nt1\<lparr>nt_aabbs := a, nt_aabb_trees := ts\<rparr>))" "trees_ready pd (nt1\<lparr>nt_aabbs := a, nt_aabb_trees := ts\<rparr>)"
      "\<forall>ty < nb_ntypes nt1. nt_num_per_type nt1 ! ty > 0 \<longrightarrow> tree_of_type pd (ts ! ty) ty"
    using nt_buildTree_ok [of pd nt1, OF _ b] s(1) unfolding set_up_def by blast
  define nt2 where "nt2 = nt1\<lparr>nt_aabbs := a, nt_aabb_trees := ts\<rparr>"
  have base: "base_of nt2 = base_of nt" using s(2) by (simp add: nt2_def)
  have h: "trees_hold pd nt2" using t(2,3) by (simp add: trees_hold_def nt2_def)
  have up: "set_up sy pd nt2" using s(1) t(2) by (auto simp: set_up_def nt2_def images_of_def)
  have im: "images_of nt2 = image_list_of sy" using up by (simp add: set_up_def)
  note set = base_same_settings [OF base]
  have f: "nb_Nmax nt2 = nb_Nmax nt" "nb_conditions nt2 = nb_conditions nt" "nb_nlist nt2 = nb_nlist nt" "nb_head_list nt2 = nb_head_list nt" "nb_n_neigh nt2 = nb_n_neigh nt" "nb_ntypes nt2 = nb_ntypes nt"
    using base by (metis base_of_sel)+
  have ok2: "heads_ok pd nt2" using ok by (simp add: heads_ok_def f head_sum_def)
  have spec: "mset (found nt2 pd i) = neighbor_spec nt pd (image_list_of sy) i" if "i < pd_nparticles pd" for i
    using found_spec [OF h _ that] r same_settings_spec [OF set] im by simp
  have len: "length (found nt2 pd i) = size (neighbor_spec nt pd (image_list_of sy) i)" if "i < pd_nparticles pd" for i
    using spec [OF that] by (metis size_mset)
  obtain nl cd nn where w: "fold (traverse_particle nt2 pd) [0..<pd_nparticles pd] (nb_nlist nt2, nb_conditions nt2, nb_n_neigh nt2) = (nl, cd, nn)"
      "written nt2 pd (pd_nparticles pd) nl cd nn" using traverse_written [OF h ok2 le_refl] by blast
  define nt' where "nt' = nt2\<lparr>nb_nlist := nl, nb_conditions := cd, nb_n_neigh := nn\<rparr>"
  have "traverseTree pd nt2 = nt'" using w(1) by (simp add: traverseTree_def nt'_def)
  then have "nt_buildNlist sy pd nt = Some (Inr nt')" using t(1) by (simp add: nt_buildNlist_def nt1_def nt2_def)
  moreover have "built_list sy pd nt nt'"
    unfolding built_list_def
  proof (intro conjI allI impI)
    show "set_up sy pd nt'" using up by (auto simp: set_up_def trees_ready_def sorted_by_type_def nt'_def images_of_def)
    show "heads_ok pd nt'" using ok2 w(2) by (auto simp: heads_ok_def nt'_def head_sum_def written_def)
    have "base_of nt' = (base_of nt2)\<lparr>nb_nlist := nl, nb_conditions := cd, nb_n_neigh := nn\<rparr>" by (simp add: nt'_def NeighborList.truncate_def)
    then show "\<exists>nl cd nn. base_of nt' = (base_of nt)\<lparr>nb_nlist := nl, nb_conditions := cd, nb_n_neigh := nn\<rparr>" unfolding base by blast
    fix i assume i: "i < pd_nparticles pd"
    show "nb_n_neigh nt' ! i = size (neighbor_spec nt pd (image_list_of sy) i)" using i w(2) len [OF i] by (simp add: written_def nt'_def)
    show "mset (neighbors (nlist_of nt') i) = neighbor_spec nt pd (image_list_of sy) i"
      if room: "size (neighbor_spec nt pd (image_list_of sy) i) \<le> nb_Nmax nt ! type_of pd i"
    proof -
      have "neighbors (nlist_of nt') i = map (\<lambda>k. nl ! (head_sum pd nt2 i + k)) [0..<length (found nt2 pd i)]"
        using i w(2) ok2 by (simp add: neighbors_def nlist_of_def nt'_def written_def heads_ok_def)
      also have "\<dots> = map ((!) (found nt2 pd i)) [0..<length (found nt2 pd i)]"
        using i w(2) room len [OF i] by (intro map_cong refl) (auto simp: written_def f)
      finally show ?thesis using spec [OF i] by (simp add: map_nth)
    qed
    show "size (neighbor_spec nt pd (image_list_of sy) i) \<le> nb_conditions nt' ! type_of pd i" if "nb_Nmax nt ! type_of pd i < size (neighbor_spec nt pd (image_list_of sy) i)"
    proof -
      have "nb_Nmax nt ! type_of pd i < length (found nt2 pd i) \<Longrightarrow> length (found nt2 pd i) \<le> cd ! type_of pd i" using w(2) i unfolding written_def f by blast
      then show ?thesis using that by (simp add: len [OF i] nt'_def)
    qed
  next
    fix ty assume "ty < nb_ntypes nt"
    then show "nb_conditions nt' ! ty = nb_conditions nt ! ty \<or> (\<exists>i < pd_nparticles pd. type_of pd i = ty \<and> nb_Nmax nt ! ty < size (neighbor_spec nt pd (image_list_of sy) i))"
      using w(2) len by (auto simp: written_def nt'_def f)
  qed
  ultimately show ?thesis by blast
qed

lemma nt_buildNlist_error:
  assumes "\<exists>i < pd_nparticles pd. \<not> in_bounds sy pd i"
  shows "nt_buildNlist sy pd nt = Some (Inl (RuntimeError ''Error updating neighborlist''))"
  using nt_buildTree_error [OF assms] by (simp add: nt_buildNlist_def)

subsection \<open>Heads and conditions\<close>

lemma heads_fold:
  assumes "n \<le> length hs"
  shows "\<exists>hs'. fold (\<lambda>i (heads, a). (heads[i := a], a + M i)) [0..<n] (hs, 0) = (hs', \<Sum>k < n. M k) \<and> length hs' = length hs
    \<and> (\<forall>i < n. hs' ! i = (\<Sum>k < i. M k :: nat))"
  using assms
proof (induction n)
  case (Suc n)
  then obtain hs' where "fold (\<lambda>i (heads, a). (heads[i := a], a + M i)) [0..<n] (hs, 0) = (hs', \<Sum>k < n. M k)" "length hs' = length hs" "\<forall>i < n. hs' ! i = (\<Sum>k < i. M k)" by auto
  then show ?case using Suc.prems by (intro exI [of _ "hs'[n := \<Sum>k < n. M k]"]) (auto simp: nth_list_update less_Suc_eq Suc_le_eq)
qed simp

lemma round_up_4_ge: "n \<le> round_up_4 n" "4 \<le> round_up_4 n"
  by (auto simp: round_up_4_def)

lemma buildHeadList_ok:
  assumes "pd_nparticles pd \<le> length (nb_head_list nb)" and "pd_nparticles pd \<le> length (nb_n_neigh nb)"
    and "length (nb_conditions nb) = nb_ntypes nb" and "length (nb_Nmax nb) = nb_ntypes nb"
  shows "heads_ok pd (buildHeadList pd nb) \<and> (\<exists>hs nl. buildHeadList pd nb = nb\<lparr>nb_head_list := hs, nb_nlist := nl\<rparr> \<and> length hs = length (nb_head_list nb))"
proof -
  let ?M = "\<lambda>i. nb_Nmax nb ! type_of pd i" and ?N = "pd_nparticles pd"
  obtain hs where h: "fold (\<lambda>i (heads, a). (heads[i := a], a + ?M i)) [0..<?N] (nb_head_list nb, 0) = (hs, head_sum pd nb ?N)"
      "length hs = length (nb_head_list nb)" "\<forall>i < ?N. hs ! i = head_sum pd nb i"
    using heads_fold [OF assms(1), of ?M] by (auto simp: head_sum_def)
  have e: "buildHeadList pd nb = resizeNlist (head_sum pd nb ?N) (nb\<lparr>nb_head_list := hs\<rparr>)"
    unfolding buildHeadList_def type_of_def [symmetric] h(1) by simp
  obtain nl where nl: "resizeNlist (head_sum pd nb ?N) (nb\<lparr>nb_head_list := hs\<rparr>) = nb\<lparr>nb_head_list := hs, nb_nlist := nl\<rparr>" "head_sum pd nb ?N \<le> length nl"
  proof (cases "head_sum pd nb ?N > length (nb_nlist nb)")
    case True
    let ?a = "grow_alloc (head_sum pd nb ?N) (if length (nb_nlist nb) = 0 then 1 else length (nb_nlist nb))"
    have "head_sum pd nb ?N \<le> round_up_4 ?a" using grow_alloc_ge(1) round_up_4_ge(1) le_trans by blast
    then show ?thesis using that [of "resized 0 (round_up_4 ?a) (nb_nlist nb)"] True by (simp add: resizeNlist_def Let_def)
  next
    case False
    then show ?thesis using that [of "nb_nlist nb"] by (simp add: resizeNlist_def)
  qed
  have "heads_ok pd (nb\<lparr>nb_head_list := hs, nb_nlist := nl\<rparr>)" using assms h nl(2) by (auto simp: heads_ok_def head_sum_def)
  then show ?thesis using e nl(1) h(2) by auto
qed

lemma conditions_fold:
  assumes "n \<le> length M" and "n \<le> length cd"
  shows "\<exists>M'. fold (\<lambda>i (r, M). if cd ! i > M ! i then (True, M[i := round_up_4 (cd ! i)]) else (r, M)) [0..<n] (False, M) = (\<exists>ty < n. M ! ty < cd ! ty, M')
    \<and> length M' = length M \<and> (\<forall>ty < length M. M' ! ty = (if ty < n \<and> M ! ty < cd ! ty then round_up_4 (cd ! ty) else M ! ty))"
  using assms
proof (induction n)
  case (Suc n)
  let ?f = "\<lambda>i (r, M). if cd ! i > M ! i then (True, M[i := round_up_4 (cd ! i)]) else (r, M)"
  obtain M' where f: "fold ?f [0..<n] (False, M) = (\<exists>ty < n. M ! ty < cd ! ty, M')" "length M' = length M"
      "\<forall>ty < length M. M' ! ty = (if ty < n \<and> M ! ty < cd ! ty then round_up_4 (cd ! ty) else M ! ty)" using Suc by auto
  have n: "n < length M" "M' ! n = M ! n" using Suc.prems f(3) by auto
  show ?case
  proof (cases "M ! n < cd ! n")
    case True
    then have "fold ?f [0..<Suc n] (False, M) = (\<exists>ty < Suc n. M ! ty < cd ! ty, M'[n := round_up_4 (cd ! n)])" using f(1) n by (auto simp: less_Suc_eq)
    moreover have "\<forall>ty < length M. M'[n := round_up_4 (cd ! n)] ! ty = (if ty < Suc n \<and> M ! ty < cd ! ty then round_up_4 (cd ! ty) else M ! ty)"
      using f(2,3) n True by (auto simp: nth_list_update less_Suc_eq)
    ultimately show ?thesis using f(2) by (intro exI [of _ "M'[n := round_up_4 (cd ! n)]"]) simp
  next
    case False
    then have "fold ?f [0..<Suc n] (False, M) = (\<exists>ty < Suc n. M ! ty < cd ! ty, M')" using f(1) n by (auto simp: less_Suc_eq)
    moreover have "\<forall>ty < length M. M' ! ty = (if ty < Suc n \<and> M ! ty < cd ! ty then round_up_4 (cd ! ty) else M ! ty)"
      using f(3) False by (auto simp: less_Suc_eq)
    ultimately show ?thesis using f(2) by (intro exI [of _ M']) simp
  qed
qed simp

lemma checkConditions_ok:
  assumes "length (nb_conditions nb) = nb_ntypes nb" and "length (nb_Nmax nb) = nb_ntypes nb"
  shows "\<exists>M. checkConditions nb = (\<exists>ty < nb_ntypes nb. nb_Nmax nb ! ty < nb_conditions nb ! ty, nb\<lparr>nb_Nmax := M\<rparr>) \<and> length M = nb_ntypes nb
    \<and> (\<forall>ty < nb_ntypes nb. M ! ty = (if nb_Nmax nb ! ty < nb_conditions nb ! ty then round_up_4 (nb_conditions nb ! ty) else nb_Nmax nb ! ty))"
  using conditions_fold [of "nb_ntypes nb" "nb_Nmax nb" "nb_conditions nb"] assms by (auto simp: checkConditions_def)

subsection \<open>The loop\<close>

text \<open>The state after the rebuild: the lists are the specified ones, everything but the lists and their memory is as before.\<close>

definition listed :: "nl_system \<Rightarrow> ParticleData \<Rightarrow> NeighborListTree \<Rightarrow> NeighborListTree \<Rightarrow> bool" where
  "listed sy pd nt nt' \<longleftrightarrow>
    set_up sy pd nt' \<and> heads_ok pd nt'
    \<and> (\<exists>nl nn hs M. base_of nt' = (base_of nt)\<lparr>nb_nlist := nl, nb_n_neigh := nn, nb_head_list := hs, nb_Nmax := M\<rparr>)
    \<and> (\<forall>i < pd_nparticles pd. mset (neighbors (nlist_of nt') i) = neighbor_spec nt pd (image_list_of sy) i
         \<and> nb_n_neigh nt' ! i \<le> nb_Nmax nt' ! type_of pd i)"

definition fits :: "nl_system \<Rightarrow> ParticleData \<Rightarrow> NeighborListTree \<Rightarrow> bool" where
  "fits sy pd nt \<longleftrightarrow> (\<forall>i < pd_nparticles pd. size (neighbor_spec nt pd (image_list_of sy) i) \<le> nb_Nmax nt ! type_of pd i)"

lemma built_conditions:
  assumes "built_list sy pd nt nt'" and "fits sy pd nt" and "nb_conditions nt = replicate (nb_ntypes nt) 0"
  shows "nb_conditions nt' = nb_conditions nt"
proof (rule nth_equalityI)
  obtain nl cd nn where b: "base_of nt' = (base_of nt)\<lparr>nb_nlist := nl, nb_conditions := cd, nb_n_neigh := nn\<rparr>" using assms(1) by (auto simp: built_list_def)
  have "nb_ntypes nt' = nb_ntypes nt" using arg_cong [OF b, of nb_ntypes] by simp
  moreover have "length (nb_conditions nt') = nb_ntypes nt'" using assms(1) by (simp add: built_list_def heads_ok_def)
  ultimately show len: "length (nb_conditions nt') = length (nb_conditions nt)" using assms(3) by simp
  fix ty assume "ty < length (nb_conditions nt')"
  then have "ty < nb_ntypes nt" using len assms(3) by simp
  then have "nb_conditions nt' ! ty = nb_conditions nt ! ty
      \<or> (\<exists>i < pd_nparticles pd. type_of pd i = ty \<and> nb_Nmax nt ! ty < size (neighbor_spec nt pd (image_list_of sy) i))"
    using assms(1) unfolding built_list_def by blast
  then show "nb_conditions nt' ! ty = nb_conditions nt ! ty" using assms(2) unfolding fits_def by (meson leD)
qed

lemma rebuild_once:
  assumes inv: "setup_inv sy pd nt" and ok: "heads_ok pd nt" and b: "\<forall>i < pd_nparticles pd. in_bounds sy pd i" and r: "radii_ok nt pd"
    and c: "nb_conditions nt = replicate (nb_ntypes nt) 0" and fit: "fits sy pd nt"
  shows "\<exists>nt'. rebuild_loop (nt_buildNlist sy pd) pd nt = Some (Inr nt') \<and> listed sy pd nt nt'"
proof -
  obtain nt' where n: "nt_buildNlist sy pd nt = Some (Inr nt')" "built_list sy pd nt nt'" using nt_buildNlist_ok [OF inv ok b r] by blast
  obtain nl cd nn where base: "base_of nt' = (base_of nt)\<lparr>nb_nlist := nl, nb_conditions := cd, nb_n_neigh := nn\<rparr>" using n(2) by (auto simp: built_list_def)
  have cd: "nb_conditions nt' = replicate (nb_ntypes nt') 0"
    using built_conditions [OF n(2) fit c] c arg_cong [OF base, of nb_ntypes] by simp
  have len: "length (nb_Nmax nt') = nb_ntypes nt'" using n(2) by (simp add: built_list_def heads_ok_def)
  obtain M where M: "checkConditions nt' = (False, nt'\<lparr>nb_Nmax := M\<rparr>)" "length M = nb_ntypes nt'" "\<forall>ty < nb_ntypes nt'. M ! ty = nb_Nmax nt' ! ty"
    using checkConditions_ok [of nt'] cd len by auto
  have "M = nb_Nmax nt'" using M(2,3) len by (intro nth_equalityI) auto
  then have "checkConditions nt' = (False, nt')" using M(1) by simp
  then have loop: "rebuild_loop (nt_buildNlist sy pd) pd nt = Some (Inr nt')" using n(1) by (subst rebuild_loop.simps) simp
  have "cd = nb_conditions (base_of nt)" using arg_cong [OF base, of nb_conditions] built_conditions [OF n(2) fit c] by simp
  then have "base_of nt' = (base_of nt)\<lparr>nb_nlist := nl, nb_n_neigh := nn, nb_head_list := nb_head_list (base_of nt), nb_Nmax := nb_Nmax (base_of nt)\<rparr>"
    unfolding base by simp
  moreover have "nb_Nmax nt' = nb_Nmax nt" using arg_cong [OF base, of nb_Nmax] by simp
  ultimately have "listed sy pd nt nt'" using n(2) fit unfolding listed_def built_list_def fits_def by metis
  with loop show ?thesis by blast
qed

lemma rebuild_loop_ok:
  assumes inv: "setup_inv sy pd nt" and ok: "heads_ok pd nt" and b: "\<forall>i < pd_nparticles pd. in_bounds sy pd i" and r: "radii_ok nt pd"
    and c: "nb_conditions nt = replicate (nb_ntypes nt) 0"
  shows "\<exists>nt'. rebuild_loop (nt_buildNlist sy pd) pd nt = Some (Inr nt') \<and> listed sy pd nt nt'"
proof (cases "fits sy pd nt")
  case True
  then show ?thesis using rebuild_once [OF inv ok b r c] by blast
next
  case False
  obtain nt1 where n: "nt_buildNlist sy pd nt = Some (Inr nt1)" and bl: "built_list sy pd nt nt1" using nt_buildNlist_ok [OF inv ok b r] by blast
  obtain nl cd nn where base: "base_of nt1 = (base_of nt)\<lparr>nb_nlist := nl, nb_conditions := cd, nb_n_neigh := nn\<rparr>" using bl by (auto simp: built_list_def)
  have f: "nb_ntypes nt1 = nb_ntypes nt" "nb_Nmax nt1 = nb_Nmax nt" using arg_cong [OF base, of nb_ntypes] arg_cong [OF base, of nb_Nmax] by simp_all
  have ok1: "heads_ok pd nt1" using bl by (simp add: built_list_def)
  have ty: "type_of pd i < nb_ntypes nt" if "i < pd_nparticles pd" for i using inv that by (simp add: setup_inv_def sizes_ok_def n_local_def)
  obtain M where M: "checkConditions nt1 = (\<exists>ty < nb_ntypes nt1. nb_Nmax nt1 ! ty < nb_conditions nt1 ! ty, nt1\<lparr>nb_Nmax := M\<rparr>)" "length M = nb_ntypes nt1"
      "\<forall>ty < nb_ntypes nt1. M ! ty = (if nb_Nmax nt1 ! ty < nb_conditions nt1 ! ty then round_up_4 (nb_conditions nt1 ! ty) else nb_Nmax nt1 ! ty)"
    using checkConditions_ok [of nt1] ok1 by (auto simp: heads_ok_def)
  have over: "nb_Nmax nt ! type_of pd i < nb_conditions nt1 ! type_of pd i \<and> size (neighbor_spec nt pd (image_list_of sy) i) \<le> nb_conditions nt1 ! type_of pd i"
    if "i < pd_nparticles pd" "nb_Nmax nt ! type_of pd i < size (neighbor_spec nt pd (image_list_of sy) i)" for i
  proof -
    have "size (neighbor_spec nt pd (image_list_of sy) i) \<le> nb_conditions nt1 ! type_of pd i" using bl that unfolding built_list_def by blast
    then show ?thesis using that(2) by simp
  qed
  obtain i0 where i0: "i0 < pd_nparticles pd" "nb_Nmax nt ! type_of pd i0 < size (neighbor_spec nt pd (image_list_of sy) i0)"
    using False by (auto simp: fits_def not_le)
  have "\<exists>ty < nb_ntypes nt1. nb_Nmax nt1 ! ty < nb_conditions nt1 ! ty" unfolding f using over [OF i0] ty [OF i0(1)] by blast
  then have yes: "checkConditions nt1 = (True, nt1\<lparr>nb_Nmax := M\<rparr>)" unfolding M(1) by simp
  let ?nt2 = "nt1\<lparr>nb_Nmax := M\<rparr>"
  obtain hs nl2 where h: "heads_ok pd (buildHeadList pd ?nt2)" "buildHeadList pd ?nt2 = ?nt2\<lparr>nb_head_list := hs, nb_nlist := nl2\<rparr>"
  proof -
    have "pd_nparticles pd \<le> length (nb_head_list ?nt2)" "pd_nparticles pd \<le> length (nb_n_neigh ?nt2)"
      "length (nb_conditions ?nt2) = nb_ntypes ?nt2" "length (nb_Nmax ?nt2) = nb_ntypes ?nt2" using ok1 M(2) by (simp_all add: heads_ok_def)
    from buildHeadList_ok [OF this] show ?thesis using that by blast
  qed
  let ?nt3 = "resetConditions (?nt2\<lparr>nb_head_list := hs, nb_nlist := nl2\<rparr>)"
  have base3: "base_of ?nt3 = (base_of nt1)\<lparr>nb_nlist := nl2, nb_head_list := hs, nb_Nmax := M, nb_conditions := replicate (nb_ntypes nt) 0\<rparr>"
    by (simp add: resetConditions_def NeighborList.truncate_def f)
  have "set_up sy pd nt1" using bl by (simp add: built_list_def)
  then have up: "set_up sy pd ?nt3" by (auto simp: set_up_def trees_ready_def sorted_by_type_def images_of_def resetConditions_def)
  have ok3: "heads_ok pd ?nt3" using h unfolding resetConditions_def by (auto simp: heads_ok_def head_sum_def)
  have "same_settings (base_of nt) (base_of nt1)" unfolding base by (simp add: same_settings_def)
  then have "same_settings nt nt1" by (simp only: same_settings_def base_of_sel)
  then have set: "same_settings nt ?nt3" by (simp add: same_settings_def resetConditions_def)
  note spec = same_settings_spec [OF set]
  have "size (neighbor_spec nt pd (image_list_of sy) i) \<le> M ! type_of pd i" if i: "i < pd_nparticles pd" for i
  proof (cases "nb_Nmax nt ! type_of pd i < size (neighbor_spec nt pd (image_list_of sy) i)")
    case True
    have "M ! type_of pd i = round_up_4 (nb_conditions nt1 ! type_of pd i)" using over [OF i True] M(3) ty [OF i] by (simp add: f)
    then show ?thesis using over [OF i True] round_up_4_ge(1) [of "nb_conditions nt1 ! type_of pd i"] by simp
  next
    case no: False
    have "nb_Nmax nt ! type_of pd i \<le> M ! type_of pd i" using M(3) ty [OF i] f round_up_4_ge(1) [of "nb_conditions nt1 ! type_of pd i"] by auto
    then show ?thesis using no by simp
  qed
  then have fit: "fits sy pd ?nt3" unfolding fits_def spec by (simp add: resetConditions_def)
  obtain nt' where l: "rebuild_loop (nt_buildNlist sy pd) pd ?nt3 = Some (Inr nt')" "listed sy pd ?nt3 nt'"
    using rebuild_once [OF set_up_inv [OF up] ok3 b _ _ fit] r unfolding spec(2) by (simp add: resetConditions_def) blast
  have "rebuild_loop (nt_buildNlist sy pd) pd nt = Some (Inr nt')" using n yes h(2) l(1) by (subst rebuild_loop.simps) simp
  moreover have "base_of ?nt3 = (base_of nt)\<lparr>nb_nlist := nl2, nb_n_neigh := nn, nb_head_list := hs, nb_Nmax := M\<rparr>"
    using arg_cong [OF base, of nb_conditions] c unfolding base3 base by simp
  then have "\<exists>nl nn hs M. base_of nt' = (base_of nt)\<lparr>nb_nlist := nl, nb_n_neigh := nn, nb_head_list := hs, nb_Nmax := M\<rparr>"
    using l(2) unfolding listed_def by (elim conjE exE) (simp, blast)
  then have "listed sy pd nt nt'" using l(2) unfolding listed_def spec(1) by blast
  ultimately show ?thesis by blast
qed

end
