(* ===== verification/Vector_Math.thy ===== *)
theory Vector_Math
  imports Pair_Evaluators
begin

section \<open>VectorMath: vectors, quaternions and rotation matrices\<close>

text \<open>
  The structs and free functions of \<^verbatim>\<open>hoomd/VectorMath.h\<close> over the real numbers. A \<open>vec3\<close> is a triple, a \<open>vec2\<close> a pair, a
  quaternion a record of its scalar and its vector, a rotation matrix a record of its rows. The assignment operators
  return the new value of their first argument. Rotations come in three forms, whose agreement is the subject of
  the properties: the closed form \<open>rotate\<close>, the product \<open>q v conj(q)\<close> of quaternions, and the rotation matrix.
\<close>

type_synonym vec2 = "Scalar \<times> Scalar"

subsection \<open>vec3\<close>

definition v3_get :: "vec3 \<Rightarrow> nat \<Rightarrow> Scalar result" where
  "v3_get v i = (if i = 0 then Inr (xc v) else if i = 1 then Inr (yc v) else if i = 2 then Inr (zc v)
    else Inl (InvalidArgument ''Attempting to access non-existent vec3 entry (i.e. i > 2)''))"

definition v3_swap :: "vec3 \<Rightarrow> vec3 \<Rightarrow> vec3 \<times> vec3" where
  "v3_swap a v = (let (tx, ty, tz) = v; v = a; a = (tx, ty, tz) in (a, v))"

definition v3_add :: "vec3 \<Rightarrow> vec3 \<Rightarrow> vec3" where
  "v3_add a b = (xc a + xc b, yc a + yc b, zc a + zc b)"

definition v3_sub :: "vec3 \<Rightarrow> vec3 \<Rightarrow> vec3" where
  "v3_sub a b = (xc a - xc b, yc a - yc b, zc a - zc b)"

definition v3_mul :: "vec3 \<Rightarrow> vec3 \<Rightarrow> vec3" where
  "v3_mul a b = (xc a * xc b, yc a * yc b, zc a * zc b)"

definition v3_div :: "vec3 \<Rightarrow> vec3 \<Rightarrow> vec3" where
  "v3_div a b = (xc a / xc b, yc a / yc b, zc a / zc b)"

definition v3_neg :: "vec3 \<Rightarrow> vec3" where
  "v3_neg a = (- xc a, - yc a, - zc a)"

definition v3_add_assign :: "vec3 \<Rightarrow> vec3 \<Rightarrow> vec3" where
  "v3_add_assign a b = (xc a + xc b, yc a + yc b, zc a + zc b)"

definition v3_sub_assign :: "vec3 \<Rightarrow> vec3 \<Rightarrow> vec3" where
  "v3_sub_assign a b = (xc a - xc b, yc a - yc b, zc a - zc b)"

definition v3_mul_assign :: "vec3 \<Rightarrow> vec3 \<Rightarrow> vec3" where
  "v3_mul_assign a b = (xc a * xc b, yc a * yc b, zc a * zc b)"

definition v3_div_assign :: "vec3 \<Rightarrow> vec3 \<Rightarrow> vec3" where
  "v3_div_assign a b = (xc a / xc b, yc a / yc b, zc a / zc b)"

definition v3_scale :: "vec3 \<Rightarrow> Scalar \<Rightarrow> vec3" where
  "v3_scale a b = (xc a * b, yc a * b, zc a * b)"

definition v3_scale_left :: "Scalar \<Rightarrow> vec3 \<Rightarrow> vec3" where
  "v3_scale_left b a = (xc a * b, yc a * b, zc a * b)"

definition v3_over :: "vec3 \<Rightarrow> Scalar \<Rightarrow> vec3" where
  "v3_over a b = (let q = 1 / b in v3_scale a q)"

definition v3_scale_assign :: "vec3 \<Rightarrow> Scalar \<Rightarrow> vec3" where
  "v3_scale_assign a b = (xc a * b, yc a * b, zc a * b)"

definition v3_over_assign :: "vec3 \<Rightarrow> Scalar \<Rightarrow> vec3" where
  "v3_over_assign a b = (xc a / b, yc a / b, zc a / b)"

definition v3_eq :: "vec3 \<Rightarrow> vec3 \<Rightarrow> bool" where
  "v3_eq a b \<longleftrightarrow> xc a = xc b \<and> yc a = yc b \<and> zc a = zc b"

definition v3_neq :: "vec3 \<Rightarrow> vec3 \<Rightarrow> bool" where
  "v3_neq a b \<longleftrightarrow> xc a \<noteq> xc b \<or> yc a \<noteq> yc b \<or> zc a \<noteq> zc b"

definition v3_dot :: "vec3 \<Rightarrow> vec3 \<Rightarrow> Scalar" where
  "v3_dot a b = xc a * xc b + yc a * yc b + zc a * zc b"

definition v3_cross :: "vec3 \<Rightarrow> vec3 \<Rightarrow> vec3" where
  "v3_cross a b = (yc a * zc b - zc a * yc b, zc a * xc b - xc a * zc b, xc a * yc b - yc a * xc b)"

definition v3_normalize :: "vec3 \<Rightarrow> vec3" where
  "v3_normalize a = (let inverse_norm = rsqrt (v3_dot a a) in v3_scale a inverse_norm)"

definition v3_project :: "vec3 \<Rightarrow> vec3 \<Rightarrow> vec3" where
  "v3_project a b = v3_scale_left (v3_dot a b / v3_dot b b) b"

definition vec_to_scalar4 :: "vec3 \<Rightarrow> Scalar \<Rightarrow> vec4" where
  "vec_to_scalar4 a w = (xc a, yc a, zc a, w)"

subsection \<open>vec2\<close>

definition v2_add :: "vec2 \<Rightarrow> vec2 \<Rightarrow> vec2" where
  "v2_add a b = (fst a + fst b, snd a + snd b)"

definition v2_sub :: "vec2 \<Rightarrow> vec2 \<Rightarrow> vec2" where
  "v2_sub a b = (fst a - fst b, snd a - snd b)"

definition v2_mul :: "vec2 \<Rightarrow> vec2 \<Rightarrow> vec2" where
  "v2_mul a b = (fst a * fst b, snd a * snd b)"

definition v2_div :: "vec2 \<Rightarrow> vec2 \<Rightarrow> vec2" where
  "v2_div a b = (fst a / fst b, snd a / snd b)"

definition v2_neg :: "vec2 \<Rightarrow> vec2" where
  "v2_neg a = (- fst a, - snd a)"

definition v2_add_assign :: "vec2 \<Rightarrow> vec2 \<Rightarrow> vec2" where
  "v2_add_assign a b = (fst a + fst b, snd a + snd b)"

definition v2_sub_assign :: "vec2 \<Rightarrow> vec2 \<Rightarrow> vec2" where
  "v2_sub_assign a b = (fst a - fst b, snd a - snd b)"

definition v2_mul_assign :: "vec2 \<Rightarrow> vec2 \<Rightarrow> vec2" where
  "v2_mul_assign a b = (fst a * fst b, snd a * snd b)"

definition v2_div_assign :: "vec2 \<Rightarrow> vec2 \<Rightarrow> vec2" where
  "v2_div_assign a b = (fst a / fst b, snd a / snd b)"

definition v2_scale :: "vec2 \<Rightarrow> Scalar \<Rightarrow> vec2" where
  "v2_scale a b = (fst a * b, snd a * b)"

definition v2_scale_left :: "Scalar \<Rightarrow> vec2 \<Rightarrow> vec2" where
  "v2_scale_left b a = (fst a * b, snd a * b)"

definition v2_scale_assign :: "vec2 \<Rightarrow> Scalar \<Rightarrow> vec2" where
  "v2_scale_assign a b = (fst a * b, snd a * b)"

definition v2_over :: "vec2 \<Rightarrow> Scalar \<Rightarrow> vec2" where
  "v2_over a b = (let q = 1 / b in v2_scale a q)"

definition v2_over_assign :: "vec2 \<Rightarrow> Scalar \<Rightarrow> vec2" where
  "v2_over_assign a b = (fst a / b, snd a / b)"

definition v2_eq :: "vec2 \<Rightarrow> vec2 \<Rightarrow> bool" where
  "v2_eq a b \<longleftrightarrow> fst a = fst b \<and> snd a = snd b"

definition v2_neq :: "vec2 \<Rightarrow> vec2 \<Rightarrow> bool" where
  "v2_neq a b \<longleftrightarrow> fst a \<noteq> fst b \<or> snd a \<noteq> snd b"

definition v2_swap :: "vec2 \<Rightarrow> vec2 \<Rightarrow> vec2 \<times> vec2" where
  "v2_swap a v = (let (tx, ty) = v; v = a; a = (tx, ty) in (a, v))"

definition v2_dot :: "vec2 \<Rightarrow> vec2 \<Rightarrow> Scalar" where
  "v2_dot a b = fst a * fst b + snd a * snd b"

definition perp :: "vec2 \<Rightarrow> vec2" where
  "perp a = (- snd a, fst a)"

definition perpdot :: "vec2 \<Rightarrow> vec2 \<Rightarrow> Scalar" where
  "perpdot a b = v2_dot (perp a) b"

definition v2_normalize :: "vec2 \<Rightarrow> vec2" where
  "v2_normalize a = (let inverse_norm = rsqrt (v2_dot a a) in v2_scale a inverse_norm)"

subsection \<open>quat\<close>

record quat =
  q_s :: Scalar
  q_v :: vec3

definition quat_of :: "Scalar \<Rightarrow> vec3 \<Rightarrow> quat" where
  "quat_of s v = \<lparr>q_s = s, q_v = v\<rparr>"

definition quat_default :: quat where
  "quat_default = quat_of 1 (0, 0, 0)"

definition quat_of_scalar4 :: "vec4 \<Rightarrow> quat" where
  "quat_of_scalar4 a = quat_of (fst a) (fst (snd a), fst (snd (snd a)), snd (snd (snd a)))"

definition quat_to_scalar4 :: "quat \<Rightarrow> vec4" where
  "quat_to_scalar4 a = (q_s a, xc (q_v a), yc (q_v a), zc (q_v a))"

definition quat_fromAxisAngle :: "vec3 \<Rightarrow> Scalar \<Rightarrow> quat" where
  "quat_fromAxisAngle axis theta = quat_of (cos (theta / 2)) (v3_scale_left (sin (theta / 2)) axis)"

definition quat_scale_left :: "Scalar \<Rightarrow> quat \<Rightarrow> quat" where
  "quat_scale_left b a = quat_of (b * q_s a) (v3_scale_left b (q_v a))"

definition quat_scale :: "quat \<Rightarrow> Scalar \<Rightarrow> quat" where
  "quat_scale a b = quat_of (q_s a * b) (v3_scale (q_v a) b)"

definition quat_add :: "quat \<Rightarrow> quat \<Rightarrow> quat" where
  "quat_add a b = quat_of (q_s a + q_s b) (v3_add (q_v a) (q_v b))"

definition quat_sub :: "quat \<Rightarrow> quat \<Rightarrow> quat" where
  "quat_sub a b = quat_of (q_s a - q_s b) (v3_sub (q_v a) (q_v b))"

definition quat_add_assign :: "quat \<Rightarrow> quat \<Rightarrow> quat" where
  "quat_add_assign a b = a\<lparr>q_s := q_s a + q_s b, q_v := v3_add_assign (q_v a) (q_v b)\<rparr>"

definition quat_sub_assign :: "quat \<Rightarrow> quat \<Rightarrow> quat" where
  "quat_sub_assign a b = a\<lparr>q_s := q_s a - q_s b, q_v := v3_sub_assign (q_v a) (q_v b)\<rparr>"

definition quat_mul :: "quat \<Rightarrow> quat \<Rightarrow> quat" where
  "quat_mul a b = quat_of (q_s a * q_s b - v3_dot (q_v a) (q_v b))
    (v3_add (v3_add (v3_scale_left (q_s a) (q_v b)) (v3_scale_left (q_s b) (q_v a))) (v3_cross (q_v a) (q_v b)))"

definition vec_quat_mul :: "vec3 \<Rightarrow> quat \<Rightarrow> quat" where
  "vec_quat_mul a b = quat_mul (quat_of 0 a) b"

definition quat_vec_mul :: "quat \<Rightarrow> vec3 \<Rightarrow> quat" where
  "quat_vec_mul a b = quat_mul a (quat_of 0 b)"

definition norm2 :: "quat \<Rightarrow> Scalar" where
  "norm2 a = q_s a * q_s a + v3_dot (q_v a) (q_v a)"

definition conj :: "quat \<Rightarrow> quat" where
  "conj a = quat_of (q_s a) (v3_neg (q_v a))"

definition quat_dot :: "quat \<Rightarrow> quat \<Rightarrow> Scalar" where
  "quat_dot a b = q_s a * q_s b + v3_dot (q_v a) (q_v b)"

definition rotate :: "quat \<Rightarrow> vec3 \<Rightarrow> vec3" where
  "rotate a b = v3_add (v3_add (v3_scale_left (q_s a * q_s a - v3_dot (q_v a) (q_v a)) b)
      (v3_scale_left (2 * q_s a) (v3_cross (q_v a) b)))
    (v3_scale_left (2 * v3_dot (q_v a) b) (q_v a))"

definition rotate_2d :: "quat \<Rightarrow> vec2 \<Rightarrow> vec2" where
  "rotate_2d a b = (let b3 = (fst b, snd b, 0);
     b3 = v3_add (v3_add (v3_scale_left (q_s a * q_s a - v3_dot (q_v a) (q_v a)) b3)
        (v3_scale_left (2 * q_s a) (v3_cross (q_v a) b3)))
      (v3_scale_left (2 * v3_dot (q_v a) b3) (q_v a))
     in (xc b3, yc b3))"

subsection \<open>rotmat2 and rotmat3\<close>

record rotmat2 =
  m2_row0 :: vec2
  m2_row1 :: vec2

definition rotmat2_of_quat :: "quat \<Rightarrow> rotmat2" where
  "rotmat2_of_quat q = (let a = q_s q; b = xc (q_v q); c = yc (q_v q); d = zc (q_v q) in
    \<lparr>m2_row0 = (a * a + b * b - c * c - d * d, 2 * b * c - 2 * a * d),
     m2_row1 = (2 * b * c + 2 * a * d, a * a - b * b + c * c - d * d)\<rparr>)"

definition rotmat2_default :: rotmat2 where
  "rotmat2_default = \<lparr>m2_row0 = (1, 0), m2_row1 = (0, 1)\<rparr>"

definition rotmat2_fromAngle :: "Scalar \<Rightarrow> rotmat2" where
  "rotmat2_fromAngle theta = \<lparr>m2_row0 = (cos theta, - sin theta), m2_row1 = (sin theta, cos theta)\<rparr>"

definition rotmat2_vec :: "rotmat2 \<Rightarrow> vec2 \<Rightarrow> vec2" where
  "rotmat2_vec A b = (v2_dot (m2_row0 A) b, v2_dot (m2_row1 A) b)"

definition rotmat2_transpose :: "rotmat2 \<Rightarrow> rotmat2" where
  "rotmat2_transpose A = \<lparr>m2_row0 = (fst (m2_row0 A), fst (m2_row1 A)), m2_row1 = (snd (m2_row0 A), snd (m2_row1 A))\<rparr>"

record rotmat3 =
  row0 :: vec3
  row1 :: vec3
  row2 :: vec3

definition rotmat3_of_quat :: "quat \<Rightarrow> rotmat3" where
  "rotmat3_of_quat q = (let a = q_s q; b = xc (q_v q); c = yc (q_v q); d = zc (q_v q) in
    \<lparr>row0 = (a * a + b * b - c * c - d * d, 2 * b * c - 2 * a * d, 2 * b * d + 2 * a * c),
     row1 = (2 * b * c + 2 * a * d, a * a - b * b + c * c - d * d, 2 * c * d - 2 * a * b),
     row2 = (2 * b * d - 2 * a * c, 2 * c * d + 2 * a * b, a * a - b * b - c * c + d * d)\<rparr>)"

definition rotmat3_default :: rotmat3 where
  "rotmat3_default = \<lparr>row0 = (1, 0, 0), row1 = (0, 1, 0), row2 = (0, 0, 1)\<rparr>"

definition rotmat3_fromAxisAngle :: "vec3 \<Rightarrow> Scalar \<Rightarrow> rotmat3" where
  "rotmat3_fromAxisAngle axis theta = rotmat3_of_quat (quat_fromAxisAngle axis theta)"

definition rotmat3_det :: "rotmat3 \<Rightarrow> Scalar" where
  "rotmat3_det r = xc (row0 r) * (yc (row1 r) * zc (row2 r) - zc (row1 r) * yc (row2 r))
    - yc (row0 r) * (xc (row1 r) * zc (row2 r) - zc (row1 r) * xc (row2 r))
    + zc (row0 r) * (xc (row1 r) * yc (row2 r) - yc (row1 r) * xc (row2 r))"

definition rotmat3_vec :: "rotmat3 \<Rightarrow> vec3 \<Rightarrow> vec3" where
  "rotmat3_vec A b = (v3_dot (row0 A) b, v3_dot (row1 A) b, v3_dot (row2 A) b)"

definition rotmat3_transpose :: "rotmat3 \<Rightarrow> rotmat3" where
  "rotmat3_transpose A = \<lparr>row0 = (xc (row0 A), xc (row1 A), xc (row2 A)),
     row1 = (yc (row0 A), yc (row1 A), yc (row2 A)), row2 = (zc (row0 A), zc (row1 A), zc (row2 A))\<rparr>"

definition rotmat3_mul :: "rotmat3 \<Rightarrow> rotmat3 \<Rightarrow> rotmat3" where
  "rotmat3_mul A B = (let B_t = rotmat3_transpose B in
    \<lparr>row0 = (v3_dot (row0 A) (row0 B_t), v3_dot (row0 A) (row1 B_t), v3_dot (row0 A) (row2 B_t)),
     row1 = (v3_dot (row1 A) (row0 B_t), v3_dot (row1 A) (row1 B_t), v3_dot (row1 A) (row2 B_t)),
     row2 = (v3_dot (row2 A) (row0 B_t), v3_dot (row2 A) (row1 B_t), v3_dot (row2 A) (row2 B_t))\<rparr>)"

definition quat_of_rotmat3 :: "rotmat3 \<Rightarrow> quat" where
  "quat_of_rotmat3 r =
    (let tr = xc (row0 r) + yc (row1 r) + zc (row2 r) in
     if tr > 0 then
       let S = sqrt (tr + 1) * 2
       in quat_of (S / 4) ((yc (row2 r) - zc (row1 r)) / S, (zc (row0 r) - xc (row2 r)) / S, (xc (row1 r) - yc (row0 r)) / S)
     else if xc (row0 r) > yc (row1 r) \<and> xc (row0 r) > zc (row2 r) then
       let S = sqrt (1 + xc (row0 r) - yc (row1 r) - zc (row2 r)) * 2
       in quat_of ((yc (row2 r) - zc (row1 r)) / S) (S / 4, (yc (row0 r) + xc (row1 r)) / S, (zc (row0 r) + xc (row2 r)) / S)
     else if yc (row1 r) > zc (row2 r) then
       let S = sqrt (1 + yc (row1 r) - xc (row0 r) - zc (row2 r)) * 2
       in quat_of ((zc (row0 r) - xc (row2 r)) / S) ((yc (row0 r) + xc (row1 r)) / S, S / 4, (zc (row1 r) + yc (row2 r)) / S)
     else
       let S = sqrt (1 + zc (row2 r) - xc (row0 r) - yc (row1 r)) * 2
       in quat_of ((xc (row1 r) - yc (row0 r)) / S) ((zc (row0 r) + xc (row2 r)) / S, (zc (row1 r) + yc (row2 r)) / S, S / 4))"

subsection \<open>Algebra\<close>

lemmas v3_defs = v3_add_def v3_sub_def v3_neg_def v3_scale_def v3_scale_left_def v3_dot_def v3_cross_def
lemmas quat_defs = quat_of_def quat_mul_def quat_vec_mul_def vec_quat_mul_def conj_def norm2_def rotate_def

lemma quat_cases: obtains a b c d where "q = \<lparr>q_s = a, q_v = (b, c, d)\<rparr>"
  by (cases q) auto

lemma rotmat3_cases:
  obtains a b c d e f g h i where "r = \<lparr>row0 = (a, b, c), row1 = (d, e, f), row2 = (g, h, i)\<rparr>"
  by (cases r) auto

lemma quat_mul_assoc: "quat_mul (quat_mul p q) r = quat_mul p (quat_mul q r)"
  by (simp add: quat_defs v3_defs) (intro conjI; algebra)

lemma norm2_mul: "norm2 (quat_mul p q) = norm2 p * norm2 q"
  by (simp add: quat_defs v3_defs) algebra

lemma norm2_conj: "norm2 (conj q) = norm2 q"
  by (simp add: quat_defs v3_defs)

lemma rotate_product: "quat_mul (quat_vec_mul q v) (conj q) = quat_of 0 (rotate q v)"
  by (simp add: quat_defs v3_defs) (intro conjI; algebra)

lemma rotate_compose: "rotate (quat_mul p q) v = rotate p (rotate q v)"
  by (simp add: quat_defs v3_defs) (intro conjI; algebra)

lemma rotate_conj: "rotate (conj q) (rotate q v) = v3_scale_left (norm2 q * norm2 q) v"
  by (simp add: quat_defs v3_defs) (intro conjI; algebra)

lemma rotate_dot: "v3_dot (rotate q v) (rotate q w) = norm2 q * norm2 q * v3_dot v w"
  by (simp add: quat_defs v3_defs) algebra

lemma rotate_sub: "rotate q (v3_sub v w) = v3_sub (rotate q v) (rotate q w)"
  by (simp add: quat_defs v3_defs) (intro conjI; algebra)

lemma rotmat3_rotate: "rotmat3_vec (rotmat3_of_quat q) v = rotate q v"
  by (simp add: rotmat3_vec_def rotmat3_of_quat_def Let_def quat_defs v3_defs) (intro conjI; algebra)

subsection \<open>Rotations as an action\<close>

text \<open>What the shape and rigid body code relies on, for quaternions and for matrices alike.\<close>

locale rotation_action =
  fixes proper :: "'r \<Rightarrow> bool" and compose :: "'r \<Rightarrow> 'r \<Rightarrow> 'r" and opposite :: "'r \<Rightarrow> 'r" and unrotated :: 'r
    and act :: "'r \<Rightarrow> vec3 \<Rightarrow> vec3"
  assumes act_compose: "act (compose p q) v = act p (act q v)"
    and act_unrotated: "act unrotated v = v"
    and proper_compose: "proper p \<Longrightarrow> proper q \<Longrightarrow> proper (compose p q)"
    and proper_opposite: "proper p \<Longrightarrow> proper (opposite p)"
    and proper_unrotated: "proper unrotated"
    and opposite_act: "proper p \<Longrightarrow> act (opposite p) (act p v) = v"
    and opposite_opposite: "opposite (opposite p) = p"
    and act_dot: "proper p \<Longrightarrow> v3_dot (act p v) (act p w) = v3_dot v w"
    and act_sub: "act p (v3_sub v w) = v3_sub (act p v) (act p w)"
begin

lemma act_opposite: "proper p \<Longrightarrow> act p (act (opposite p) v) = v"
  using opposite_act [of "opposite p" v] proper_opposite [of p] by (simp add: opposite_opposite)

lemma act_inj: "proper p \<Longrightarrow> act p v = act p w \<Longrightarrow> v = w"
  using opposite_act by metis

lemma act_distance: "proper p \<Longrightarrow> v3_dot (v3_sub (act p v) (act p w)) (v3_sub (act p v) (act p w)) = v3_dot (v3_sub v w) (v3_sub v w)"
  by (simp add: act_dot flip: act_sub)

lemma act_sequence:
  assumes "\<forall>p \<in> set ps. proper p"
  shows "proper (fold compose ps unrotated) \<and> act (fold compose ps unrotated) v = fold act ps v"
proof -
  have "proper (fold compose ps q) \<and> act (fold compose ps q) v = fold act ps (act q v)" if "proper q" for q
    using assms that by (induction ps arbitrary: q) (auto simp: act_compose proper_compose)
  from this [OF proper_unrotated] show ?thesis by (simp add: act_unrotated)
qed

end

definition unit_quat :: "quat \<Rightarrow> bool" where
  "unit_quat q \<longleftrightarrow> norm2 q = 1"

definition orthogonal :: "rotmat3 \<Rightarrow> bool" where
  "orthogonal A \<longleftrightarrow> rotmat3_mul (rotmat3_transpose A) A = rotmat3_default \<and> rotmat3_mul A (rotmat3_transpose A) = rotmat3_default"

interpretation quat_action: rotation_action unit_quat quat_mul conj quat_default rotate
proof unfold_locales
  show "rotate quat_default v = v" for v by (simp add: quat_default_def quat_defs v3_defs)
  show "conj (conj p) = p" for p by (simp add: quat_defs v3_defs)
  show "rotate (conj p) (rotate p v) = v" if "unit_quat p" for p v
    using that by (simp add: rotate_conj unit_quat_def v3_scale_left_def)
  show "unit_quat quat_default" by (simp add: unit_quat_def quat_default_def quat_defs v3_defs)
qed (simp_all add: rotate_compose norm2_mul norm2_conj rotate_dot rotate_sub unit_quat_def)

lemma rotmat3_mul_vec: "rotmat3_vec (rotmat3_mul A B) v = rotmat3_vec A (rotmat3_vec B v)"
  by (simp add: rotmat3_vec_def rotmat3_mul_def rotmat3_transpose_def Let_def v3_defs) (intro conjI; algebra)

lemma rotmat3_mul_assoc: "rotmat3_mul (rotmat3_mul A B) C = rotmat3_mul A (rotmat3_mul B C)"
  by (simp add: rotmat3_mul_def rotmat3_transpose_def Let_def v3_defs) (intro conjI; algebra)

lemma rotmat3_transpose_mul: "rotmat3_transpose (rotmat3_mul A B) = rotmat3_mul (rotmat3_transpose B) (rotmat3_transpose A)"
  by (simp add: rotmat3_mul_def rotmat3_transpose_def Let_def v3_defs)

lemma rotmat3_mul_default: "rotmat3_mul rotmat3_default A = A" "rotmat3_mul A rotmat3_default = A"
  by (simp_all add: rotmat3_mul_def rotmat3_default_def rotmat3_transpose_def Let_def v3_defs)

lemma rotmat3_transpose_dot: "v3_dot (rotmat3_vec A v) (rotmat3_vec A w) = v3_dot v (rotmat3_vec (rotmat3_mul (rotmat3_transpose A) A) w)"
  by (simp add: rotmat3_vec_def rotmat3_mul_def rotmat3_transpose_def Let_def v3_defs) algebra

lemma rotmat3_default_vec: "rotmat3_vec rotmat3_default v = v"
  by (simp add: rotmat3_vec_def rotmat3_default_def v3_defs)

lemma orthogonal_mul: "orthogonal A \<Longrightarrow> orthogonal B \<Longrightarrow> orthogonal (rotmat3_mul A B)"
  unfolding orthogonal_def rotmat3_transpose_mul by (metis rotmat3_mul_assoc rotmat3_mul_default)

interpretation matrix_action: rotation_action orthogonal rotmat3_mul rotmat3_transpose rotmat3_default rotmat3_vec
proof unfold_locales
  show "rotmat3_transpose (rotmat3_transpose A) = A" for A by (simp add: rotmat3_transpose_def)
  then show "orthogonal A \<Longrightarrow> orthogonal (rotmat3_transpose A)" for A by (simp add: orthogonal_def)
  show "rotmat3_vec (rotmat3_transpose A) (rotmat3_vec A v) = v" if "orthogonal A" for A v
    using that by (simp add: orthogonal_def rotmat3_default_vec flip: rotmat3_mul_vec)
  show "v3_dot (rotmat3_vec A v) (rotmat3_vec A w) = v3_dot v w" if "orthogonal A" for A v w
    using that by (simp add: orthogonal_def rotmat3_default_vec rotmat3_transpose_dot)
  show "orthogonal rotmat3_default"
    by (simp add: orthogonal_def rotmat3_mul_def rotmat3_default_def rotmat3_transpose_def Let_def v3_defs)
  show "rotmat3_vec A (v3_sub v w) = v3_sub (rotmat3_vec A v) (rotmat3_vec A w)" for A v w
    by (simp add: rotmat3_vec_def v3_defs algebra_simps)
qed (simp_all add: rotmat3_mul_vec rotmat3_default_vec orthogonal_mul)

lemma rotmat3_of_quat_mul: "rotmat3_of_quat (quat_mul p q) = rotmat3_mul (rotmat3_of_quat p) (rotmat3_of_quat q)"
  by (simp add: rotmat3_of_quat_def rotmat3_mul_def rotmat3_transpose_def Let_def quat_defs v3_defs) (intro conjI; algebra)

lemma rotmat3_of_quat_conj: "rotmat3_of_quat (conj q) = rotmat3_transpose (rotmat3_of_quat q)"
  by (simp add: rotmat3_of_quat_def rotmat3_transpose_def Let_def quat_defs v3_defs)

lemma rotmat3_of_quat_orthogonal:
  assumes "unit_quat q"
  shows "orthogonal (rotmat3_of_quat q)" "rotmat3_det (rotmat3_of_quat q) = 1"
proof -
  obtain a b c d where q: "q = \<lparr>q_s = a, q_v = (b, c, d)\<rparr>" by (rule quat_cases)
  have n: "a * a + (b * b + c * c + d * d) = 1" using assms by (simp add: q unit_quat_def norm2_def v3_dot_def)
  have "quat_mul (conj q) q = quat_default" "quat_mul q (conj q) = quat_default"
    using n by (simp_all add: q quat_default_def quat_defs v3_defs algebra_simps)
  moreover have "rotmat3_of_quat quat_default = rotmat3_default"
    by (simp add: rotmat3_of_quat_def quat_default_def quat_of_def rotmat3_default_def Let_def)
  ultimately show "orthogonal (rotmat3_of_quat q)"
    unfolding orthogonal_def by (metis rotmat3_of_quat_mul rotmat3_of_quat_conj)
  have "rotmat3_det (rotmat3_of_quat q) = (a * a + (b * b + c * c + d * d)) ^ 3"
    by (simp add: q rotmat3_det_def rotmat3_of_quat_def Let_def power3_eq_cube) algebra
  then show "rotmat3_det (rotmat3_of_quat q) = 1" by (simp add: n)
qed

subsection \<open>From a matrix back to a quaternion\<close>

lemma sqrt_square_times: "sqrt (4 * (x * x)) * 2 = 4 * \<bar>x\<bar>"
  by (simp add: real_sqrt_mult)

lemma quat_of_rotmat3_branch:
  assumes n: "a * a + b * b + c * c + d * d = (1::real)"
  defines "r \<equiv> rotmat3_of_quat \<lparr>q_s = a, q_v = (b, c, d)\<rparr>"
  shows "xc (row0 r) + yc (row1 r) + zc (row2 r) + 1 = 4 * (a * a)"
    "1 + xc (row0 r) - yc (row1 r) - zc (row2 r) = 4 * (b * b)"
    "1 + yc (row1 r) - xc (row0 r) - zc (row2 r) = 4 * (c * c)"
    "1 + zc (row2 r) - xc (row0 r) - yc (row1 r) = 4 * (d * d)"
  using n by (simp_all add: r_def rotmat3_of_quat_def Let_def)

text \<open>The branch that the code selects divides by a component that is not zero.\<close>

lemma selected_component:
  fixes a b c d :: real
  assumes n: "a * a + b * b + c * c + d * d = 1"
  obtains "4 * (a * a) > 1" "a \<noteq> 0"
    | "\<not> 4 * (a * a) > 1" "b * b > c * c \<and> b * b > d * d" "b \<noteq> 0"
    | "\<not> 4 * (a * a) > 1" "\<not> (b * b > c * c \<and> b * b > d * d)" "c * c > d * d" "c \<noteq> 0"
    | "\<not> 4 * (a * a) > 1" "\<not> (b * b > c * c \<and> b * b > d * d)" "\<not> c * c > d * d" "d \<noteq> 0"
proof -
  note sq = zero_le_square [of a] zero_le_square [of b] zero_le_square [of c] zero_le_square [of d]
  have zero: "x = 0 \<Longrightarrow> x * x = 0" for x :: real by simp
  have "a \<noteq> 0" if "4 * (a * a) > 1" using that zero [of a] by linarith
  moreover have "b \<noteq> 0" if "b * b > c * c" using that zero [of b] sq by linarith
  moreover have "c \<noteq> 0" if "c * c > d * d" using that zero [of c] sq by linarith
  moreover have "d \<noteq> 0" if "\<not> 4 * (a * a) > 1" "\<not> (b * b > c * c \<and> b * b > d * d)" "\<not> c * c > d * d"
    using that n zero [of d] sq by linarith
  ultimately show thesis using that by blast
qed

lemma quat_of_rotmat3_sign:
  assumes n: "a * a + b * b + c * c + d * d = (1::real)"
  shows "\<exists>x. x \<noteq> 0 \<and> quat_of_rotmat3 (rotmat3_of_quat \<lparr>q_s = a, q_v = (b, c, d)\<rparr>)
    = \<lparr>q_s = sgn x * a, q_v = (sgn x * b, sgn x * c, sgn x * d)\<rparr>"
proof -
  let ?r = "rotmat3_of_quat \<lparr>q_s = a, q_v = (b, c, d)\<rparr>"
  note br = quat_of_rotmat3_branch [OF n]
  have off: "yc (row2 ?r) - zc (row1 ?r) = 4 * a * b" "zc (row0 ?r) - xc (row2 ?r) = 4 * a * c" "xc (row1 ?r) - yc (row0 ?r) = 4 * a * d"
    "yc (row0 ?r) + xc (row1 ?r) = 4 * b * c" "zc (row0 ?r) + xc (row2 ?r) = 4 * b * d" "zc (row1 ?r) + yc (row2 ?r) = 4 * c * d"
    by (simp_all add: rotmat3_of_quat_def Let_def)
  have sg: "x \<noteq> 0 \<Longrightarrow> 4 * x * y / (4 * \<bar>x\<bar>) = sgn x * y" "x \<noteq> 0 \<Longrightarrow> 4 * y * x / (4 * \<bar>x\<bar>) = sgn x * y" "4 * \<bar>x\<bar> / 4 = sgn x * x" for x y :: real
    by (auto simp: sgn_if)
  have cond: "xc (row0 ?r) + yc (row1 ?r) + zc (row2 ?r) > 0 \<longleftrightarrow> 4 * (a * a) > 1"
    "xc (row0 ?r) > yc (row1 ?r) \<longleftrightarrow> b * b > c * c" "xc (row0 ?r) > zc (row2 ?r) \<longleftrightarrow> b * b > d * d" "yc (row1 ?r) > zc (row2 ?r) \<longleftrightarrow> c * c > d * d"
    using br(1) by (auto simp: rotmat3_of_quat_def Let_def)
  note ev = quat_of_rotmat3_def Let_def cond br off sqrt_square_times quat_of_def if_True if_False
  from n show ?thesis
  proof (cases rule: selected_component)
    case 1
    then have "quat_of_rotmat3 ?r = \<lparr>q_s = sgn a * a, q_v = (sgn a * b, sgn a * c, sgn a * d)\<rparr>" by (simp add: ev sg)
    then show ?thesis using 1 by blast
  next
    case 2
    then have "quat_of_rotmat3 ?r = \<lparr>q_s = sgn b * a, q_v = (sgn b * b, sgn b * c, sgn b * d)\<rparr>" by (simp add: ev sg)
    then show ?thesis using 2 by blast
  next
    case 3
    then have "quat_of_rotmat3 ?r = \<lparr>q_s = sgn c * a, q_v = (sgn c * b, sgn c * c, sgn c * d)\<rparr>" by (simp add: ev sg)
    then show ?thesis using 3 by blast
  next
    case 4
    then have "quat_of_rotmat3 ?r = \<lparr>q_s = sgn d * a, q_v = (sgn d * b, sgn d * c, sgn d * d)\<rparr>" by (auto simp: ev sg)
    then show ?thesis using 4 by blast
  qed
qed

lemma axis_angle:
  assumes "v3_dot axis axis = 1"
  shows "unit_quat (quat_fromAxisAngle axis theta)" "rotate (quat_fromAxisAngle axis theta) axis = axis"
proof -
  define c s where "c = cos (theta / 2)" and "s = sin (theta / 2)"
  have cs: "c * c + s * s = 1" using sin_cos_squared_add3 [of "theta / 2"] by (simp add: c_def s_def)
  obtain x y z where ax: "axis = (x, y, z)" by (cases axis)
  have n: "x * x + y * y + z * z = 1" using assms by (simp add: ax v3_dot_def)
  have q: "quat_fromAxisAngle axis theta = \<lparr>q_s = c, q_v = (x * s, y * s, z * s)\<rparr>"
    by (simp add: quat_fromAxisAngle_def quat_of_def ax v3_defs c_def s_def)
  show "unit_quat (quat_fromAxisAngle axis theta)"
    unfolding q unit_quat_def norm2_def v3_dot_def using n cs by simp algebra
  show "rotate (quat_fromAxisAngle axis theta) axis = axis"
    unfolding q unfolding ax rotate_def v3_defs using n cs by simp (intro conjI; algebra)
qed

lemma rotate_negative: "rotate (quat_scale_left (- 1) q) v = rotate q v"
  by (simp add: quat_scale_left_def quat_of_def rotate_def v3_defs) (intro conjI; algebra)

subsection \<open>Properties\<close>

text \<open>
  C6: The three ways to rotate a vector agree for every quaternion: the closed form \<open>rotate\<close>, the product with the
  quaternion and its conjugate, and the rotation matrix of the quaternion; in the plane also the two-dimensional forms and the matrix of an angle.
\<close>

theorem rotation_forms_agree:
  "quat_mul (quat_vec_mul q v) (conj q) = quat_of 0 (rotate q v)
    \<and> rotmat3_vec (rotmat3_of_quat q) v = rotate q v
    \<and> rotate_2d q (x, y) = (xc (rotate q (x, y, 0)), yc (rotate q (x, y, 0)))
    \<and> rotmat2_vec (rotmat2_of_quat q) (x, y) = rotate_2d q (x, y)
    \<and> rotmat2_of_quat (quat_fromAxisAngle (0, 0, 1) theta) = rotmat2_fromAngle theta"
proof -
  have "rotmat2_vec (rotmat2_of_quat q) (x, y) = rotate_2d q (x, y)"
    by (simp add: rotmat2_vec_def rotmat2_of_quat_def rotate_2d_def Let_def v2_dot_def v3_defs) (intro conjI; algebra)
  moreover have "cos theta = cos (theta / 2) * cos (theta / 2) - sin (theta / 2) * sin (theta / 2)"
    "sin theta = 2 * cos (theta / 2) * sin (theta / 2)"
    using cos_add [of "theta / 2" "theta / 2"] sin_add [of "theta / 2" "theta / 2"] by simp_all
  then have "rotmat2_of_quat (quat_fromAxisAngle (0, 0, 1) theta) = rotmat2_fromAngle theta"
    by (simp add: rotmat2_of_quat_def quat_fromAxisAngle_def quat_of_def rotmat2_fromAngle_def Let_def v3_defs)
  moreover have "rotate_2d q (x, y) = (xc (rotate q (x, y, 0)), yc (rotate q (x, y, 0)))"
    by (simp add: rotate_2d_def rotate_def Let_def)
  ultimately show ?thesis using rotate_product rotmat3_rotate by blast
qed

text \<open>
  C7: Unit quaternions act on vectors as rotations: the product composes the rotations in order, the conjugate undoes
  them, angles and distances are kept, also along any sequence of rotations; their matrices are orthogonal with
  determinant one, and a quaternion from a unit axis is a unit quaternion that leaves the axis fixed.
\<close>

theorem unit_quaternions_rotate:
  assumes "unit_quat p" and "unit_quat q" and "v3_dot axis axis = 1" and "\<forall>r \<in> set rs. unit_quat r"
  shows "rotate (quat_mul p q) v = rotate p (rotate q v) \<and> unit_quat (quat_mul p q)
    \<and> rotate (conj q) (rotate q v) = v \<and> rotate q (rotate (conj q) v) = v
    \<and> v3_dot (rotate q v) (rotate q w) = v3_dot v w
    \<and> v3_dot (v3_sub (rotate q v) (rotate q w)) (v3_sub (rotate q v) (rotate q w)) = v3_dot (v3_sub v w) (v3_sub v w)
    \<and> rotate (fold quat_mul rs quat_default) v = fold rotate rs v
    \<and> orthogonal (rotmat3_of_quat q) \<and> rotmat3_det (rotmat3_of_quat q) = 1
    \<and> unit_quat (quat_fromAxisAngle axis theta) \<and> rotate (quat_fromAxisAngle axis theta) axis = axis"
  using axis_angle [OF assms(3)] rotmat3_of_quat_orthogonal [OF assms(2)] quat_action.act_compose quat_action.proper_compose [OF assms(1,2)]
      quat_action.opposite_act [OF assms(2)] quat_action.act_opposite [OF assms(2)] quat_action.act_dot [OF assms(2)]
      quat_action.act_distance [OF assms(2)] quat_action.act_sequence [OF assms(4)] by blast

theorem unit_quaternions_rotate_witness:
  "rotate (conj (quat_fromAxisAngle (0, 0, 1) (pi / 2))) (rotate (quat_fromAxisAngle (0, 0, 1) (pi / 2)) (1, 2, 3)) = (1, 2, 3)"
proof -
  have "cos (pi / 4) * cos (pi / 4) + sin (pi / 4) * sin (pi / 4) = 1" using sin_cos_squared_add3 [of "pi / 4"] by simp
  then have u: "unit_quat (quat_fromAxisAngle (0, 0, 1) (pi / 2))"
    by (simp add: unit_quat_def norm2_def quat_fromAxisAngle_def quat_of_def v3_defs)
  show ?thesis using unit_quaternions_rotate [OF u u, of "(0, 0, 1)" "[]"] by (simp add: v3_dot_def)
qed

text \<open>
  C24: Converting a unit quaternion to a matrix and back gives the quaternion or its negative, whichever of the four
  branches the code selects, and in both cases the same rotation.
\<close>

theorem rotmat_quat_roundtrip:
  assumes "unit_quat q"
  shows "quat_of_rotmat3 (rotmat3_of_quat q) \<in> {q, quat_scale_left (- 1) q}
    \<and> rotate (quat_of_rotmat3 (rotmat3_of_quat q)) v = rotate q v"
proof -
  obtain a b c d where q: "q = \<lparr>q_s = a, q_v = (b, c, d)\<rparr>" by (rule quat_cases)
  have "a * a + b * b + c * c + d * d = 1" using assms by (simp add: q unit_quat_def norm2_def v3_dot_def)
  then obtain x where "x \<noteq> 0" "quat_of_rotmat3 (rotmat3_of_quat q) = \<lparr>q_s = sgn x * a, q_v = (sgn x * b, sgn x * c, sgn x * d)\<rparr>"
    using quat_of_rotmat3_sign q by blast
  then have "quat_of_rotmat3 (rotmat3_of_quat q) \<in> {q, quat_scale_left (- 1) q}"
    by (cases "x > 0") (simp_all add: q quat_scale_left_def quat_of_def v3_defs)
  then show ?thesis using rotate_negative [of q v] by auto
qed

theorem rotmat_quat_roundtrip_witness:
  "unit_quat \<lparr>q_s = 0, q_v = (3 / 5, 0, - (4 / 5))\<rparr>
    \<and> rotate (quat_of_rotmat3 (rotmat3_of_quat \<lparr>q_s = 0, q_v = (3 / 5, 0, - (4 / 5))\<rparr>)) (1, 0, 0) = (- (7 / 25), 0, - (24 / 25))"
proof -
  have u: "unit_quat \<lparr>q_s = 0, q_v = (3 / 5, 0, - (4 / 5))\<rparr>" by (simp add: unit_quat_def norm2_def v3_dot_def)
  then show ?thesis using rotmat_quat_roundtrip [OF u, of "(1, 0, 0)"] by (simp add: rotate_def v3_defs)
qed

end
