(* ===== verification/Spec2Isabelle.thy ===== *)
theory Spec2Isabelle
  imports Index1D GPU_Vector Box_Dim Tag_Pool Particle_Migrate Domain_Setup Particle_Access Pair_Forces Neighbor_Rebuild Vector_Math
begin

text \<open>HOOMD-blue.\<close>

end
